theory Spec2Isabelle
  imports Main "HOL-Library.AList"
begin

section \<open>The plan execution engine of KUDO: data model\<close>

text \<open>
  The theory embeds \<^verbatim>\<open>pkg/controller/instance/plan_execution_engine.go\<close> and the
  convention enhancer (\<^verbatim>\<open>applyConventionsToTemplates\<close>). The API types of package
  \<^verbatim>\<open>v1alpha1\<close> are not part of the sources at hand; they are declared here with the
  fields the engine reads and writes.
\<close>

datatype ExecutionStatus =
    ExecutionPending
  | ExecutionInProgress
  | ExecutionComplete
  | ErrorStatus
  | ExecutionFatalError

datatype Ordering = Serial | Parallel

record StepStatus =
  StepStatus_Name :: string
  StepStatus_Status :: ExecutionStatus

record PhaseStatus =
  PhaseStatus_Name :: string
  PhaseStatus_Status :: ExecutionStatus
  PhaseStatus_Steps :: "StepStatus list"

record PlanStatus =
  PlanStatus_Name :: string
  PlanStatus_Status :: ExecutionStatus
  PlanStatus_Phases :: "PhaseStatus list"

record Step =
  Step_Name :: string
  Step_Delete :: bool
  Step_Tasks :: "string list"

record Phase =
  Phase_Name :: string
  Phase_Strategy :: Ordering
  Phase_Steps :: "Step list"

record Plan =
  Plan_Strategy :: Ordering
  Plan_Phases :: "Phase list"

record TaskSpec =
  TaskSpec_Resources :: "string list"

text \<open>
  \<^verbatim>\<open>activePlan\<close> embeds a pointer \<^verbatim>\<open>*v1alpha1.PlanStatus\<close>. Pointers to plan statuses
  are addresses of a store; an address the store does not map stands for \<^verbatim>\<open>nil\<close>.
\<close>

type_synonym addr = nat

type_synonym store = "addr \<Rightarrow> PlanStatus option"

record activePlan =
  activePlan_Name :: string
  activePlan_PlanStatus :: addr
  activePlan_Spec :: Plan
  activePlan_Tasks :: "string \<Rightarrow> TaskSpec option"
  activePlan_Templates :: "string \<Rightarrow> string option"
  activePlan_params :: "(string \<times> string) list"

record OwnerReference =
  OwnerReference_Kind :: string
  OwnerReference_Name :: string
  OwnerReference_Controller :: bool

text \<open>
  A cluster object (\<^verbatim>\<open>runtime.Object\<close> with its \<^verbatim>\<open>metav1.Object\<close> metadata): the
  metadata the engine and the conventions touch, and the rest of the manifest as text.
\<close>

record Object =
  Object_Kind :: string
  Object_Name :: string
  Object_Namespace :: string
  Object_Labels :: "(string \<times> string) list"
  Object_Annotations :: "(string \<times> string) list"
  Object_OwnerReferences :: "OwnerReference list"
  Object_Body :: string

record executionMetadata =
  instanceName :: string
  instanceNamespace :: string
  operatorName :: string
  operatorVersionName :: string
  operatorVersion :: string
  resourcesOwner :: OwnerReference

record ObjectKey =
  ObjectKey_Namespace :: string
  ObjectKey_Name :: string

datatype PatchType = StrategicMergePatchType | MergePatchType

subsection \<open>Errors\<close>

datatype StatusReason =
    StatusReasonNotFound
  | StatusReasonUnsupportedMediaType
  | StatusReasonOther string

text \<open>
  Go errors as values. \<open>StatusError\<close> is an API status error of the cluster client,
  \<open>ErrTaskNotFound\<close> and \<open>ErrResourceNotFound\<close> are the two \<^verbatim>\<open>fmt.Errorf\<close> values of
  \<^verbatim>\<open>prepareKubeResources\<close>, \<open>Wrapped\<close> is \<^verbatim>\<open>errwrap.Wrap\<close>, and
  \<open>ExecutionError err fatal\<close> is \<^verbatim>\<open>&executionError{err, fatal, nil}\<close>.
\<close>

datatype error =
    StatusError StatusReason
  | OtherError string
  | ErrTaskNotFound string
  | ErrResourceNotFound string string
  | Wrapped error string
  | ExecutionError error bool

fun IsNotFound :: "error option \<Rightarrow> bool" where
  "IsNotFound (Some (StatusError r)) = (r = StatusReasonNotFound)"
| "IsNotFound _ = False"

fun IsUnsupportedMediaType :: "error \<Rightarrow> bool" where
  "IsUnsupportedMediaType (StatusError r) = (r = StatusReasonUnsupportedMediaType)"
| "IsUnsupportedMediaType _ = False"

text \<open>
  \<^verbatim>\<open>errors.As(err, &exErr)\<close> with \<^verbatim>\<open>var exErr *executionError\<close>: true when the error,
  or an error it wraps, has the dynamic type \<^verbatim>\<open>*executionError\<close>. The test looks at the
  type only; it does not read the \<^verbatim>\<open>fatal\<close> field.
\<close>

fun AsExecutionError :: "error \<Rightarrow> bool" where
  "AsExecutionError (ExecutionError e fatal) = True"
| "AsExecutionError (Wrapped e msg) = AsExecutionError e"
| "AsExecutionError _ = False"

subsection \<open>The cluster client and its trace\<close>

text \<open>
  The cluster client, the health oracle and the JSON encoder are collaborators outside the
  engine. They are parameters of the model: functions over a cluster state \<open>'c\<close>. A
  request that fills or refreshes the object it is given returns that object.
\<close>

record 'c Client =
  Client_Get :: "ObjectKey \<Rightarrow> Object \<Rightarrow> 'c \<Rightarrow> error + Object"
  Client_Create :: "Object \<Rightarrow> 'c \<Rightarrow> (error + Object) \<times> 'c"
  Client_Patch :: "Object \<Rightarrow> PatchType \<Rightarrow> string \<Rightarrow> 'c \<Rightarrow> (error + Object) \<times> 'c"
  Client_Delete :: "Object \<Rightarrow> 'c \<Rightarrow> error option \<times> 'c"
  Client_IsHealthy :: "Object \<Rightarrow> 'c \<Rightarrow> bool"
  Client_Marshal :: "Object \<Rightarrow> string"

text \<open>
  Every function that talks to the cluster returns the requests it issued, in order. A
  health check is recorded with its answer; \<open>EvExecuteStep\<close> records a call of
  \<^verbatim>\<open>executeStep\<close> by the driver (the source logs the step's name right before it).
\<close>

datatype event =
    EvExecuteStep string
  | EvGet ObjectKey
  | EvCreate Object
  | EvPatch Object PatchType string
  | EvDelete Object
  | EvIsHealthy Object bool

fun isWrite :: "event \<Rightarrow> bool" where
  "isWrite (EvCreate r) = True"
| "isWrite (EvPatch r t body) = True"
| "isWrite (EvDelete r) = True"
| "isWrite _ = False"

definition ObjectKeyFromObject :: "Object \<Rightarrow> ObjectKey" where
  "ObjectKeyFromObject r =
     \<lparr>ObjectKey_Namespace = Object_Namespace r, ObjectKey_Name = Object_Name r\<rparr>"

section \<open>Status predicates\<close>

definition isFinished :: "ExecutionStatus \<Rightarrow> bool" where
  "isFinished state = (state = ExecutionComplete)"

definition isInProgress :: "ExecutionStatus \<Rightarrow> bool" where
  "isInProgress state =
     (state = ExecutionInProgress \<or> state = ExecutionPending \<or> state = ErrorStatus)"

text \<open>
  Modelled from the spec: \<^verbatim>\<open>ExecutionStatus.IsTerminal\<close> belongs to package
  \<^verbatim>\<open>v1alpha1\<close>, which is not among the sources. The spec (4.5, step 1): a status is
  terminal when it is \<^verbatim>\<open>Complete\<close> or \<^verbatim>\<open>ExecutionFatalError\<close>.
\<close>

definition IsTerminal :: "ExecutionStatus \<Rightarrow> bool" where
  "IsTerminal s = (s = ExecutionComplete \<or> s = ExecutionFatalError)"

section \<open>The step executor\<close>

text \<open>
  \<^verbatim>\<open>patchExistingObject\<close>: a strategic merge patch of the existing object with the new
  object's JSON; on \<^verbatim>\<open>UnsupportedMediaType\<close> a merge patch of the new object. The result
  is the error (if any), the existing object as the requests left it, the cluster and the
  requests issued.
\<close>

definition patchExistingObject ::
  "'c Client \<Rightarrow> Object \<Rightarrow> Object \<Rightarrow> 'c \<Rightarrow> error option \<times> Object \<times> 'c \<times> event list" where
  "patchExistingObject cl newResource existingResource c =
     (let newResourceJSON = Client_Marshal cl newResource in
      case Client_Patch cl existingResource StrategicMergePatchType newResourceJSON c of
        (Inr existing', c1) \<Rightarrow>
          (None, existing', c1,
           [EvPatch existingResource StrategicMergePatchType newResourceJSON])
      | (Inl err, c1) \<Rightarrow>
          if IsUnsupportedMediaType err then
            (case Client_Patch cl newResource MergePatchType newResourceJSON c1 of
               (Inl err2, c2) \<Rightarrow>
                 (Some err2, existingResource, c2,
                  [EvPatch existingResource StrategicMergePatchType newResourceJSON,
                   EvPatch newResource MergePatchType newResourceJSON])
             | (Inr new', c2) \<Rightarrow>
                 (None, existingResource, c2,
                  [EvPatch existingResource StrategicMergePatchType newResourceJSON,
                   EvPatch newResource MergePatchType newResourceJSON]))
          else
            (Some err, existingResource, c1,
             [EvPatch existingResource StrategicMergePatchType newResourceJSON]))"

text \<open>
  The body of the resource loop of \<^verbatim>\<open>executeStep\<close> for one resource of an apply step:
  get, then create or patch, then the health check. \<open>Inl\<close> is the error that aborts the
  step; \<open>Inr\<close> says whether the object is healthy.
\<close>

definition createOrUpdate ::
  "'c Client \<Rightarrow> Object \<Rightarrow> 'c \<Rightarrow> (error + bool) \<times> 'c \<times> event list" where
  "createOrUpdate cl r c =
     (let existingResource = r;
          key = ObjectKeyFromObject r in
      case Client_Get cl key existingResource c of
        Inl err \<Rightarrow>
          if IsNotFound (Some err) then
            (case Client_Create cl r c of
               (Inl err2, c1) \<Rightarrow> (Inl err2, c1, [EvGet key, EvCreate r])
             | (Inr r', c1) \<Rightarrow>
                 (let healthy = Client_IsHealthy cl existingResource c1 in
                  (Inr healthy, c1,
                   [EvGet key, EvCreate r, EvIsHealthy existingResource healthy])))
          else (Inl err, c, [EvGet key])
      | Inr fetched \<Rightarrow>
          (case patchExistingObject cl r fetched c of
             (Some err, existing', c1, evs) \<Rightarrow> (Inl err, c1, EvGet key # evs)
           | (None, existing', c1, evs) \<Rightarrow>
               (let healthy = Client_IsHealthy cl existing' c1 in
                (Inr healthy, c1, EvGet key # evs @ [EvIsHealthy existing' healthy]))))"

text \<open>
  The resource loop of \<^verbatim>\<open>executeStep\<close>, with its variable \<^verbatim>\<open>allHealthy\<close>. \<open>Inl\<close> is an
  early return with an error, \<open>Inr\<close> the value of \<^verbatim>\<open>allHealthy\<close> after the loop.
\<close>

fun applyResources ::
  "'c Client \<Rightarrow> Step \<Rightarrow> Object list \<Rightarrow> bool \<Rightarrow> 'c \<Rightarrow> (error + bool) \<times> 'c \<times> event list" where
  "applyResources cl step [] allHealthy c = (Inr allHealthy, c, [])"
| "applyResources cl step (r # rs) allHealthy c =
     (if Step_Delete step then
        (case Client_Delete cl r c of
           (err, c1) \<Rightarrow>
             if \<not> IsNotFound err \<and> err \<noteq> None then (Inl (the err), c1, [EvDelete r])
             else (case applyResources cl step rs allHealthy c1 of
                     (res, c2, evs) \<Rightarrow> (res, c2, EvDelete r # evs)))
      else
        (case createOrUpdate cl r c of
           (Inl err, c1, evs) \<Rightarrow> (Inl err, c1, evs)
         | (Inr healthy, c1, evs) \<Rightarrow>
             (case applyResources cl step rs (allHealthy \<and> healthy) c1 of
                (res, c2, evs2) \<Rightarrow> (res, c2, evs @ evs2))))"

text \<open>
  \<^verbatim>\<open>executeStep\<close> writes the step status through its pointer; the model returns the
  step status as the call left it, together with the error.
\<close>

definition executeStep ::
  "'c Client \<Rightarrow> Step \<Rightarrow> StepStatus \<Rightarrow> Object list \<Rightarrow> 'c
     \<Rightarrow> error option \<times> StepStatus \<times> 'c \<times> event list" where
  "executeStep cl step state resources c =
     (if isInProgress (StepStatus_Status state) then
        (let state1 = state\<lparr>StepStatus_Status := ExecutionInProgress\<rparr> in
         case applyResources cl step resources True c of
           (Inl err, c1, evs) \<Rightarrow> (Some err, state1, c1, evs)
         | (Inr allHealthy, c1, evs) \<Rightarrow>
             (None,
              if allHealthy then state1\<lparr>StepStatus_Status := ExecutionComplete\<rparr> else state1,
              c1, evs))
      else (None, state, c, []))"

section \<open>Pointers into the status tree\<close>

text \<open>
  \<^verbatim>\<open>getStepFromStatus\<close> and \<^verbatim>\<open>getPhaseFromStatus\<close> return \<^verbatim>\<open>&status.Steps[i]\<close> and
  \<^verbatim>\<open>&status.Phases[i]\<close> for the first entry with the name, or \<^verbatim>\<open>nil\<close> and an error.
  The pointer is the index \<open>i\<close>; \<open>None\<close> is \<^verbatim>\<open>nil\<close>.
\<close>

fun indexOfStep :: "string \<Rightarrow> StepStatus list \<Rightarrow> nat option" where
  "indexOfStep stepName [] = None"
| "indexOfStep stepName (p # ps) =
     (if StepStatus_Name p = stepName then Some 0
      else map_option Suc (indexOfStep stepName ps))"

fun indexOfPhase :: "string \<Rightarrow> PhaseStatus list \<Rightarrow> nat option" where
  "indexOfPhase phaseName [] = None"
| "indexOfPhase phaseName (p # ps) =
     (if PhaseStatus_Name p = phaseName then Some 0
      else map_option Suc (indexOfPhase phaseName ps))"

definition getStepFromStatus :: "string \<Rightarrow> PhaseStatus \<Rightarrow> nat option" where
  "getStepFromStatus stepName status = indexOfStep stepName (PhaseStatus_Steps status)"

definition getPhaseFromStatus :: "string \<Rightarrow> PlanStatus \<Rightarrow> nat option" where
  "getPhaseFromStatus phaseName status = indexOfPhase phaseName (PlanStatus_Phases status)"

definition phaseAt :: "PlanStatus \<Rightarrow> nat \<Rightarrow> PhaseStatus" where
  "phaseAt s i = PlanStatus_Phases s ! i"

definition stepAt :: "PlanStatus \<Rightarrow> nat \<Rightarrow> nat \<Rightarrow> StepStatus" where
  "stepAt s i j = PhaseStatus_Steps (phaseAt s i) ! j"

text \<open>Writes through a phase pointer \<open>i\<close> and through a step pointer \<open>j\<close> of phase \<open>i\<close>.\<close>

definition setPhase :: "PlanStatus \<Rightarrow> nat \<Rightarrow> PhaseStatus \<Rightarrow> PlanStatus" where
  "setPhase s i p = s\<lparr>PlanStatus_Phases := (PlanStatus_Phases s)[i := p]\<rparr>"

definition setPhaseStatus :: "PlanStatus \<Rightarrow> nat \<Rightarrow> ExecutionStatus \<Rightarrow> PlanStatus" where
  "setPhaseStatus s i x =
     s\<lparr>PlanStatus_Phases :=
         (PlanStatus_Phases s)[i := (phaseAt s i)\<lparr>PhaseStatus_Status := x\<rparr>]\<rparr>"

definition setStep :: "PlanStatus \<Rightarrow> nat \<Rightarrow> nat \<Rightarrow> StepStatus \<Rightarrow> PlanStatus" where
  "setStep s i j st =
     s\<lparr>PlanStatus_Phases :=
         (PlanStatus_Phases s)[i := (phaseAt s i)\<lparr>PhaseStatus_Steps :=
            (PhaseStatus_Steps (phaseAt s i))[j := st]\<rparr>]\<rparr>"

definition setStepStatus :: "PlanStatus \<Rightarrow> nat \<Rightarrow> nat \<Rightarrow> ExecutionStatus \<Rightarrow> PlanStatus" where
  "setStepStatus s i j x = setStep s i j ((stepAt s i j)\<lparr>StepStatus_Status := x\<rparr>)"

section \<open>The resource preparer\<close>

record Configs =
  Configs_OperatorName :: string
  Configs_Name :: string
  Configs_Namespace :: string
  Configs_Params :: "(string \<times> string) list"
  Configs_PlanName :: string
  Configs_PhaseName :: string
  Configs_StepName :: string
  Configs_StepNumber :: string

record metadata =
  metadata_InstanceName :: string
  metadata_Namespace :: string
  metadata_OperatorName :: string
  metadata_OperatorVersion :: string
  metadata_PlanName :: string
  metadata_PhaseName :: string
  metadata_StepName :: string

text \<open>
  The template engine (\<^verbatim>\<open>kudoengine.Render\<close>) and the enhancer (the interface
  \<^verbatim>\<open>kubernetesObjectEnhancer\<close>) are parameters. The enhancer returns Go's pair of the
  objects and the error.
\<close>

type_synonym renderFn = "string \<Rightarrow> Configs \<Rightarrow> error + string"

type_synonym kubernetesObjectEnhancer =
  "(string \<times> string) list \<Rightarrow> metadata \<Rightarrow> OwnerReference \<Rightarrow> Object list \<times> error option"

type_synonym phaseResources = "string \<Rightarrow> Object list option"

type_synonym planResources = "string \<Rightarrow> phaseResources option"

text \<open>\<^verbatim>\<open>strconv.FormatInt(int64(j), 10)\<close> for a slice index \<open>j\<close>.\<close>

fun FormatInt :: "nat \<Rightarrow> string" where
  "FormatInt n =
     (if n < 10 then [''0123456789'' ! n]
      else FormatInt (n div 10) @ [''0123456789'' ! (n mod 10)])"

text \<open>
  The outcome of the preparer's loops: a nil-pointer dereference (a panic), a failure with
  the status tree as the failing branch marked it and the error returned, or the value.
\<close>

datatype 'a prepared =
    NilDereference
  | PrepareError PlanStatus error
  | Prepared 'a

text \<open>
  The two status writes of every failing branch: \<^verbatim>\<open>phaseState.Status = x\<close> and
  \<^verbatim>\<open>stepState.Status = x\<close>, then the return of the error.
\<close>

definition markFailed :: "PlanStatus \<Rightarrow> nat \<Rightarrow> nat \<Rightarrow> ExecutionStatus \<Rightarrow> PlanStatus" where
  "markFailed s i j x = setStepStatus (setPhaseStatus s i x) i j x"

definition failStep ::
  "PlanStatus \<Rightarrow> nat \<Rightarrow> nat option \<Rightarrow> ExecutionStatus \<Rightarrow> error \<Rightarrow> 'a prepared" where
  "failStep s phaseState stepState x err =
     (case stepState of
        None \<Rightarrow> NilDereference
      | Some j \<Rightarrow> PrepareError (markFailed s phaseState j x) err)"

text \<open>The loop over \<^verbatim>\<open>taskSpec.Resources\<close>, filling \<^verbatim>\<open>resourcesAsString\<close>.\<close>

fun renderResources ::
  "renderFn \<Rightarrow> activePlan \<Rightarrow> executionMetadata \<Rightarrow> Configs \<Rightarrow> PlanStatus \<Rightarrow> nat \<Rightarrow> nat option
     \<Rightarrow> string list \<Rightarrow> (string \<times> string) list \<Rightarrow> (string \<times> string) list prepared" where
  "renderResources render plan meta configs s phaseState stepState [] resourcesAsString =
     Prepared resourcesAsString"
| "renderResources render plan meta configs s phaseState stepState (res # rest)
       resourcesAsString =
     (case activePlan_Templates plan res of
        Some resource \<Rightarrow>
          (case render resource configs of
             Inl err \<Rightarrow>
               failStep s phaseState stepState ExecutionFatalError
                 (ExecutionError (Wrapped err ''error expanding template'') True)
           | Inr templatedYaml \<Rightarrow>
               renderResources render plan meta configs s phaseState stepState rest
                 (AList.update res templatedYaml resourcesAsString))
      | None \<Rightarrow>
          failStep s phaseState stepState ExecutionFatalError
            (ExecutionError (ErrResourceNotFound res (operatorVersionName meta)) True))"

text \<open>
  The \<^verbatim>\<open>configs\<close> map as it stands when the templates of step \<open>j\<close> of a phase are
  rendered, and the \<^verbatim>\<open>metadata\<close> literal handed to the enhancer for that step.
\<close>

definition stepConfigs ::
  "activePlan \<Rightarrow> executionMetadata \<Rightarrow> Phase \<Rightarrow> Step \<Rightarrow> nat \<Rightarrow> Configs" where
  "stepConfigs plan meta phase step j =
     \<lparr>Configs_OperatorName = operatorName meta,
      Configs_Name = instanceName meta,
      Configs_Namespace = instanceNamespace meta,
      Configs_Params = activePlan_params plan,
      Configs_PlanName = activePlan_Name plan,
      Configs_PhaseName = Phase_Name phase,
      Configs_StepName = Step_Name step,
      Configs_StepNumber = FormatInt j\<rparr>"

definition stepMetadata :: "activePlan \<Rightarrow> executionMetadata \<Rightarrow> Phase \<Rightarrow> Step \<Rightarrow> metadata" where
  "stepMetadata plan meta phase step =
     \<lparr>metadata_InstanceName = instanceName meta,
      metadata_Namespace = instanceNamespace meta,
      metadata_OperatorName = operatorName meta,
      metadata_OperatorVersion = operatorVersion meta,
      metadata_PlanName = activePlan_Name plan,
      metadata_PhaseName = Phase_Name phase,
      metadata_StepName = Step_Name step\<rparr>"

text \<open>The loop over \<^verbatim>\<open>step.Tasks\<close>, appending to \<^verbatim>\<open>resources\<close>.\<close>

fun prepareTasks ::
  "renderFn \<Rightarrow> kubernetesObjectEnhancer \<Rightarrow> activePlan \<Rightarrow> executionMetadata \<Rightarrow> Phase \<Rightarrow> Step
     \<Rightarrow> Configs \<Rightarrow> PlanStatus \<Rightarrow> nat \<Rightarrow> nat option \<Rightarrow> string list \<Rightarrow> Object list
     \<Rightarrow> Object list prepared" where
  "prepareTasks render renderer plan meta phase step configs s phaseState stepState []
       resources = Prepared resources"
| "prepareTasks render renderer plan meta phase step configs s phaseState stepState (t # rest)
       resources =
     (case activePlan_Tasks plan t of
        Some taskSpec \<Rightarrow>
          (case renderResources render plan meta configs s phaseState stepState
                  (TaskSpec_Resources taskSpec) [] of
             NilDereference \<Rightarrow> NilDereference
           | PrepareError s' err \<Rightarrow> PrepareError s' err
           | Prepared resourcesAsString \<Rightarrow>
               (case renderer resourcesAsString (stepMetadata plan meta phase step)
                       (resourcesOwner meta) of
                  (resourcesWithConventions, Some err) \<Rightarrow>
                    failStep s phaseState stepState ErrorStatus (ExecutionError err False)
                | (resourcesWithConventions, None) \<Rightarrow>
                    prepareTasks render renderer plan meta phase step configs s phaseState
                      stepState rest (resources @ resourcesWithConventions)))
      | None \<Rightarrow>
          failStep s phaseState stepState ErrorStatus
            (ExecutionError (ErrTaskNotFound (operatorVersionName meta)) False))"

text \<open>
  The loop over \<^verbatim>\<open>phase.Steps\<close> with its index \<open>j\<close>, filling \<^verbatim>\<open>perStepResources\<close>.
  \<^verbatim>\<open>getStepFromStatus(step.Name, phaseState)\<close> reads \<^verbatim>\<open>phaseState.Steps\<close>: with a nil
  \<^verbatim>\<open>phaseState\<close> the first step of the phase panics.
\<close>

fun prepareSteps ::
  "renderFn \<Rightarrow> kubernetesObjectEnhancer \<Rightarrow> activePlan \<Rightarrow> executionMetadata \<Rightarrow> Phase
     \<Rightarrow> PlanStatus \<Rightarrow> nat option \<Rightarrow> nat \<Rightarrow> Step list \<Rightarrow> phaseResources
     \<Rightarrow> phaseResources prepared" where
  "prepareSteps render renderer plan meta phase s phaseState j [] perStepResources =
     Prepared perStepResources"
| "prepareSteps render renderer plan meta phase s phaseState j (step # rest) perStepResources =
     (case phaseState of
        None \<Rightarrow> NilDereference
      | Some i \<Rightarrow>
          (let configs = stepConfigs plan meta phase step j;
               stepState = getStepFromStatus (Step_Name step) (phaseAt s i) in
           case prepareTasks render renderer plan meta phase step configs s i stepState
                  (Step_Tasks step) [] of
             NilDereference \<Rightarrow> NilDereference
           | PrepareError s' err \<Rightarrow> PrepareError s' err
           | Prepared resources \<Rightarrow>
               prepareSteps render renderer plan meta phase s phaseState (Suc j) rest
                 (perStepResources(Step_Name step \<mapsto> resources))))"

text \<open>The loop over \<^verbatim>\<open>plan.Spec.Phases\<close>, filling \<^verbatim>\<open>result.PhaseResources\<close>.\<close>

fun preparePhases ::
  "renderFn \<Rightarrow> kubernetesObjectEnhancer \<Rightarrow> activePlan \<Rightarrow> executionMetadata \<Rightarrow> PlanStatus
     \<Rightarrow> Phase list \<Rightarrow> planResources \<Rightarrow> planResources prepared" where
  "preparePhases render renderer plan meta s [] result = Prepared result"
| "preparePhases render renderer plan meta s (phase # rest) result =
     (let phaseState = getPhaseFromStatus (Phase_Name phase) s in
      case prepareSteps render renderer plan meta phase s phaseState 0 (Phase_Steps phase)
             Map.empty of
        NilDereference \<Rightarrow> NilDereference
      | PrepareError s' err \<Rightarrow> PrepareError s' err
      | Prepared perStepResources \<Rightarrow>
          preparePhases render renderer plan meta s rest
            (result(Phase_Name phase \<mapsto> perStepResources)))"

text \<open>
  \<^verbatim>\<open>prepareKubeResources\<close>, on the plan status \<open>s\<close> that \<^verbatim>\<open>plan.PlanStatus\<close> points to.
\<close>

definition prepareKubeResources ::
  "renderFn \<Rightarrow> kubernetesObjectEnhancer \<Rightarrow> activePlan \<Rightarrow> executionMetadata \<Rightarrow> PlanStatus
     \<Rightarrow> planResources prepared" where
  "prepareKubeResources render renderer plan meta s =
     preparePhases render renderer plan meta s (Plan_Phases (activePlan_Spec plan)) Map.empty"

section \<open>The plan driver\<close>

text \<open>
  \<^verbatim>\<open>planResources.PhaseResources[ph.Name].StepResources[st.Name]\<close>: a key missing from
  a Go map reads as the zero value, here the empty slice.
\<close>

definition resourcesOf :: "planResources \<Rightarrow> string \<Rightarrow> string \<Rightarrow> Object list" where
  "resourcesOf planResources phaseName stepName =
     (case planResources phaseName of
        None \<Rightarrow> []
      | Some stepResources \<Rightarrow>
          (case stepResources stepName of None \<Rightarrow> [] | Some rs \<Rightarrow> rs))"

text \<open>
  The step loop of \<^verbatim>\<open>executePlan\<close> for one phase, with its variable
  \<^verbatim>\<open>allStepsHealthy\<close>. The loop reads and writes the phase status that
  \<^verbatim>\<open>currentPhaseState\<close> points to and, through \<^verbatim>\<open>currentStepState\<close>, its steps; the
  model takes that phase status and returns it as the loop left it. The loop ends in a
  panic (a nil \<^verbatim>\<open>currentStepState\<close> is dereferenced), in the early return of an error
  (after marking phase and step \<^verbatim>\<open>ErrorStatus\<close>), or normally, by \<^verbatim>\<open>break\<close> or at the end
  of the steps.
\<close>

datatype stepsResult =
    StepsPanic
  | StepsError PhaseStatus error
  | StepsDone bool PhaseStatus

fun executeSteps ::
  "'c Client \<Rightarrow> Phase \<Rightarrow> planResources \<Rightarrow> Step list \<Rightarrow> bool \<Rightarrow> PhaseStatus \<Rightarrow> 'c
     \<Rightarrow> stepsResult \<times> 'c \<times> event list" where
  "executeSteps cl ph planResources [] allStepsHealthy currentPhaseState c =
     (StepsDone allStepsHealthy currentPhaseState, c, [])"
| "executeSteps cl ph planResources (st # rest) allStepsHealthy currentPhaseState c =
     (case getStepFromStatus (Step_Name st) currentPhaseState of
        None \<Rightarrow> (StepsPanic, c, [])
      | Some j \<Rightarrow>
          (let resources = resourcesOf planResources (Phase_Name ph) (Step_Name st) in
           case executeStep cl st (PhaseStatus_Steps currentPhaseState ! j) resources c of
             (Some err, state', c1, evs) \<Rightarrow>
               (StepsError
                  (currentPhaseState
                     \<lparr>PhaseStatus_Status := ErrorStatus,
                      PhaseStatus_Steps :=
                        (PhaseStatus_Steps currentPhaseState)
                          [j := state'\<lparr>StepStatus_Status := ErrorStatus\<rparr>]\<rparr>) err,
                c1, EvExecuteStep (Step_Name st) # evs)
           | (None, state', c1, evs) \<Rightarrow>
               (let p1 = currentPhaseState
                           \<lparr>PhaseStatus_Steps :=
                              (PhaseStatus_Steps currentPhaseState)[j := state']\<rparr> in
                if \<not> isFinished (StepStatus_Status state') then
                  (if Phase_Strategy ph = Serial then
                     (StepsDone False p1, c1, EvExecuteStep (Step_Name st) # evs)
                   else
                     (case executeSteps cl ph planResources rest False p1 c1 of
                        (r, c2, evs2) \<Rightarrow> (r, c2, EvExecuteStep (Step_Name st) # evs @ evs2)))
                else
                  (case executeSteps cl ph planResources rest allStepsHealthy p1 c1 of
                     (r, c2, evs2) \<Rightarrow> (r, c2, EvExecuteStep (Step_Name st) # evs @ evs2)))))"

text \<open>
  The phase loop of \<^verbatim>\<open>executePlan\<close>, with its variable \<^verbatim>\<open>allPhasesCompleted\<close>. A phase
  that is neither finished nor in progress is left as it is and ends the loop.
\<close>

datatype phasesResult =
    PhasesPanic
  | PhasesError PlanStatus error
  | PhasesDone bool PlanStatus

fun executePhases ::
  "'c Client \<Rightarrow> planResources \<Rightarrow> Phase list \<Rightarrow> PlanStatus \<Rightarrow> 'c
     \<Rightarrow> phasesResult \<times> 'c \<times> event list" where
  "executePhases cl planResources [] newState c = (PhasesDone True newState, c, [])"
| "executePhases cl planResources (ph # rest) newState c =
     (case getPhaseFromStatus (Phase_Name ph) newState of
        None \<Rightarrow> (PhasesPanic, c, [])
      | Some i \<Rightarrow>
          if isFinished (PhaseStatus_Status (phaseAt newState i)) then
            executePhases cl planResources rest newState c
          else if isInProgress (PhaseStatus_Status (phaseAt newState i)) then
            (let s1 = setPhaseStatus (newState\<lparr>PlanStatus_Status := ExecutionInProgress\<rparr>)
                        i ExecutionInProgress in
             case executeSteps cl ph planResources (Phase_Steps ph) True (phaseAt s1 i) c of
               (StepsPanic, c1, evs) \<Rightarrow> (PhasesPanic, c1, evs)
             | (StepsError p' err, c1, evs) \<Rightarrow> (PhasesError (setPhase s1 i p') err, c1, evs)
             | (StepsDone allStepsHealthy p', c1, evs) \<Rightarrow>
                 (let s2 = setPhase s1 i p';
                      s3 = (if allStepsHealthy then setPhaseStatus s2 i ExecutionComplete
                            else s2) in
                  if \<not> isFinished (PhaseStatus_Status (phaseAt s3 i)) then
                    (PhasesDone False s3, c1, evs)
                  else
                    (case executePhases cl planResources rest s3 c1 of
                       (r, c2, evs2) \<Rightarrow> (r, c2, evs @ evs2))))
          else (PhasesDone False newState, c, []))"

text \<open>
  \<^verbatim>\<open>executePlan\<close>. The plan status lives in the store \<open>h\<close> at the address
  \<^verbatim>\<open>plan.PlanStatus\<close>. The source takes its working copy with
  \<^verbatim>\<open>newState := &(*plan.PlanStatus)\<close>. In Go the operand of \<^verbatim>\<open>&\<close> is here the pointer
  indirection \<^verbatim>\<open>*plan.PlanStatus\<close>, which denotes the variable the pointer points to, so
  the address taken is that of the same variable: \<^verbatim>\<open>newState\<close> is the pointer
  \<^verbatim>\<open>plan.PlanStatus\<close> itself and no struct is copied. The preparer writes through
  \<^verbatim>\<open>plan.PlanStatus\<close>, the driver through \<^verbatim>\<open>newState\<close>. The result is the store, the
  pointer returned and the error, or a panic.
\<close>

datatype planResult =
    PlanPanic
  | PlanReturn store addr "error option"

definition setTopStatus :: "store \<Rightarrow> addr \<Rightarrow> ExecutionStatus \<Rightarrow> store" where
  "setTopStatus h p x =
     (case h p of None \<Rightarrow> h | Some v \<Rightarrow> h(p \<mapsto> v\<lparr>PlanStatus_Status := x\<rparr>))"

definition executePlan ::
  "renderFn \<Rightarrow> activePlan \<Rightarrow> executionMetadata \<Rightarrow> 'c Client \<Rightarrow> kubernetesObjectEnhancer
     \<Rightarrow> store \<Rightarrow> 'c \<Rightarrow> planResult \<times> 'c \<times> event list" where
  "executePlan render plan meta cl renderer h c =
     (case h (activePlan_PlanStatus plan) of
        None \<Rightarrow> (PlanPanic, c, [])
      | Some status \<Rightarrow>
          if IsTerminal (PlanStatus_Status status) then
            (PlanReturn h (activePlan_PlanStatus plan) None, c, [])
          else
            (let newState = activePlan_PlanStatus plan in
             case prepareKubeResources render renderer plan meta status of
               NilDereference \<Rightarrow> (PlanPanic, c, [])
             | PrepareError status' err \<Rightarrow>
                 (let h1 = h(activePlan_PlanStatus plan \<mapsto> status') in
                  if AsExecutionError err then
                    (PlanReturn (setTopStatus h1 newState ExecutionFatalError) newState
                       (Some err), c, [])
                  else
                    (PlanReturn (setTopStatus h1 newState ErrorStatus) newState
                       (Some err), c, []))
             | Prepared planResources \<Rightarrow>
                 (case h newState of
                    None \<Rightarrow> (PlanPanic, c, [])
                  | Some working \<Rightarrow>
                      (case executePhases cl planResources
                              (Plan_Phases (activePlan_Spec plan)) working c of
                         (PhasesPanic, c1, evs) \<Rightarrow> (PlanPanic, c1, evs)
                       | (PhasesError s1 err, c1, evs) \<Rightarrow>
                           (PlanReturn (h(newState \<mapsto> s1)) newState (Some err), c1, evs)
                       | (PhasesDone allPhasesCompleted s1, c1, evs) \<Rightarrow>
                           (if allPhasesCompleted then
                              (PlanReturn
                                 (h(newState \<mapsto> s1\<lparr>PlanStatus_Status := ExecutionComplete\<rparr>))
                                 newState None, c1, evs)
                            else (PlanReturn (h(newState \<mapsto> s1)) newState None, c1, evs))))))"

section \<open>The convention enhancer\<close>

text \<open>
  \<^verbatim>\<open>applyConventionsToTemplates\<close> of \<^verbatim>\<open>kustomizeEnhancer\<close> is in the sources; the packages
  it drives (\<^verbatim>\<open>kudo\<close>, \<^verbatim>\<open>yaml\<close>, \<^verbatim>\<open>kustomize\<close>, \<^verbatim>\<open>template\<close>, \<^verbatim>\<open>controllerutil\<close>) are not.
\<close>

text \<open>
  Modelled from the spec: the label and annotation keys of package \<^verbatim>\<open>kudo\<close>, which is
  missing from the sources, as the spec lists the labels and annotations applied to every
  emitted resource.
\<close>

definition HeritageLabel :: string where
  "HeritageLabel = ''heritage''"

definition OperatorLabel :: string where
  "OperatorLabel = ''operator''"

definition InstanceLabel :: string where
  "InstanceLabel = ''instance''"

definition PlanAnnotation :: string where
  "PlanAnnotation = ''plan''"

definition PhaseAnnotation :: string where
  "PhaseAnnotation = ''phase''"

definition StepAnnotation :: string where
  "StepAnnotation = ''step''"

definition OperatorVersionAnnotation :: string where
  "OperatorVersionAnnotation = ''operatorVersion''"

definition basePath :: string where
  "basePath = ''/kustomize''"

text \<open>
  The fields of \<^verbatim>\<open>ktypes.Kustomization\<close> that the enhancer fills. The two Go maps are
  association lists; \<^verbatim>\<open>PatchesStrategicMerge\<close> is always empty and is left out.
\<close>

record Kustomization =
  Kustomization_NamePrefix :: string
  Kustomization_Namespace :: string
  Kustomization_CommonLabels :: "(string \<times> string) list"
  Kustomization_CommonAnnotations :: "(string \<times> string) list"
  Kustomization_DisableNameSuffixHash :: bool
  Kustomization_Resources :: "string list"

text \<open>
  Modelled from the spec: the bytes that the enhancer hands from one package to the next.
  The YAML encoders and decoders are missing from the sources; the encoding of a
  descriptor and of a resource map is kept structured, so that reading returns what was
  written. A template body is text.
\<close>

datatype yaml =
    YamlText string
  | YamlKustomization Kustomization
  | YamlResources "Object list"

type_synonym fsys = "string \<Rightarrow> yaml option"

text \<open>
  What the missing packages answer to the enhancer: for each call that returns an error
  in the source, the error it returns (\<open>None\<close> is \<^verbatim>\<open>nil\<close>); and the documents of a YAML
  text, \<open>None\<close> for a text that does not parse.
\<close>

record kustomizeEnhancer =
  fails_WriteFile :: "string \<Rightarrow> error option"
  fails_Marshal :: "error option"
  fails_NewLoader :: "error option"
  fails_Cleanup :: "error option"
  fails_NewKustTarget :: "error option"
  fails_EncodeAsYaml :: "error option"
  fails_SetControllerReference :: "Object \<Rightarrow> error option"
  documents :: "string \<Rightarrow> Object list option"

text \<open>
  Modelled from the spec: \<^verbatim>\<open>fsys.WriteFile\<close> of the scratch filesystem, which places a
  body under a name.
\<close>

definition WriteFile :: "kustomizeEnhancer \<Rightarrow> string \<Rightarrow> yaml \<Rightarrow> fsys \<Rightarrow> error + fsys" where
  "WriteFile k path bytes fs =
     (case fails_WriteFile k path of
        Some err \<Rightarrow> Inl err
      | None \<Rightarrow> Inr (fs(path \<mapsto> bytes)))"

text \<open>Modelled from the spec: \<^verbatim>\<open>yaml.Marshal\<close> of the descriptor.\<close>

definition yamlMarshal :: "kustomizeEnhancer \<Rightarrow> Kustomization \<Rightarrow> error + yaml" where
  "yamlMarshal k kustomization =
     (case fails_Marshal k of
        Some err \<Rightarrow> Inl err
      | None \<Rightarrow> Inr (YamlKustomization kustomization))"

text \<open>
  Modelled from the spec: \<^verbatim>\<open>loader.NewLoader\<close> and \<^verbatim>\<open>ldr.Cleanup\<close>. A loader is the
  filesystem it reads.
\<close>

definition NewLoader :: "kustomizeEnhancer \<Rightarrow> fsys \<Rightarrow> error + fsys" where
  "NewLoader k fs = (case fails_NewLoader k of Some err \<Rightarrow> Inl err | None \<Rightarrow> Inr fs)"

definition Cleanup :: "kustomizeEnhancer \<Rightarrow> fsys \<Rightarrow> error option" where
  "Cleanup k ldr = fails_Cleanup k"

text \<open>
  Modelled from the spec: \<^verbatim>\<open>target.NewKustTarget\<close>, which reads the descriptor from the
  loader. A target is the loader with the descriptor read.
\<close>

definition NewKustTarget :: "kustomizeEnhancer \<Rightarrow> fsys \<Rightarrow> error + fsys \<times> Kustomization" where
  "NewKustTarget k ldr =
     (case fails_NewKustTarget k of
        Some err \<Rightarrow> Inl err
      | None \<Rightarrow>
          (case ldr (basePath @ ''/kustomization.yaml'') of
             Some (YamlKustomization kustomization) \<Rightarrow> Inr (ldr, kustomization)
           | _ \<Rightarrow> Inl (OtherError ''no kustomization file'')))"

text \<open>
  Modelled from the spec: the customization engine (\<^verbatim>\<open>kt.MakeCustomizedResMap\<close>), which is
  missing from the sources. It ``produces a merged, labeled, prefixed, namespaced resource
  map'': the documents of the listed resources, in the order of the list, each with the
  name prefix put before its name, the namespace of the descriptor, and the common labels
  and annotations of the descriptor set among its own.
\<close>

definition setAll :: "(string \<times> string) list \<Rightarrow> (string \<times> string) list \<Rightarrow> (string \<times> string) list" where
  "setAll common own = fold (\<lambda>kv. AList.update (fst kv) (snd kv)) common own"

definition customize :: "Kustomization \<Rightarrow> Object \<Rightarrow> Object" where
  "customize kustomization obj =
     obj\<lparr>Object_Name := Kustomization_NamePrefix kustomization @ Object_Name obj,
         Object_Namespace := Kustomization_Namespace kustomization,
         Object_Labels := setAll (Kustomization_CommonLabels kustomization) (Object_Labels obj),
         Object_Annotations :=
           setAll (Kustomization_CommonAnnotations kustomization) (Object_Annotations obj)\<rparr>"

fun loadResources :: "kustomizeEnhancer \<Rightarrow> fsys \<Rightarrow> string list \<Rightarrow> error + Object list" where
  "loadResources k ldr [] = Inr []"
| "loadResources k ldr (name # rest) =
     (case ldr (basePath @ ''/'' @ name) of
        Some (YamlText body) \<Rightarrow>
          (case documents k body of
             None \<Rightarrow> Inl (OtherError ''resource does not parse'')
           | Some objs \<Rightarrow>
               (case loadResources k ldr rest of
                  Inl err \<Rightarrow> Inl err
                | Inr others \<Rightarrow> Inr (objs @ others)))
      | _ \<Rightarrow> Inl (OtherError ''resource not found''))"

definition MakeCustomizedResMap ::
  "kustomizeEnhancer \<Rightarrow> fsys \<times> Kustomization \<Rightarrow> error + Object list" where
  "MakeCustomizedResMap k kt =
     (case loadResources k (fst kt) (Kustomization_Resources (snd kt)) of
        Inl err \<Rightarrow> Inl err
      | Inr objs \<Rightarrow> Inr (map (customize (snd kt)) objs))"

text \<open>
  Modelled from the spec: \<^verbatim>\<open>allResources.EncodeAsYaml\<close> and
  \<^verbatim>\<open>template.ParseKubernetesObjects\<close>, which ``parse the merged YAML into a list of
  cluster objects''.
\<close>

definition EncodeAsYaml :: "kustomizeEnhancer \<Rightarrow> Object list \<Rightarrow> error + yaml" where
  "EncodeAsYaml k allResources =
     (case fails_EncodeAsYaml k of
        Some err \<Rightarrow> Inl err
      | None \<Rightarrow> Inr (YamlResources allResources))"

definition ParseKubernetesObjects :: "kustomizeEnhancer \<Rightarrow> yaml \<Rightarrow> error + Object list" where
  "ParseKubernetesObjects k res =
     (case res of
        YamlResources objs \<Rightarrow> Inr objs
      | YamlText body \<Rightarrow>
          (case documents k body of
             None \<Rightarrow> Inl (OtherError ''YAML does not parse'')
           | Some objs \<Rightarrow> Inr objs)
      | YamlKustomization kustomization \<Rightarrow> Inl (OtherError ''not a cluster object''))"

text \<open>
  Modelled from the spec: \<^verbatim>\<open>controllerutil.SetControllerReference\<close>. The ``owner
  reference is set to the supplied owner with the controller bit''.
\<close>

definition SetControllerReference ::
  "kustomizeEnhancer \<Rightarrow> OwnerReference \<Rightarrow> Object \<Rightarrow> error + Object" where
  "SetControllerReference k owner obj =
     (case fails_SetControllerReference k obj of
        Some err \<Rightarrow> Inl err
      | None \<Rightarrow>
          Inr (obj\<lparr>Object_OwnerReferences :=
                     Object_OwnerReferences obj
                       @ [owner\<lparr>OwnerReference_Controller := True\<rparr>]\<rparr>))"

text \<open>\<^verbatim>\<open>setControllerReference\<close> of the source.\<close>

definition setControllerReference ::
  "kustomizeEnhancer \<Rightarrow> OwnerReference \<Rightarrow> Object \<Rightarrow> error + Object" where
  "setControllerReference k owner obj =
     (case SetControllerReference k owner obj of
        Inl err \<Rightarrow> Inl err
      | Inr obj' \<Rightarrow> Inr obj')"

text \<open>
  The loop over \<^verbatim>\<open>templates\<close>, which collects \<^verbatim>\<open>templateNames\<close> and writes each body
  under \<^verbatim>\<open>basePath\<close>. The Go map is an association list in the order of the iteration.
\<close>

fun writeTemplates ::
  "kustomizeEnhancer \<Rightarrow> (string \<times> string) list \<Rightarrow> string list \<Rightarrow> fsys
     \<Rightarrow> error + string list \<times> fsys" where
  "writeTemplates k [] templateNames fs = Inr (templateNames, fs)"
| "writeTemplates k (kv # rest) templateNames fs =
     (case WriteFile k (basePath @ ''/'' @ fst kv) (YamlText (snd kv)) fs of
        Inl err \<Rightarrow>
          Inl (Wrapped err
                 ''error when writing templates to filesystem before applying kustomize'')
      | Inr fs' \<Rightarrow> writeTemplates k rest (templateNames @ [fst kv]) fs')"

text \<open>
  The loop over \<^verbatim>\<open>objsToAdd\<close>, which sets the controller reference of each object in
  place and stops at the first error.
\<close>

fun setControllerReferences ::
  "kustomizeEnhancer \<Rightarrow> OwnerReference \<Rightarrow> Object list \<Rightarrow> error + Object list" where
  "setControllerReferences k owner [] = Inr []"
| "setControllerReferences k owner (obj # rest) =
     (case setControllerReference k owner obj of
        Inl err \<Rightarrow> Inl (Wrapped err ''setting controller reference on parsed object'')
      | Inr obj' \<Rightarrow>
          (case setControllerReferences k owner rest of
             Inl err \<Rightarrow> Inl err
           | Inr rest' \<Rightarrow> Inr (obj' # rest')))"

text \<open>
  The part of \<^verbatim>\<open>applyConventionsToTemplates\<close> after the loader exists, and the deferred
  function that runs when it returns: a failing \<^verbatim>\<open>Cleanup\<close> replaces the named result
  \<^verbatim>\<open>err\<close> and leaves the named result \<^verbatim>\<open>objsToAdd\<close> as the return statement set it.
\<close>

definition customizeAndParse ::
  "kustomizeEnhancer \<Rightarrow> fsys \<Rightarrow> OwnerReference \<Rightarrow> Object list \<times> error option" where
  "customizeAndParse k ldr owner =
     (case NewKustTarget k ldr of
        Inl err \<Rightarrow> ([], Some (Wrapped err ''error creating kustomize target''))
      | Inr kt \<Rightarrow>
          (case MakeCustomizedResMap k kt of
             Inl err \<Rightarrow>
               ([], Some (Wrapped err
                            ''error creating customized resource map for kustomize''))
           | Inr allResources \<Rightarrow>
               (case EncodeAsYaml k allResources of
                  Inl err \<Rightarrow>
                    ([], Some (Wrapped err ''error encoding kustomized files into yaml''))
                | Inr res \<Rightarrow>
                    (case ParseKubernetesObjects k res of
                       Inl err \<Rightarrow>
                         ([], Some (Wrapped err
                            ''error parsing kubernetes objects after applying kustomize''))
                     | Inr objsToAdd \<Rightarrow>
                         (case setControllerReferences k owner objsToAdd of
                            Inl err \<Rightarrow> ([], Some err)
                          | Inr objsToAdd' \<Rightarrow> (objsToAdd', None))))))"

definition deferredCleanup ::
  "kustomizeEnhancer \<Rightarrow> fsys \<Rightarrow> Object list \<times> error option \<Rightarrow> Object list \<times> error option" where
  "deferredCleanup k ldr ret =
     (case Cleanup k ldr of
        Some ferr \<Rightarrow> (fst ret, Some ferr)
      | None \<Rightarrow> ret)"

text \<open>\<^verbatim>\<open>applyConventionsToTemplates\<close>. A \<^verbatim>\<open>nil\<close> slice is the empty list.\<close>

definition applyConventionsToTemplates :: "kustomizeEnhancer \<Rightarrow> kubernetesObjectEnhancer" where
  "applyConventionsToTemplates k templates md owner =
     (case writeTemplates k templates [] Map.empty of
        Inl err \<Rightarrow> ([], Some err)
      | Inr (templateNames, fs) \<Rightarrow>
          (let kustomization =
                 \<lparr>Kustomization_NamePrefix = metadata_InstanceName md @ ''-'',
                  Kustomization_Namespace = metadata_Namespace md,
                  Kustomization_CommonLabels =
                    [(HeritageLabel, ''kudo''),
                     (OperatorLabel, metadata_OperatorName md),
                     (InstanceLabel, metadata_InstanceName md)],
                  Kustomization_CommonAnnotations =
                    [(PlanAnnotation, metadata_PlanName md),
                     (PhaseAnnotation, metadata_PhaseName md),
                     (StepAnnotation, metadata_StepName md),
                     (OperatorVersionAnnotation, metadata_OperatorVersion md)],
                  Kustomization_DisableNameSuffixHash = True,
                  Kustomization_Resources = templateNames\<rparr> in
           case yamlMarshal k kustomization of
             Inl err \<Rightarrow> ([], Some (Wrapped err ''error marshalling kustomize yaml''))
           | Inr yamlBytes \<Rightarrow>
               (case WriteFile k (basePath @ ''/kustomization.yaml'') yamlBytes fs of
                  Inl err \<Rightarrow> ([], Some (Wrapped err ''error writing kustomization.yaml file''))
                | Inr fs' \<Rightarrow>
                    (case NewLoader k fs' of
                       Inl err \<Rightarrow> ([], Some err)
                     | Inr ldr \<Rightarrow> deferredCleanup k ldr (customizeAndParse k ldr owner)))))"


section \<open>Example inputs\<close>

text \<open>
  Concrete plans, statuses and clusters on which the theorems below are instantiated. The
  plan \<open>deploy\<close> has one serial phase \<open>main\<close> with one step \<open>srv\<close>, whose task
  \<open>deploy-task\<close> renders the template \<open>deployment.yaml\<close>.
\<close>

definition exampleObject :: Object where
  "exampleObject =
     \<lparr>Object_Kind = ''Deployment'', Object_Name = ''inst-srv'',
      Object_Namespace = ''default'', Object_Labels = [], Object_Annotations = [],
      Object_OwnerReferences = [], Object_Body = ''replicas: 1''\<rparr>"

text \<open>
  A cluster that holds nothing yet: every get answers not-found, creates and deletes
  succeed, and the health oracle answers \<open>healthy\<close>. The cluster state counts the writes.
\<close>

definition emptyCluster :: "bool \<Rightarrow> nat Client" where
  "emptyCluster healthy =
     \<lparr>Client_Get = (\<lambda>key obj c. Inl (StatusError StatusReasonNotFound)),
      Client_Create = (\<lambda>obj c. (Inr obj, Suc c)),
      Client_Patch = (\<lambda>obj t body c. (Inr obj, Suc c)),
      Client_Delete = (\<lambda>obj c. (None, Suc c)),
      Client_IsHealthy = (\<lambda>obj c. healthy),
      Client_Marshal = Object_Body\<rparr>"

text \<open>
  A cluster that holds every object asked for as a custom resource: a strategic merge
  patch is answered with 415, a merge patch succeeds.
\<close>

definition crdCluster :: "nat Client" where
  "crdCluster =
     \<lparr>Client_Get = (\<lambda>key obj c. Inr obj),
      Client_Create = (\<lambda>obj c. (Inr obj, Suc c)),
      Client_Patch = (\<lambda>obj t body c.
         if t = StrategicMergePatchType
         then (Inl (StatusError StatusReasonUnsupportedMediaType), c)
         else (Inr obj, Suc c)),
      Client_Delete = (\<lambda>obj c. (None, Suc c)),
      Client_IsHealthy = (\<lambda>obj c. True),
      Client_Marshal = Object_Body\<rparr>"

definition exampleStep :: Step where
  "exampleStep = \<lparr>Step_Name = ''srv'', Step_Delete = False, Step_Tasks = [''deploy-task'']\<rparr>"

definition exampleStepStatus :: StepStatus where
  "exampleStepStatus =
     \<lparr>StepStatus_Name = ''srv'', StepStatus_Status = ExecutionPending\<rparr>"

definition examplePhase :: Phase where
  "examplePhase =
     \<lparr>Phase_Name = ''main'', Phase_Strategy = Serial, Phase_Steps = [exampleStep]\<rparr>"

definition examplePlanStatus :: PlanStatus where
  "examplePlanStatus =
     \<lparr>PlanStatus_Name = ''deploy'', PlanStatus_Status = ExecutionPending,
      PlanStatus_Phases =
        [\<lparr>PhaseStatus_Name = ''main'', PhaseStatus_Status = ExecutionPending,
          PhaseStatus_Steps = [exampleStepStatus]\<rparr>]\<rparr>"

definition examplePlan :: activePlan where
  "examplePlan =
     \<lparr>activePlan_Name = ''deploy'', activePlan_PlanStatus = 0,
      activePlan_Spec = \<lparr>Plan_Strategy = Serial, Plan_Phases = [examplePhase]\<rparr>,
      activePlan_Tasks =
        Map.empty(''deploy-task'' \<mapsto> \<lparr>TaskSpec_Resources = [''deployment.yaml'']\<rparr>),
      activePlan_Templates = Map.empty(''deployment.yaml'' \<mapsto> ''replicas: 1''),
      activePlan_params = []\<rparr>"

text \<open>The store of the caller: the plan status of \<open>examplePlan\<close> lives at address 0.\<close>

definition exampleStore :: store where
  "exampleStore = Map.empty(0 \<mapsto> examplePlanStatus)"

definition exampleMeta :: executionMetadata where
  "exampleMeta =
     \<lparr>instanceName = ''inst'', instanceNamespace = ''default'', operatorName = ''op'',
      operatorVersionName = ''op-1.0'', operatorVersion = ''1.0'',
      resourcesOwner =
        \<lparr>OwnerReference_Kind = ''Instance'', OwnerReference_Name = ''inst'',
         OwnerReference_Controller = True\<rparr>\<rparr>"

text \<open>A template engine that returns the template as it is, and a fake enhancer.\<close>

definition exampleRender :: renderFn where
  "exampleRender = (\<lambda>template configs. Inr template)"

definition exampleEnhancer :: kubernetesObjectEnhancer where
  "exampleEnhancer =
     (\<lambda>templates md owner.
        (map (\<lambda>kv. exampleObject\<lparr>Object_Body := snd kv\<rparr>) templates, None))"

text \<open>
  A cluster whose answers never change: it holds nothing, accepts every write without
  keeping it, and reports every object as \<open>healthy\<close>.
\<close>

definition steadyCluster :: "bool \<Rightarrow> nat Client" where
  "steadyCluster healthy =
     \<lparr>Client_Get = (\<lambda>key obj c. Inl (StatusError StatusReasonNotFound)),
      Client_Create = (\<lambda>obj c. (Inr obj, c)),
      Client_Patch = (\<lambda>obj t body c. (Inr obj, c)),
      Client_Delete = (\<lambda>obj c. (None, c)),
      Client_IsHealthy = (\<lambda>obj c. healthy),
      Client_Marshal = Object_Body\<rparr>"

text \<open>
  A phase with two steps \<open>first\<close> and \<open>second\<close>, its status, and the resources prepared
  for it: one object per step.
\<close>

definition twoStepPhase :: "Ordering \<Rightarrow> Phase" where
  "twoStepPhase strategy =
     \<lparr>Phase_Name = ''main'', Phase_Strategy = strategy,
      Phase_Steps =
        [\<lparr>Step_Name = ''first'', Step_Delete = False, Step_Tasks = [''deploy-task'']\<rparr>,
         \<lparr>Step_Name = ''second'', Step_Delete = False, Step_Tasks = [''deploy-task'']\<rparr>]\<rparr>"

definition twoStepStatus :: PhaseStatus where
  "twoStepStatus =
     \<lparr>PhaseStatus_Name = ''main'', PhaseStatus_Status = ExecutionInProgress,
      PhaseStatus_Steps =
        [\<lparr>StepStatus_Name = ''first'', StepStatus_Status = ExecutionPending\<rparr>,
         \<lparr>StepStatus_Name = ''second'', StepStatus_Status = ExecutionPending\<rparr>]\<rparr>"

definition twoStepResources :: planResources where
  "twoStepResources =
     Map.empty(''main'' \<mapsto>
       Map.empty(''first'' \<mapsto> [exampleObject], ''second'' \<mapsto> [exampleObject]))"

text \<open>
  The plan \<open>deploy\<close> with a parallel phase whose two steps carry the same name \<open>srv\<close>:
  the first applies the resources of the task, the second deletes them.
\<close>

definition sameNamePlan :: activePlan where
  "sameNamePlan =
     examplePlan\<lparr>activePlan_Spec :=
       \<lparr>Plan_Strategy = Serial,
        Plan_Phases =
          [\<lparr>Phase_Name = ''main'', Phase_Strategy = Parallel,
            Phase_Steps =
              [\<lparr>Step_Name = ''srv'', Step_Delete = False, Step_Tasks = [''deploy-task'']\<rparr>,
               \<lparr>Step_Name = ''srv'', Step_Delete = True, Step_Tasks = [''deploy-task'']\<rparr>]\<rparr>]\<rparr>\<rparr>"

text \<open>The status of \<open>sameNamePlan\<close> after a first and after a second tick.\<close>

definition sameNameAfterFirst :: PlanStatus where
  "sameNameAfterFirst =
     \<lparr>PlanStatus_Name = ''deploy'', PlanStatus_Status = ExecutionInProgress,
      PlanStatus_Phases =
        [\<lparr>PhaseStatus_Name = ''main'', PhaseStatus_Status = ExecutionInProgress,
          PhaseStatus_Steps =
            [\<lparr>StepStatus_Name = ''srv'', StepStatus_Status = ExecutionComplete\<rparr>]\<rparr>]\<rparr>"

definition sameNameAfterSecond :: PlanStatus where
  "sameNameAfterSecond =
     \<lparr>PlanStatus_Name = ''deploy'', PlanStatus_Status = ExecutionComplete,
      PlanStatus_Phases =
        [\<lparr>PhaseStatus_Name = ''main'', PhaseStatus_Status = ExecutionComplete,
          PhaseStatus_Steps =
            [\<lparr>StepStatus_Name = ''srv'', StepStatus_Status = ExecutionComplete\<rparr>]\<rparr>]\<rparr>"

text \<open>The status of \<open>examplePlan\<close> after a tick on a cluster that reports unhealthy.\<close>

definition exampleInProgress :: PlanStatus where
  "exampleInProgress =
     \<lparr>PlanStatus_Name = ''deploy'', PlanStatus_Status = ExecutionInProgress,
      PlanStatus_Phases =
        [\<lparr>PhaseStatus_Name = ''main'', PhaseStatus_Status = ExecutionInProgress,
          PhaseStatus_Steps =
            [\<lparr>StepStatus_Name = ''srv'', StepStatus_Status = ExecutionInProgress\<rparr>]\<rparr>]\<rparr>"

text \<open>
  The plan \<open>deploy\<close> with an empty task catalog, and with an empty template catalog; a
  cluster whose every get fails with an internal server error.
\<close>

definition missingTaskPlan :: activePlan where
  "missingTaskPlan = examplePlan\<lparr>activePlan_Tasks := Map.empty\<rparr>"

definition missingTemplatePlan :: activePlan where
  "missingTemplatePlan = examplePlan\<lparr>activePlan_Templates := Map.empty\<rparr>"

definition failingCluster :: "nat Client" where
  "failingCluster =
     \<lparr>Client_Get = (\<lambda>key obj c. Inl (StatusError (StatusReasonOther ''InternalError''))),
      Client_Create = (\<lambda>obj c. (Inr obj, Suc c)),
      Client_Patch = (\<lambda>obj t body c. (Inr obj, Suc c)),
      Client_Delete = (\<lambda>obj c. (None, Suc c)),
      Client_IsHealthy = (\<lambda>obj c. True),
      Client_Marshal = Object_Body\<rparr>"

text \<open>
  The status of the plan \<open>deploy\<close> after a tick on the failing cluster.
\<close>

definition failedStatus :: PlanStatus where
  "failedStatus =
     \<lparr>PlanStatus_Name = ''deploy'', PlanStatus_Status = ExecutionInProgress,
      PlanStatus_Phases =
        [\<lparr>PhaseStatus_Name = ''main'', PhaseStatus_Status = ErrorStatus,
          PhaseStatus_Steps =
            [\<lparr>StepStatus_Name = ''srv'', StepStatus_Status = ErrorStatus\<rparr>]\<rparr>]\<rparr>"

text \<open>
  An enhancer none of whose collaborators fails, over a YAML reader that knows one
  document; the metadata of the step \<open>srv\<close>, an owner, the object as authored and as the
  conventions leave it.
\<close>

definition exampleMetadata :: metadata where
  "exampleMetadata =
     \<lparr>metadata_InstanceName = ''inst'', metadata_Namespace = ''default'',
      metadata_OperatorName = ''op'', metadata_OperatorVersion = ''1.0'',
      metadata_PlanName = ''deploy'', metadata_PhaseName = ''main'',
      metadata_StepName = ''srv''\<rparr>"

definition exampleOwner :: OwnerReference where
  "exampleOwner =
     \<lparr>OwnerReference_Kind = ''Instance'', OwnerReference_Name = ''inst'',
      OwnerReference_Controller = False\<rparr>"

definition authoredObject :: Object where
  "authoredObject =
     \<lparr>Object_Kind = ''Deployment'', Object_Name = ''srv'', Object_Namespace = [],
      Object_Labels = [(''app'', ''srv'')], Object_Annotations = [],
      Object_OwnerReferences = [], Object_Body = ''replicas: 1''\<rparr>"

definition conventionalObject :: Object where
  "conventionalObject =
     \<lparr>Object_Kind = ''Deployment'', Object_Name = ''inst-srv'',
      Object_Namespace = ''default'',
      Object_Labels =
        [(''app'', ''srv''), (''heritage'', ''kudo''), (''operator'', ''op''),
         (''instance'', ''inst'')],
      Object_Annotations =
        [(''plan'', ''deploy''), (''phase'', ''main''), (''step'', ''srv''),
         (''operatorVersion'', ''1.0'')],
      Object_OwnerReferences =
        [\<lparr>OwnerReference_Kind = ''Instance'', OwnerReference_Name = ''inst'',
          OwnerReference_Controller = True\<rparr>],
      Object_Body = ''replicas: 1''\<rparr>"

definition plainEnhancer :: kustomizeEnhancer where
  "plainEnhancer =
     \<lparr>fails_WriteFile = (\<lambda>path. None), fails_Marshal = None, fails_NewLoader = None,
      fails_Cleanup = None, fails_NewKustTarget = None, fails_EncodeAsYaml = None,
      fails_SetControllerReference = (\<lambda>obj. None),
      documents = (\<lambda>body. if body = ''kind: Deployment'' then Some [authoredObject] else None)\<rparr>"

text \<open>
  The plan \<open>deploy\<close> with an empty template catalog whose step lists a task that is not in
  the task catalog before the task \<open>deploy-task\<close>.
\<close>

definition mixedPlan :: activePlan where
  "mixedPlan =
     missingTemplatePlan\<lparr>activePlan_Spec :=
       \<lparr>Plan_Strategy = Serial,
        Plan_Phases =
          [\<lparr>Phase_Name = ''main'', Phase_Strategy = Serial,
            Phase_Steps =
              [\<lparr>Step_Name = ''srv'', Step_Delete = False,
                Step_Tasks = [''absent-task'', ''deploy-task'']\<rparr>]\<rparr>]\<rparr>\<rparr>"

text \<open>
  A cluster that keeps what is created in it: the state counts the objects created, a get
  answers not-found while there is none and afterwards returns the object with the mark of
  readiness the cluster keeps on its copy, and the health oracle reads that mark off the
  object it is given. The status of the plan \<open>deploy\<close> when all of it is complete.
\<close>

definition keepingCluster :: "nat Client" where
  "keepingCluster =
     \<lparr>Client_Get =
        (\<lambda>key obj c.
           if c = 0 then Inl (StatusError StatusReasonNotFound)
           else Inr (obj\<lparr>Object_Annotations := [(''ready'', ''true'')]\<rparr>)),
      Client_Create = (\<lambda>obj c. (Inr obj, Suc c)),
      Client_Patch = (\<lambda>obj t body c. (Inr obj, c)),
      Client_Delete = (\<lambda>obj c. (None, 0)),
      Client_IsHealthy = (\<lambda>obj c. map_of (Object_Annotations obj) ''ready'' = Some ''true''),
      Client_Marshal = Object_Body\<rparr>"

definition exampleComplete :: PlanStatus where
  "exampleComplete =
     \<lparr>PlanStatus_Name = ''deploy'', PlanStatus_Status = ExecutionComplete,
      PlanStatus_Phases =
        [\<lparr>PhaseStatus_Name = ''main'', PhaseStatus_Status = ExecutionComplete,
          PhaseStatus_Steps =
            [\<lparr>StepStatus_Name = ''srv'', StepStatus_Status = ExecutionComplete\<rparr>]\<rparr>]\<rparr>"

section \<open>Notions used in the statements\<close>


text \<open>
  The names in a phase status and in a plan status, in order: what the lookups by name
  depend on.
\<close>

definition phaseShape :: "PhaseStatus \<Rightarrow> string \<times> string list" where
  "phaseShape p = (PhaseStatus_Name p, map StepStatus_Name (PhaseStatus_Steps p))"

definition shape :: "PlanStatus \<Rightarrow> (string \<times> string list) list" where
  "shape s = map phaseShape (PlanStatus_Phases s)"

text \<open>
  The steps for which \<^verbatim>\<open>executeStep\<close> was called, read off the trace.
\<close>

fun executedSteps :: "event list \<Rightarrow> string list" where
  "executedSteps [] = []"
| "executedSteps (EvExecuteStep n # evs) = n # executedSteps evs"
| "executedSteps (e # evs) = executedSteps evs"

text \<open>
  The phase status that the step loop leaves behind.
\<close>

fun phaseOf :: "stepsResult \<Rightarrow> PhaseStatus \<Rightarrow> PhaseStatus" where
  "phaseOf StepsPanic p = p"
| "phaseOf (StepsError p' e) p = p'"
| "phaseOf (StepsDone a p') p = p'"

text \<open>
  The step has a status entry in the phase and that entry is finished.
\<close>

definition stepFinishedIn :: "PhaseStatus \<Rightarrow> Step \<Rightarrow> bool" where
  "stepFinishedIn p st =
     (case getStepFromStatus (Step_Name st) p of
        None \<Rightarrow> False
      | Some j \<Rightarrow> isFinished (StepStatus_Status (PhaseStatus_Steps p ! j)))"

text \<open>
  The prefix of a list up to and including its first element that satisfies \<open>P\<close>.
\<close>

fun throughFirst :: "('a \<Rightarrow> bool) \<Rightarrow> 'a list \<Rightarrow> 'a list" where
  "throughFirst P [] = []"
| "throughFirst P (x # xs) = (if P x then [x] else x # throughFirst P xs)"


text \<open>
  The plan status that the phase loop leaves behind.
\<close>

fun stateOf :: "phasesResult \<Rightarrow> PlanStatus \<Rightarrow> PlanStatus" where
  "stateOf PhasesPanic s = s"
| "stateOf (PhasesError s' e) s = s'"
| "stateOf (PhasesDone a s') s = s'"

text \<open>
  Every phase of the list and every step of it is found by name in the plan status.
\<close>

definition lookupsSucceed :: "Phase list \<Rightarrow> PlanStatus \<Rightarrow> bool" where
  "lookupsSucceed phs s =
     (\<forall>ph\<in>set phs. \<exists>i. getPhaseFromStatus (Phase_Name ph) s = Some i \<and>
        (\<forall>st\<in>set (Phase_Steps ph). \<exists>j. getStepFromStatus (Step_Name st) (phaseAt s i) = Some j))"

text \<open>
  The plan status has exactly one entry for each phase name of the plan and, in that
  entry, exactly one entry for each step name of the phase.
\<close>

definition statusCoversPlan :: "Plan \<Rightarrow> PlanStatus \<Rightarrow> bool" where
  "statusCoversPlan spec s =
     (\<forall>ph\<in>set (Plan_Phases spec).
        length (filter (\<lambda>p. PhaseStatus_Name p = Phase_Name ph) (PlanStatus_Phases s)) = 1 \<and>
        (\<forall>p\<in>set (PlanStatus_Phases s).
           PhaseStatus_Name p = Phase_Name ph \<longrightarrow>
           (\<forall>st\<in>set (Phase_Steps ph).
              length (filter (\<lambda>q. StepStatus_Name q = Step_Name st) (PhaseStatus_Steps p)) = 1)))"

text \<open>
  Sequencing of two stages of the preparer: a panic or an error of the first stage is
  the result.
\<close>

fun andThen :: "'a prepared \<Rightarrow> ('a \<Rightarrow> 'b prepared) \<Rightarrow> 'b prepared" where
  "andThen NilDereference f = NilDereference"
| "andThen (PrepareError s e) f = PrepareError s e"
| "andThen (Prepared v) f = f v"

text \<open>
  The conventions on an emitted object: the three labels, the four annotations, the name
  prefix, the namespace, and the owner with the controller bit among the owner references.
\<close>

definition carriesConventions :: "metadata \<Rightarrow> OwnerReference \<Rightarrow> Object \<Rightarrow> bool" where
  "carriesConventions md owner obj =
     (map_of (Object_Labels obj) ''heritage'' = Some ''kudo''
      \<and> map_of (Object_Labels obj) ''operator'' = Some (metadata_OperatorName md)
      \<and> map_of (Object_Labels obj) ''instance'' = Some (metadata_InstanceName md)
      \<and> map_of (Object_Annotations obj) ''plan'' = Some (metadata_PlanName md)
      \<and> map_of (Object_Annotations obj) ''phase'' = Some (metadata_PhaseName md)
      \<and> map_of (Object_Annotations obj) ''step'' = Some (metadata_StepName md)
      \<and> map_of (Object_Annotations obj) ''operatorVersion''
            = Some (metadata_OperatorVersion md)
      \<and> take (length (metadata_InstanceName md @ ''-'')) (Object_Name obj)
            = metadata_InstanceName md @ ''-''
      \<and> Object_Namespace obj = metadata_Namespace md
      \<and> owner\<lparr>OwnerReference_Controller := True\<rparr> \<in> set (Object_OwnerReferences obj))"

text \<open>The descriptor that the enhancer writes for the metadata and the template names.\<close>

definition conventions :: "metadata \<Rightarrow> string list \<Rightarrow> Kustomization" where
  "conventions md templateNames =
     \<lparr>Kustomization_NamePrefix = metadata_InstanceName md @ ''-'',
      Kustomization_Namespace = metadata_Namespace md,
      Kustomization_CommonLabels =
        [(HeritageLabel, ''kudo''),
         (OperatorLabel, metadata_OperatorName md),
         (InstanceLabel, metadata_InstanceName md)],
      Kustomization_CommonAnnotations =
        [(PlanAnnotation, metadata_PlanName md),
         (PhaseAnnotation, metadata_PhaseName md),
         (StepAnnotation, metadata_StepName md),
         (OperatorVersionAnnotation, metadata_OperatorVersion md)],
      Kustomization_DisableNameSuffixHash = True,
      Kustomization_Resources = templateNames\<rparr>"

text \<open>
  A tick introduces no fatal status: a status that is \<^verbatim>\<open>ExecutionFatalError\<close> afterwards
  was so before, for the plan, for each of its phases and for each of their steps.
\<close>

definition notNewlyFatal :: "ExecutionStatus \<Rightarrow> ExecutionStatus \<Rightarrow> bool" where
  "notNewlyFatal old new = (new = ExecutionFatalError \<longrightarrow> old = ExecutionFatalError)"

definition phaseNoNewFatal :: "PhaseStatus \<Rightarrow> PhaseStatus \<Rightarrow> bool" where
  "phaseNoNewFatal p p' =
     (notNewlyFatal (PhaseStatus_Status p) (PhaseStatus_Status p') \<and>
      list_all2 (\<lambda>e e'. notNewlyFatal (StepStatus_Status e) (StepStatus_Status e'))
        (PhaseStatus_Steps p) (PhaseStatus_Steps p'))"

definition noNewFatal :: "PlanStatus \<Rightarrow> PlanStatus \<Rightarrow> bool" where
  "noNewFatal s s' =
     (notNewlyFatal (PlanStatus_Status s) (PlanStatus_Status s') \<and>
      list_all2 phaseNoNewFatal (PlanStatus_Phases s) (PlanStatus_Phases s'))"

subsection \<open>The answers of the cluster to a step\<close>

text \<open>
  What the cluster answered for one resource of a step: a request failed with an error,
  the object was deleted, or it was applied (created or patched) and the health oracle
  then answered \<open>healthy\<close> or not.
\<close>

datatype outcome = Failed error | Deleted | Applied bool

text \<open>
  One resource of a delete step, from the answers of the client in the cluster state \<open>c\<close>:
  the delete request succeeds, or fails with not-found (the object is gone already), or
  fails with another error. No health check is made.
\<close>

definition deleteOne :: "'c Client \<Rightarrow> Object \<Rightarrow> 'c \<Rightarrow> outcome \<times> 'c" where
  "deleteOne cl r c =
     (case Client_Delete cl r c of
        (None, c1) \<Rightarrow> (Deleted, c1)
      | (Some e, c1) \<Rightarrow> (if IsNotFound (Some e) then Deleted else Failed e, c1))"

text \<open>
  One resource of an apply step that the cluster holds already, as \<open>fetched\<close>: the strategic
  merge patch succeeds and the health oracle is asked about the object as patched; or it
  fails with \<^verbatim>\<open>UnsupportedMediaType\<close>, the merge patch succeeds and the health oracle is
  asked about the object as fetched; or a patch fails.
\<close>

definition patchOne :: "'c Client \<Rightarrow> Object \<Rightarrow> Object \<Rightarrow> 'c \<Rightarrow> outcome \<times> 'c" where
  "patchOne cl r fetched c =
     (case Client_Patch cl fetched StrategicMergePatchType (Client_Marshal cl r) c of
        (Inr patched, c1) \<Rightarrow> (Applied (Client_IsHealthy cl patched c1), c1)
      | (Inl e, c1) \<Rightarrow>
          if IsUnsupportedMediaType e then
            (case Client_Patch cl r MergePatchType (Client_Marshal cl r) c1 of
               (Inr merged, c2) \<Rightarrow> (Applied (Client_IsHealthy cl fetched c2), c2)
             | (Inl e2, c2) \<Rightarrow> (Failed e2, c2))
          else (Failed e, c1))"

text \<open>
  One resource of an apply step: the get succeeds and the object is patched; or the get
  fails with not-found, the create succeeds and the health oracle is asked about the
  object as rendered; or a request fails.
\<close>

definition applyOne :: "'c Client \<Rightarrow> Object \<Rightarrow> 'c \<Rightarrow> outcome \<times> 'c" where
  "applyOne cl r c =
     (case Client_Get cl (ObjectKeyFromObject r) r c of
        Inr fetched \<Rightarrow> patchOne cl r fetched c
      | Inl e \<Rightarrow>
          if IsNotFound (Some e) then
            (case Client_Create cl r c of
               (Inr created, c1) \<Rightarrow> (Applied (Client_IsHealthy cl r c1), c1)
             | (Inl e2, c1) \<Rightarrow> (Failed e2, c1))
          else (Failed e, c))"

text \<open>
  The answers for the resources of a step, in order, each in the cluster state that the
  requests before it left; nothing is asked after the first failure.
\<close>

fun outcomes :: "'c Client \<Rightarrow> Step \<Rightarrow> Object list \<Rightarrow> 'c \<Rightarrow> outcome list" where
  "outcomes cl step [] c = []"
| "outcomes cl step (r # rs) c =
     (case (if Step_Delete step then deleteOne cl r c else applyOne cl r c) of
        (Failed e, c1) \<Rightarrow> [Failed e]
      | (x, c1) \<Rightarrow> x # outcomes cl step rs c1)"

text \<open>
  ``Every resource was applied or deleted without error'': there is an answer for every
  resource and none is a failure. ``Every health check passed'': no answer is unhealthy.
\<close>

definition withoutError :: "outcome list \<Rightarrow> Object list \<Rightarrow> bool" where
  "withoutError os rs = (length os = length rs \<and> (\<forall>e. Failed e \<notin> set os))"

definition healthChecksPassed :: "outcome list \<Rightarrow> bool" where
  "healthChecksPassed os = (Applied False \<notin> set os)"

subsection \<open>Executing every step of a list\<close>

text \<open>
  The reference that the step loop is compared with: the steps of a list executed one
  after the other in declared order, each by \<^verbatim>\<open>executeStep\<close> on its own status entry with
  its own resources, in the cluster state and the phase status the steps before it left,
  whether or not those steps are complete. As in the source, a step without a status
  entry panics and a step whose execution returns an error ends the tick, with phase and
  step marked \<^verbatim>\<open>ErrorStatus\<close>. The flag of the result says whether every step was
  \<^verbatim>\<open>Complete\<close> after its execution.
\<close>

fun andFinished :: "bool \<Rightarrow> stepsResult \<Rightarrow> stepsResult" where
  "andFinished b (StepsDone a p) = StepsDone (b \<and> a) p"
| "andFinished b r = r"

fun executeEach ::
  "'c Client \<Rightarrow> string \<Rightarrow> planResources \<Rightarrow> Step list \<Rightarrow> PhaseStatus \<Rightarrow> 'c
     \<Rightarrow> stepsResult \<times> 'c \<times> event list" where
  "executeEach cl phaseName pr [] p c = (StepsDone True p, c, [])"
| "executeEach cl phaseName pr (st # rest) p c =
     (case getStepFromStatus (Step_Name st) p of
        None \<Rightarrow> (StepsPanic, c, [])
      | Some j \<Rightarrow>
          (case executeStep cl st (PhaseStatus_Steps p ! j)
                  (resourcesOf pr phaseName (Step_Name st)) c of
             (Some err, e, c1, evs) \<Rightarrow>
               (StepsError
                  (p\<lparr>PhaseStatus_Status := ErrorStatus,
                     PhaseStatus_Steps :=
                       (PhaseStatus_Steps p)[j := e\<lparr>StepStatus_Status := ErrorStatus\<rparr>]\<rparr>)
                  err,
                c1, EvExecuteStep (Step_Name st) # evs)
           | (None, e, c1, evs) \<Rightarrow>
               (case executeEach cl phaseName pr rest
                       (p\<lparr>PhaseStatus_Steps := (PhaseStatus_Steps p)[j := e]\<rparr>) c1 of
                  (r, c2, evs2) \<Rightarrow>
                    (andFinished (isFinished (StepStatus_Status e)) r, c2,
                     EvExecuteStep (Step_Name st) # evs @ evs2))))"

text \<open>The steps were executed to the end and each was \<^verbatim>\<open>Complete\<close> after its execution.\<close>

fun allComplete :: "stepsResult \<times> 'c \<times> event list \<Rightarrow> bool" where
  "allComplete (StepsDone a p, c, evs) = a"
| "allComplete (r, c, evs) = False"

subsection \<open>A cluster whose answers the engine's writes do not change\<close>



text \<open>
  The client with its writes answering as they do and leaving the cluster state as it is;
  used to compare a run with the run from the initial state.
\<close>

definition frozen :: "'c Client \<Rightarrow> 'c Client" where
  "frozen cl =
     cl\<lparr>Client_Create := (\<lambda>r c. (fst (Client_Create cl r c), c)),
        Client_Patch := (\<lambda>r t body c. (fst (Client_Patch cl r t body c), c)),
        Client_Delete := (\<lambda>r c. (fst (Client_Delete cl r c), c))\<rparr>"

section \<open>Evaluation of the examples\<close>

lemmas example_defs =
  examplePlan_def examplePhase_def exampleStep_def examplePlanStatus_def
  exampleStepStatus_def exampleStore_def exampleMeta_def exampleRender_def
  exampleEnhancer_def exampleObject_def emptyCluster_def steadyCluster_def
  sameNamePlan_def sameNameAfterFirst_def sameNameAfterSecond_def exampleInProgress_def
  twoStepPhase_def twoStepStatus_def twoStepResources_def
  missingTaskPlan_def missingTemplatePlan_def failingCluster_def mixedPlan_def
  keepingCluster_def exampleComplete_def

lemmas engine_defs =
  executePlan_def prepareKubeResources_def getPhaseFromStatus_def getStepFromStatus_def
  phaseAt_def stepAt_def setPhase_def setPhaseStatus_def setStep_def setStepStatus_def markFailed_def failStep_def
  setTopStatus_def stepConfigs_def stepMetadata_def IsTerminal_def isFinished_def isInProgress_def resourcesOf_def
  executeStep_def createOrUpdate_def patchExistingObject_def ObjectKeyFromObject_def Let_def

section \<open>Errors of the preparer\<close>

lemma failStep_error:
  "failStep s i j x (ExecutionError e f) = PrepareError s' err \<Longrightarrow> err = ExecutionError e f"
  by (auto simp: failStep_def split: option.splits)

lemma renderResources_error:
  "renderResources render plan meta configs s i j rs acc = PrepareError s' err \<Longrightarrow>
     \<exists>e f. err = ExecutionError e f"
  by (induction rs arbitrary: acc)
     (auto split: option.splits sum.splits dest: failStep_error)

lemma prepareTasks_error:
  "prepareTasks render renderer plan meta ph st configs s i j ts acc = PrepareError s' err \<Longrightarrow>
     \<exists>e f. err = ExecutionError e f"
  by (induction ts arbitrary: acc)
     (auto split: option.splits prepared.splits prod.splits
           dest: failStep_error renderResources_error)

lemma prepareSteps_error:
  "prepareSteps render renderer plan meta ph s i j sts acc = PrepareError s' err \<Longrightarrow>
     \<exists>e f. err = ExecutionError e f"
  by (induction sts arbitrary: acc j)
     (auto simp: Let_def split: option.splits prepared.splits dest: prepareTasks_error)

lemma preparePhases_error:
  "preparePhases render renderer plan meta s phs acc = PrepareError s' err \<Longrightarrow>
     \<exists>e f. err = ExecutionError e f"
  by (induction phs arbitrary: acc)
     (auto simp: Let_def split: prepared.splits dest: prepareSteps_error)

lemma prepareKubeResources_error:
  "prepareKubeResources render renderer plan meta s = PrepareError s' err \<Longrightarrow>
     AsExecutionError err"
  by (auto simp: prepareKubeResources_def dest: preparePhases_error)

section \<open>The step loop and the phase loop\<close>

lemma indexOfStep_Some:
  "indexOfStep n xs = Some j \<Longrightarrow> j < length xs \<and> StepStatus_Name (xs ! j) = n"
  by (induction xs arbitrary: j) (auto split: if_splits)

lemma indexOfPhase_Some:
  "indexOfPhase n xs = Some j \<Longrightarrow> j < length xs \<and> PhaseStatus_Name (xs ! j) = n"
  by (induction xs arbitrary: j) (auto split: if_splits)

lemma indexOfStep_names:
  "map StepStatus_Name xs = map StepStatus_Name ys \<Longrightarrow> indexOfStep n xs = indexOfStep n ys"
proof (induction xs arbitrary: ys)
  case Nil then show ?case by simp
next
  case (Cons x xs)
  then obtain y ys' where ys: "ys = y # ys'" by (cases ys) auto
  with Cons.prems have "StepStatus_Name x = StepStatus_Name y" "map StepStatus_Name xs = map StepStatus_Name ys'" by simp_all
  with Cons.IH[of ys'] ys show ?case by simp
qed

lemma indexOfPhase_names:
  "map PhaseStatus_Name xs = map PhaseStatus_Name ys \<Longrightarrow> indexOfPhase n xs = indexOfPhase n ys"
proof (induction xs arbitrary: ys)
  case Nil then show ?case by simp
next
  case (Cons x xs)
  then obtain y ys' where ys: "ys = y # ys'" by (cases ys) auto
  with Cons.prems have "PhaseStatus_Name x = PhaseStatus_Name y" "map PhaseStatus_Name xs = map PhaseStatus_Name ys'" by simp_all
  with Cons.IH[of ys'] ys show ?case by simp
qed

lemma map_update_same:
  "f y = f (xs ! j) \<Longrightarrow> map f (xs[j := y]) = map f xs"
  by (metis map_update list_update_id)

lemma getStepFromStatus_shape:
  "phaseShape p = phaseShape p' \<Longrightarrow> getStepFromStatus n p = getStepFromStatus n p'"
  unfolding getStepFromStatus_def by (rule indexOfStep_names) (simp add: phaseShape_def)

lemma getPhaseFromStatus_shape:
  "shape s = shape s' \<Longrightarrow> getPhaseFromStatus n s = getPhaseFromStatus n s'"
proof -
  assume "shape s = shape s'"
  then have "map fst (shape s) = map fst (shape s')" by simp
  then have "map PhaseStatus_Name (PlanStatus_Phases s) = map PhaseStatus_Name (PlanStatus_Phases s')"
    by (simp add: shape_def phaseShape_def comp_def)
  then show ?thesis unfolding getPhaseFromStatus_def by (rule indexOfPhase_names)
qed

lemma getPhaseFromStatus_Some:
  "getPhaseFromStatus n s = Some i \<Longrightarrow> i < length (PlanStatus_Phases s) \<and> PhaseStatus_Name (phaseAt s i) = n"
  by (simp add: getPhaseFromStatus_def phaseAt_def indexOfPhase_Some)

lemma getStepFromStatus_Some:
  "getStepFromStatus n p = Some j \<Longrightarrow> j < length (PhaseStatus_Steps p) \<and> StepStatus_Name (PhaseStatus_Steps p ! j) = n"
  by (simp add: getStepFromStatus_def indexOfStep_Some)

lemma executedSteps_append [simp]:
  "executedSteps (xs @ ys) = executedSteps xs @ executedSteps ys"
  by (induction xs rule: executedSteps.induct) auto

lemma patchExistingObject_no_step_event:
  "patchExistingObject cl n e c = (err, e', c', evs) \<Longrightarrow> executedSteps evs = []"
  by (auto simp: patchExistingObject_def Let_def split: prod.splits sum.splits if_splits)

lemma createOrUpdate_no_step_event:
  "createOrUpdate cl r c = (res, c', evs) \<Longrightarrow> executedSteps evs = []"
  by (auto simp: createOrUpdate_def Let_def split: prod.splits sum.splits if_splits option.splits
       dest: patchExistingObject_no_step_event)

lemma applyResources_no_step_event:
  "applyResources cl step rs ah c = (res, c', evs) \<Longrightarrow> executedSteps evs = []"
proof (induction rs arbitrary: ah c res c' evs)
  case Nil then show ?case by simp
next
  case (Cons r rs)
  then show ?case
    by (auto split: prod.splits sum.splits if_splits dest: createOrUpdate_no_step_event)
qed

lemma executeStep_no_step_event:
  "executeStep cl step e rs c = (err, e', c', evs) \<Longrightarrow> executedSteps evs = []"
  by (auto simp: executeStep_def Let_def split: prod.splits sum.splits if_splits
           dest: applyResources_no_step_event)

lemma executeStep_cases:
  assumes "executeStep cl step e rs c = (err, e', c', evs)"
  shows "(\<not> isInProgress (StepStatus_Status e) \<and> err = None \<and> e' = e \<and> c' = c \<and> evs = [])
       \<or> (isInProgress (StepStatus_Status e) \<and>
            (\<exists>x. applyResources cl step rs True c = (x, c', evs) \<and>
               (case x of
                  Inl er \<Rightarrow> err = Some er \<and> e' = e\<lparr>StepStatus_Status := ExecutionInProgress\<rparr>
                | Inr ah \<Rightarrow> err = None \<and>
                     e' = e\<lparr>StepStatus_Status := (if ah then ExecutionComplete else ExecutionInProgress)\<rparr>)))"
  using assms
  by (auto simp: executeStep_def Let_def split: prod.splits sum.splits if_splits)

lemma executeStep_name:
  "executeStep cl step e rs c = (err, e', c', evs) \<Longrightarrow> StepStatus_Name e' = StepStatus_Name e"
  by (auto dest!: executeStep_cases split: sum.splits)



lemma executeStep_error_status:
  "executeStep cl step e rs c = (Some err, e', c', evs) \<Longrightarrow> isInProgress (StepStatus_Status e)"
  by (auto dest!: executeStep_cases)

lemma executeStep_finished_kept:
  "isFinished (StepStatus_Status e) \<Longrightarrow> executeStep cl step e rs c = (None, e, c, [])"
  by (simp add: executeStep_def isFinished_def isInProgress_def)








text \<open>One iteration of the step loop.\<close>

lemma executeSteps_Cons_cases:
  assumes "executeSteps cl ph pr (st # rest) ah p c = (r, c', evs)"
  obtains
    (panic) "getStepFromStatus (Step_Name st) p = None" "r = StepsPanic" "c' = c" "evs = []"
  | (error) j err e' evs1 where
      "getStepFromStatus (Step_Name st) p = Some j"
      "executeStep cl st (PhaseStatus_Steps p ! j) (resourcesOf pr (Phase_Name ph) (Step_Name st)) c
         = (Some err, e', c', evs1)"
      "r = StepsError (p\<lparr>PhaseStatus_Status := ErrorStatus,
                         PhaseStatus_Steps := (PhaseStatus_Steps p)
                            [j := e'\<lparr>StepStatus_Status := ErrorStatus\<rparr>]\<rparr>) err"
      "evs = EvExecuteStep (Step_Name st) # evs1"
  | (stop) j e' evs1 where
      "getStepFromStatus (Step_Name st) p = Some j"
      "executeStep cl st (PhaseStatus_Steps p ! j) (resourcesOf pr (Phase_Name ph) (Step_Name st)) c
         = (None, e', c', evs1)"
      "\<not> isFinished (StepStatus_Status e')" "Phase_Strategy ph = Serial"
      "r = StepsDone False (p\<lparr>PhaseStatus_Steps := (PhaseStatus_Steps p)[j := e']\<rparr>)"
      "evs = EvExecuteStep (Step_Name st) # evs1"
  | (continue) j e' c1 evs1 evs2 where
      "getStepFromStatus (Step_Name st) p = Some j"
      "executeStep cl st (PhaseStatus_Steps p ! j) (resourcesOf pr (Phase_Name ph) (Step_Name st)) c
         = (None, e', c1, evs1)"
      "isFinished (StepStatus_Status e') \<or> Phase_Strategy ph \<noteq> Serial"
      "executeSteps cl ph pr rest (if isFinished (StepStatus_Status e') then ah else False)
         (p\<lparr>PhaseStatus_Steps := (PhaseStatus_Steps p)[j := e']\<rparr>) c1 = (r, c', evs2)"
      "evs = EvExecuteStep (Step_Name st) # evs1 @ evs2"
proof (cases "getStepFromStatus (Step_Name st) p")
  case None
  with assms panic show ?thesis by simp
next
  case (Some j)
  obtain err e' c1 evs1 where ex:
    "executeStep cl st (PhaseStatus_Steps p ! j) (resourcesOf pr (Phase_Name ph) (Step_Name st)) c
       = (err, e', c1, evs1)"
    by (metis prod_cases4)
  show ?thesis
  proof (cases err)
    case (Some e)
    with assms \<open>getStepFromStatus (Step_Name st) p = Some j\<close> ex error show ?thesis
      by (simp add: Let_def)
  next
    case None
    note errNone = None
    show ?thesis
    proof (cases "\<not> isFinished (StepStatus_Status e') \<and> Phase_Strategy ph = Serial")
      case True
      with assms \<open>getStepFromStatus (Step_Name st) p = Some j\<close> ex errNone stop show ?thesis
        by (simp add: Let_def)
    next
      case False
      obtain r2 c2 evs2 where rec:
        "executeSteps cl ph pr rest (if isFinished (StepStatus_Status e') then ah else False)
           (p\<lparr>PhaseStatus_Steps := (PhaseStatus_Steps p)[j := e']\<rparr>) c1 = (r2, c2, evs2)"
        by (metis prod_cases3)
      with assms \<open>getStepFromStatus (Step_Name st) p = Some j\<close> ex errNone False
      have "r = r2" "c' = c2" "evs = EvExecuteStep (Step_Name st) # evs1 @ evs2"
        by (auto simp: Let_def split: if_splits)
      with rec False ex errNone \<open>getStepFromStatus (Step_Name st) p = Some j\<close> continue
      show ?thesis by blast
    qed
  qed
qed

lemma phaseShape_update:
  "StepStatus_Name e' = StepStatus_Name (PhaseStatus_Steps p ! j) \<Longrightarrow>
     phaseShape (p\<lparr>PhaseStatus_Steps := (PhaseStatus_Steps p)[j := e']\<rparr>) = phaseShape p"
  by (simp add: phaseShape_def map_update_same)

lemma executeSteps_shape:
  "executeSteps cl ph pr steps ah p c = (r, c', evs) \<Longrightarrow> phaseShape (phaseOf r p) = phaseShape p"
proof (induction steps arbitrary: ah p c evs)
  case Nil then show ?case by auto
next
  case (Cons st rest)
  from Cons.prems show ?case
  proof (cases rule: executeSteps_Cons_cases)
    case panic then show ?thesis by simp
  next
    case (error j err e' evs1)
    from executeStep_name[OF error(2)] error(3) show ?thesis
      by (simp add: phaseShape_def map_update_same)
  next
    case (stop j e' evs1)
    from executeStep_name[OF stop(2)] stop(5) show ?thesis
      by (simp add: phaseShape_update)
  next
    case (continue j e' c1 evs1 evs2)
    let ?p1 = "p\<lparr>PhaseStatus_Steps := (PhaseStatus_Steps p)[j := e']\<rparr>"
    from Cons.IH[OF continue(4)] have "phaseShape (phaseOf r ?p1) = phaseShape ?p1" .
    moreover have "phaseShape ?p1 = phaseShape p"
      using executeStep_name[OF continue(2)] by (simp add: phaseShape_update)
    moreover have "phaseOf r ?p1 = phaseOf r p \<or> r = StepsPanic" by (cases r) auto
    ultimately show ?thesis by (cases r) auto
  qed
qed

lemma executeSteps_status:
  "executeSteps cl ph pr steps ah p c = (r, c', evs) \<Longrightarrow>
     PhaseStatus_Status (phaseOf r p) = (case r of StepsError p' e \<Rightarrow> ErrorStatus | _ \<Rightarrow> PhaseStatus_Status p)
   \<and> PhaseStatus_Name (phaseOf r p) = PhaseStatus_Name p"
proof (induction steps arbitrary: ah p c evs)
  case Nil then show ?case by auto
next
  case (Cons st rest)
  from Cons.prems show ?case
  proof (cases rule: executeSteps_Cons_cases)
    case panic then show ?thesis by simp
  next
    case (error j err e' evs1) then show ?thesis by simp
  next
    case (stop j e' evs1) then show ?thesis by simp
  next
    case (continue j e' c1 evs1 evs2)
    from Cons.IH[OF continue(4)] show ?thesis by (cases r) auto
  qed
qed

lemma executeSteps_frame:
  assumes "executeSteps cl ph pr steps ah p c = (r, c', evs)"
      and "isFinished (StepStatus_Status (PhaseStatus_Steps p ! k))
           \<or> StepStatus_Name (PhaseStatus_Steps p ! k) \<notin> Step_Name ` set steps"
  shows "PhaseStatus_Steps (phaseOf r p) ! k = PhaseStatus_Steps p ! k"
  using assms
proof (induction steps arbitrary: ah p c evs)
  case Nil then show ?case by auto
next
  case (Cons st rest)
  from Cons.prems(1) show ?case
  proof (cases rule: executeSteps_Cons_cases)
    case panic then show ?thesis by simp
  next
    case (error j err e' evs1)
    from getStepFromStatus_Some[OF error(1)] Cons.prems(2) executeStep_error_status[OF error(2)]
    have "k \<noteq> j" by (auto simp: isFinished_def isInProgress_def)
    with error(3) show ?thesis by simp
  next
    case (stop j e' evs1)
    have "(PhaseStatus_Steps p)[j := e'] ! k = PhaseStatus_Steps p ! k"
    proof (cases "k = j")
      case True
      with getStepFromStatus_Some[OF stop(1)] Cons.prems(2)
      have fin: "isFinished (StepStatus_Status (PhaseStatus_Steps p ! j))" by auto
      from stop(2) have "e' = PhaseStatus_Steps p ! j"
        by (simp add: executeStep_finished_kept[OF fin])
      with True getStepFromStatus_Some[OF stop(1)] show ?thesis by simp
    qed simp
    with stop(5) show ?thesis by simp
  next
    case (continue j e' c1 evs1 evs2)
    let ?p1 = "p\<lparr>PhaseStatus_Steps := (PhaseStatus_Steps p)[j := e']\<rparr>"
    have same: "PhaseStatus_Steps ?p1 ! k = PhaseStatus_Steps p ! k"
    proof (cases "k = j")
      case True
      with getStepFromStatus_Some[OF continue(1)] Cons.prems(2)
      have fin: "isFinished (StepStatus_Status (PhaseStatus_Steps p ! j))" by auto
      from continue(2) have "e' = PhaseStatus_Steps p ! j"
        by (simp add: executeStep_finished_kept[OF fin])
      with True getStepFromStatus_Some[OF continue(1)] show ?thesis by simp
    qed simp
    with Cons.prems(2)
    have "isFinished (StepStatus_Status (PhaseStatus_Steps ?p1 ! k))
           \<or> StepStatus_Name (PhaseStatus_Steps ?p1 ! k) \<notin> Step_Name ` set rest"
      by auto
    from Cons.IH[OF continue(4) this] same
    have "PhaseStatus_Steps (phaseOf r ?p1) ! k = PhaseStatus_Steps p ! k" by simp
    moreover have "r = StepsPanic \<or> phaseOf r ?p1 = phaseOf r p" by (cases r) auto
    ultimately show ?thesis by auto
  qed
qed


lemma executeSteps_no_panic:
  "\<forall>st\<in>set steps. getStepFromStatus (Step_Name st) p \<noteq> None \<Longrightarrow>
     executeSteps cl ph pr steps ah p c = (r, c', evs) \<Longrightarrow> r \<noteq> StepsPanic"
proof (induction steps arbitrary: ah p c evs)
  case Nil then show ?case by auto
next
  case (Cons st rest)
  from Cons.prems(2) show ?case
  proof (cases rule: executeSteps_Cons_cases)
    case panic with Cons.prems(1) show ?thesis by simp
  next
    case (error j err e' evs1) then show ?thesis by simp
  next
    case (stop j e' evs1) then show ?thesis by simp
  next
    case (continue j e' c1 evs1 evs2)
    let ?p1 = "p\<lparr>PhaseStatus_Steps := (PhaseStatus_Steps p)[j := e']\<rparr>"
    have "phaseShape ?p1 = phaseShape p"
      using executeStep_name[OF continue(2)] by (simp add: phaseShape_update)
    with Cons.prems(1) have "\<forall>st\<in>set rest. getStepFromStatus (Step_Name st) ?p1 \<noteq> None"
      using getStepFromStatus_shape by (metis list.set_intros(2))
    from Cons.IH[OF this continue(4)] show ?thesis .
  qed
qed

lemma phaseOf_not_panic: "r \<noteq> StepsPanic \<Longrightarrow> phaseOf r p = phaseOf r q"
  by (cases r) auto

lemma executeSteps_serial_trace:
  assumes "Phase_Strategy ph = Serial"
      and "executeSteps cl ph pr steps ah p c = (r, c', evs)"
      and "r \<noteq> StepsPanic"
  shows "executedSteps evs =
           map Step_Name (throughFirst (\<lambda>st. \<not> stepFinishedIn (phaseOf r p) st) steps)"
  using assms(2,3)
proof (induction steps arbitrary: ah p c evs)
  case Nil then show ?case by auto
next
  case (Cons st rest)
  from Cons.prems(1) show ?case
  proof (cases rule: executeSteps_Cons_cases)
    case panic with Cons.prems(2) show ?thesis by simp
  next
    case (error j err e' evs1)
    have sh: "phaseShape (phaseOf r p) = phaseShape p"
      using executeSteps_shape[OF Cons.prems(1)] .
    have "getStepFromStatus (Step_Name st) (phaseOf r p) = Some j"
      using getStepFromStatus_shape[OF sh] error(1) by simp
    moreover have "\<not> isFinished (StepStatus_Status (PhaseStatus_Steps (phaseOf r p) ! j))"
      using error(3) getStepFromStatus_Some[OF error(1)] by (simp add: isFinished_def)
    ultimately have "\<not> stepFinishedIn (phaseOf r p) st" by (simp add: stepFinishedIn_def)
    with error(4) executeStep_no_step_event[OF error(2)] show ?thesis by simp
  next
    case (stop j e' evs1)
    have sh: "phaseShape (phaseOf r p) = phaseShape p"
      using executeSteps_shape[OF Cons.prems(1)] .
    have "getStepFromStatus (Step_Name st) (phaseOf r p) = Some j"
      using getStepFromStatus_shape[OF sh] stop(1) by simp
    moreover have "\<not> isFinished (StepStatus_Status (PhaseStatus_Steps (phaseOf r p) ! j))"
      using stop(3,5) getStepFromStatus_Some[OF stop(1)] by simp
    ultimately have "\<not> stepFinishedIn (phaseOf r p) st" by (simp add: stepFinishedIn_def)
    with stop(6) executeStep_no_step_event[OF stop(2)] show ?thesis by simp
  next
    case (continue j e' c1 evs1 evs2)
    let ?p1 = "p\<lparr>PhaseStatus_Steps := (PhaseStatus_Steps p)[j := e']\<rparr>"
    from continue(3) assms(1) have fin: "isFinished (StepStatus_Status e')" by simp
    have pf: "phaseOf r ?p1 = phaseOf r p" using Cons.prems(2) by (rule phaseOf_not_panic)
    have sh: "phaseShape (phaseOf r p) = phaseShape p"
      using executeSteps_shape[OF Cons.prems(1)] .
    have look: "getStepFromStatus (Step_Name st) (phaseOf r p) = Some j"
      using getStepFromStatus_shape[OF sh] continue(1) by simp
    have j: "j < length (PhaseStatus_Steps p)" using getStepFromStatus_Some[OF continue(1)] by simp
    have "PhaseStatus_Steps (phaseOf r ?p1) ! j = PhaseStatus_Steps ?p1 ! j"
      using executeSteps_frame[OF continue(4)] fin j by simp
    with pf j have "PhaseStatus_Steps (phaseOf r p) ! j = e'" by simp
    with look fin have "stepFinishedIn (phaseOf r p) st" by (simp add: stepFinishedIn_def)
    moreover from Cons.IH[OF continue(4) Cons.prems(2)] pf
    have "executedSteps evs2 =
            map Step_Name (throughFirst (\<lambda>st. \<not> stepFinishedIn (phaseOf r p) st) rest)" by simp
    ultimately show ?thesis
      using continue(5) executeStep_no_step_event[OF continue(2)] by simp
  qed
qed

lemma executeSteps_parallel_trace:
  assumes "Phase_Strategy ph \<noteq> Serial"
      and "executeSteps cl ph pr steps ah p c = (StepsDone a p', c', evs)"
  shows "executedSteps evs = map Step_Name steps"
  using assms(2)
proof (induction steps arbitrary: ah p c evs)
  case Nil then show ?case by auto
next
  case (Cons st rest)
  from Cons.prems(1) show ?case
  proof (cases rule: executeSteps_Cons_cases)
    case panic then show ?thesis by simp
  next
    case (error j err e' evs1) then show ?thesis by simp
  next
    case (stop j e' evs1) with assms(1) show ?thesis by simp
  next
    case (continue j e' c1 evs1 evs2)
    from Cons.IH[OF continue(4)] continue(5) executeStep_no_step_event[OF continue(2)]
    show ?thesis by simp
  qed
qed

lemma getStepFromStatus_phase_status [simp]:
  "getStepFromStatus n (p\<lparr>PhaseStatus_Status := x\<rparr>) = getStepFromStatus n p"
  by (simp add: getStepFromStatus_def)




lemma phaseAt_setPhase: "i < length (PlanStatus_Phases s) \<Longrightarrow> phaseAt (setPhase s i p) i = p"
  by (simp add: phaseAt_def setPhase_def)


lemma setPhaseStatus_setPhase:
  "setPhaseStatus s i x = setPhase s i ((phaseAt s i)\<lparr>PhaseStatus_Status := x\<rparr>)"
  by (simp add: setPhaseStatus_def setPhase_def)

lemma length_setPhase [simp]:
  "length (PlanStatus_Phases (setPhase s i p)) = length (PlanStatus_Phases s)"
  by (simp add: setPhase_def)

lemma phaseAt_top [simp]: "phaseAt (s\<lparr>PlanStatus_Status := x\<rparr>) i = phaseAt s i"
  by (simp add: phaseAt_def)

lemma top_setPhase [simp]: "PlanStatus_Status (setPhase s i p) = PlanStatus_Status s"
  by (simp add: setPhase_def)

lemma shape_setPhase:
  "phaseShape p = phaseShape (phaseAt s i) \<Longrightarrow> shape (setPhase s i p) = shape s"
  by (simp add: shape_def setPhase_def phaseAt_def map_update_same)

lemma shape_top [simp]: "shape (s\<lparr>PlanStatus_Status := x\<rparr>) = shape s"
  by (simp add: shape_def)

lemma setPhase_setPhase [simp]: "setPhase (setPhase s i p) i q = setPhase s i q"
  by (simp add: setPhase_def)


lemma setPhase_top:
  "setPhase (s\<lparr>PlanStatus_Status := x\<rparr>) i p = (setPhase s i p)\<lparr>PlanStatus_Status := x\<rparr>"
  by (simp add: setPhase_def)


lemma phaseShape_status [simp]: "phaseShape (p\<lparr>PhaseStatus_Status := x\<rparr>) = phaseShape p"
  by (simp add: phaseShape_def)

lemma length_top [simp]:
  "length (PlanStatus_Phases (s\<lparr>PlanStatus_Status := x\<rparr>)) = length (PlanStatus_Phases s)"
  by simp

text \<open>One iteration of the phase loop.\<close>

lemma executePhases_Cons_cases:
  assumes "executePhases cl pr (ph # rest) s c = (r, c', evs)"
  obtains
    (panic) "getPhaseFromStatus (Phase_Name ph) s = None" "r = PhasesPanic" "c' = c" "evs = []"
  | (skip) i where
      "getPhaseFromStatus (Phase_Name ph) s = Some i"
      "isFinished (PhaseStatus_Status (phaseAt s i))"
      "executePhases cl pr rest s c = (r, c', evs)"
  | (blocked) i where
      "getPhaseFromStatus (Phase_Name ph) s = Some i"
      "\<not> isFinished (PhaseStatus_Status (phaseAt s i))"
      "\<not> isInProgress (PhaseStatus_Status (phaseAt s i))"
      "r = PhasesDone False s" "c' = c" "evs = []"
  | (stepsPanic) i where
      "getPhaseFromStatus (Phase_Name ph) s = Some i"
      "\<not> isFinished (PhaseStatus_Status (phaseAt s i))"
      "isInProgress (PhaseStatus_Status (phaseAt s i))"
      "executeSteps cl ph pr (Phase_Steps ph) True
         (phaseAt (setPhaseStatus (s\<lparr>PlanStatus_Status := ExecutionInProgress\<rparr>) i
                     ExecutionInProgress) i) c = (StepsPanic, c', evs)"
      "r = PhasesPanic"
  | (stepsError) i p' err where
      "getPhaseFromStatus (Phase_Name ph) s = Some i"
      "\<not> isFinished (PhaseStatus_Status (phaseAt s i))"
      "isInProgress (PhaseStatus_Status (phaseAt s i))"
      "executeSteps cl ph pr (Phase_Steps ph) True
         (phaseAt (setPhaseStatus (s\<lparr>PlanStatus_Status := ExecutionInProgress\<rparr>) i
                     ExecutionInProgress) i) c = (StepsError p' err, c', evs)"
      "r = PhasesError
             (setPhase (setPhaseStatus (s\<lparr>PlanStatus_Status := ExecutionInProgress\<rparr>) i
                          ExecutionInProgress) i p') err"
  | (stay) i a p' where
      "getPhaseFromStatus (Phase_Name ph) s = Some i"
      "\<not> isFinished (PhaseStatus_Status (phaseAt s i))"
      "isInProgress (PhaseStatus_Status (phaseAt s i))"
      "executeSteps cl ph pr (Phase_Steps ph) True
         (phaseAt (setPhaseStatus (s\<lparr>PlanStatus_Status := ExecutionInProgress\<rparr>) i
                     ExecutionInProgress) i) c = (StepsDone a p', c', evs)"
      "\<not> a"
      "r = PhasesDone False
             (setPhase (setPhaseStatus (s\<lparr>PlanStatus_Status := ExecutionInProgress\<rparr>) i
                          ExecutionInProgress) i p')"
  | (advance) i p' c1 evs1 evs2 where
      "getPhaseFromStatus (Phase_Name ph) s = Some i"
      "\<not> isFinished (PhaseStatus_Status (phaseAt s i))"
      "isInProgress (PhaseStatus_Status (phaseAt s i))"
      "executeSteps cl ph pr (Phase_Steps ph) True
         (phaseAt (setPhaseStatus (s\<lparr>PlanStatus_Status := ExecutionInProgress\<rparr>) i
                     ExecutionInProgress) i) c = (StepsDone True p', c1, evs1)"
      "executePhases cl pr rest
         (setPhaseStatus
            (setPhase (setPhaseStatus (s\<lparr>PlanStatus_Status := ExecutionInProgress\<rparr>) i
                         ExecutionInProgress) i p') i ExecutionComplete) c1 = (r, c', evs2)"
      "evs = evs1 @ evs2"
proof (cases "getPhaseFromStatus (Phase_Name ph) s")
  case None
  with assms panic show ?thesis by simp
next
  case (Some i)
  note look = Some
  have i: "i < length (PlanStatus_Phases s)" using getPhaseFromStatus_Some[OF look] by simp
  let ?s1 = "setPhaseStatus (s\<lparr>PlanStatus_Status := ExecutionInProgress\<rparr>) i ExecutionInProgress"
  show ?thesis
  proof (cases "isFinished (PhaseStatus_Status (phaseAt s i))")
    case True
    with assms look skip show ?thesis by simp
  next
    case False
    note nfin = False
    show ?thesis
    proof (cases "isInProgress (PhaseStatus_Status (phaseAt s i))")
      case False
      with assms look nfin blocked show ?thesis by simp
    next
      case True
      note inprog = True
      obtain r0 c0 evs0 where steps:
        "executeSteps cl ph pr (Phase_Steps ph) True (phaseAt ?s1 i) c = (r0, c0, evs0)"
        by (metis prod_cases3)
      have p1: "phaseAt ?s1 i = (phaseAt s i)\<lparr>PhaseStatus_Status := ExecutionInProgress\<rparr>"
        using i by (simp add: setPhaseStatus_setPhase phaseAt_setPhase)
      show ?thesis
      proof (cases r0)
        case StepsPanic
        with assms look nfin inprog steps stepsPanic show ?thesis by (simp add: Let_def)
      next
        case (StepsError p' err)
        with assms look nfin inprog steps stepsError show ?thesis by (simp add: Let_def)
      next
        case (StepsDone a p')
        from executeSteps_status[OF steps] StepsDone p1
        have st: "PhaseStatus_Status p' = ExecutionInProgress" by simp
        show ?thesis
        proof (cases a)
          case False
          have "\<not> isFinished (PhaseStatus_Status (phaseAt (setPhase ?s1 i p') i))"
            using i st by (simp add: phaseAt_setPhase setPhaseStatus_setPhase isFinished_def)
          with assms look nfin inprog steps StepsDone False stay show ?thesis
            by (simp add: Let_def)
        next
          case True
          have "isFinished (PhaseStatus_Status
                  (phaseAt (setPhaseStatus (setPhase ?s1 i p') i ExecutionComplete) i))"
            using i by (simp add: phaseAt_setPhase setPhaseStatus_setPhase isFinished_def)
          moreover obtain r2 c2 evs2 where rec:
            "executePhases cl pr rest
               (setPhaseStatus (setPhase ?s1 i p') i ExecutionComplete) c0 = (r2, c2, evs2)"
            by (metis prod_cases3)
          ultimately have eqs: "r = r2" "c' = c2" "evs = evs0 @ evs2"
            using assms look nfin inprog steps StepsDone True by (auto simp: Let_def)
          from steps StepsDone True have s':
            "executeSteps cl ph pr (Phase_Steps ph) True (phaseAt ?s1 i) c
               = (StepsDone True p', c0, evs0)" by simp
          from rec eqs have rec':
            "executePhases cl pr rest
               (setPhaseStatus (setPhase ?s1 i p') i ExecutionComplete) c0 = (r, c', evs2)"
            by simp
          show ?thesis by (rule advance[OF look nfin inprog s' rec' eqs(3)])
        qed
      qed
    qed
  qed
qed

lemma shape_setPhaseStatus [simp]: "shape (setPhaseStatus s i x) = shape s"
  by (simp add: setPhaseStatus_setPhase shape_setPhase)

lemma top_setPhaseStatus [simp]:
  "PlanStatus_Status (setPhaseStatus s i x) = PlanStatus_Status s"
  by (simp add: setPhaseStatus_setPhase)

lemma length_setPhaseStatus [simp]:
  "length (PlanStatus_Phases (setPhaseStatus s i x)) = length (PlanStatus_Phases s)"
  by (simp add: setPhaseStatus_setPhase)

lemma phaseAt_setPhaseStatus:
  "i < length (PlanStatus_Phases s) \<Longrightarrow>
     phaseAt (setPhaseStatus s i x) i = (phaseAt s i)\<lparr>PhaseStatus_Status := x\<rparr>"
  by (simp add: setPhaseStatus_setPhase phaseAt_setPhase)


lemma shape_length: "shape s = shape s' \<Longrightarrow> length (PlanStatus_Phases s) = length (PlanStatus_Phases s')"
  by (metis length_map shape_def)

lemma shape_phaseAt:
  "shape s = shape s' \<Longrightarrow> i < length (PlanStatus_Phases s) \<Longrightarrow>
     phaseShape (phaseAt s i) = phaseShape (phaseAt s' i)"
  by (metis shape_length nth_map phaseAt_def shape_def)

lemma executePhases_shape:
  "executePhases cl pr phs s c = (r, c', evs) \<Longrightarrow> shape (stateOf r s) = shape s"
proof (induction phs arbitrary: s c evs)
  case Nil then show ?case by auto
next
  case (Cons ph rest)
  from Cons.prems show ?case
  proof (cases rule: executePhases_Cons_cases)
    case panic then show ?thesis by simp
  next
    case (skip i) from Cons.IH[OF skip(3)] show ?thesis .
  next
    case (blocked i) then show ?thesis by simp
  next
    case (stepsPanic i) then show ?thesis by simp
  next
    case (stepsError i p' err)
    from executeSteps_shape[OF stepsError(4)] stepsError(5) show ?thesis
      by (simp add: shape_setPhase)
  next
    case (stay i a p')
    from executeSteps_shape[OF stay(4)] stay(6) show ?thesis
      by (simp add: shape_setPhase)
  next
    case (advance i p' c1 evs1 evs2)
    from executeSteps_shape[OF advance(4)] Cons.IH[OF advance(5)]
    have "shape (stateOf r (setPhaseStatus (setPhase (setPhaseStatus
            (s\<lparr>PlanStatus_Status := ExecutionInProgress\<rparr>) i ExecutionInProgress) i p') i
            ExecutionComplete)) = shape s"
      by (simp add: shape_setPhase)
    then show ?thesis by (cases r) auto
  qed
qed




lemma lookupsSucceed_shape:
  assumes "shape s = shape s'" and "lookupsSucceed phs s"
  shows "lookupsSucceed phs s'"
  unfolding lookupsSucceed_def
proof
  fix ph assume "ph \<in> set phs"
  with assms(2) obtain i where i: "getPhaseFromStatus (Phase_Name ph) s = Some i"
    and sts: "\<forall>st\<in>set (Phase_Steps ph). \<exists>j. getStepFromStatus (Step_Name st) (phaseAt s i) = Some j"
    by (auto simp: lookupsSucceed_def)
  have "getPhaseFromStatus (Phase_Name ph) s' = Some i"
    using getPhaseFromStatus_shape[OF assms(1)] i by simp
  moreover have "phaseShape (phaseAt s i) = phaseShape (phaseAt s' i)"
    using shape_phaseAt[OF assms(1)] getPhaseFromStatus_Some[OF i] by simp
  then have "\<And>n. getStepFromStatus n (phaseAt s' i) = getStepFromStatus n (phaseAt s i)"
    using getStepFromStatus_shape by metis
  ultimately show "\<exists>i. getPhaseFromStatus (Phase_Name ph) s' = Some i \<and>
        (\<forall>st\<in>set (Phase_Steps ph). \<exists>j. getStepFromStatus (Step_Name st) (phaseAt s' i) = Some j)"
    using sts by auto
qed

lemma executePhases_no_panic:
  "lookupsSucceed phs s \<Longrightarrow> executePhases cl pr phs s c = (r, c', evs) \<Longrightarrow> r \<noteq> PhasesPanic"
proof (induction phs arbitrary: s c evs)
  case Nil then show ?case by auto
next
  case (Cons ph rest)
  from Cons.prems(1) have rest: "lookupsSucceed rest s" by (simp add: lookupsSucceed_def)
  from Cons.prems(2) show ?case
  proof (cases rule: executePhases_Cons_cases)
    case panic with Cons.prems(1) show ?thesis by (auto simp: lookupsSucceed_def)
  next
    case (skip i) from Cons.IH[OF rest skip(3)] show ?thesis .
  next
    case (blocked i) then show ?thesis by simp
  next
    case (stepsPanic i)
    have i: "i < length (PlanStatus_Phases s)" using getPhaseFromStatus_Some[OF stepsPanic(1)] by simp
    from Cons.prems(1) stepsPanic(1)
    have "\<forall>st\<in>set (Phase_Steps ph). getStepFromStatus (Step_Name st) (phaseAt s i) \<noteq> None"
      by (auto simp: lookupsSucceed_def)
    then have "\<forall>st\<in>set (Phase_Steps ph). getStepFromStatus (Step_Name st)
        (phaseAt (setPhaseStatus (s\<lparr>PlanStatus_Status := ExecutionInProgress\<rparr>) i ExecutionInProgress) i) \<noteq> None"
      using i by (simp add: phaseAt_setPhaseStatus)
    from executeSteps_no_panic[OF this stepsPanic(4)] show ?thesis by simp
  next
    case (stepsError i p' err) then show ?thesis by simp
  next
    case (stay i a p') then show ?thesis by simp
  next
    case (advance i p' c1 evs1 evs2)
    let ?s3 = "setPhaseStatus (setPhase (setPhaseStatus
            (s\<lparr>PlanStatus_Status := ExecutionInProgress\<rparr>) i ExecutionInProgress) i p') i
            ExecutionComplete"
    have "shape ?s3 = shape s"
      using executeSteps_shape[OF advance(4)] by (simp add: shape_setPhase)
    from lookupsSucceed_shape[OF this[symmetric] rest] have "lookupsSucceed rest ?s3" .
    from Cons.IH[OF this advance(5)] show ?thesis .
  qed
qed

section \<open>The preparer: success and nil pointers\<close>

lemma failStep_not_Prepared [simp]: "failStep s i j x e \<noteq> Prepared v"
  by (simp add: failStep_def split: option.splits)

lemma failStep_no_panic [simp]: "failStep s i (Some j) x e \<noteq> NilDereference"
  by (simp add: failStep_def)









lemma renderResources_no_panic:
  "renderResources render plan meta cfg s i (Some j) rs acc \<noteq> NilDereference"
  by (induction rs arbitrary: acc) (auto split: option.splits sum.splits)

lemma prepareTasks_no_panic:
  "prepareTasks render renderer plan meta ph st cfg s i (Some j) ts acc \<noteq> NilDereference"
proof (induction ts arbitrary: acc)
  case Nil then show ?case by simp
next
  case (Cons t ts)
  show ?case
    using renderResources_no_panic[of render plan meta cfg s i j] Cons.IH
    by (auto split: option.splits prepared.splits prod.splits)
qed

lemma prepareSteps_no_panic:
  "\<forall>st\<in>set sts. \<exists>j. getStepFromStatus (Step_Name st) (phaseAt s i) = Some j \<Longrightarrow>
     prepareSteps render renderer plan meta ph s (Some i) j0 sts acc \<noteq> NilDereference"
proof (induction sts arbitrary: acc j0)
  case Nil then show ?case by simp
next
  case (Cons st sts)
  from Cons.prems obtain j where j: "getStepFromStatus (Step_Name st) (phaseAt s i) = Some j"
    and rest: "\<forall>st\<in>set sts. \<exists>j. getStepFromStatus (Step_Name st) (phaseAt s i) = Some j"
    by auto
  show ?case
    using prepareTasks_no_panic[of render renderer plan meta ph st _ s i j] j Cons.IH[OF rest]
    by (simp add: Let_def split: prepared.splits)
qed

lemma preparePhases_no_panic:
  "lookupsSucceed phs s \<Longrightarrow> preparePhases render renderer plan meta s phs acc \<noteq> NilDereference"
proof (induction phs arbitrary: acc)
  case Nil then show ?case by simp
next
  case (Cons ph phs)
  from Cons.prems obtain i where i: "getPhaseFromStatus (Phase_Name ph) s = Some i"
    and sts: "\<forall>st\<in>set (Phase_Steps ph). \<exists>j. getStepFromStatus (Step_Name st) (phaseAt s i) = Some j"
    and rest: "lookupsSucceed phs s"
    by (auto simp: lookupsSucceed_def)
  from prepareSteps_no_panic[OF sts] Cons.IH[OF rest] i show ?case
    by (simp add: Let_def split: prepared.splits)
qed

lemma indexOfPhase_found:
  "filter (\<lambda>p. PhaseStatus_Name p = n) xs \<noteq> [] \<Longrightarrow> \<exists>i. indexOfPhase n xs = Some i"
  by (induction xs) auto

lemma indexOfStep_found:
  "filter (\<lambda>p. StepStatus_Name p = n) xs \<noteq> [] \<Longrightarrow> \<exists>i. indexOfStep n xs = Some i"
  by (induction xs) auto

lemma statusCoversPlan_lookups:
  assumes "statusCoversPlan spec s"
  shows "lookupsSucceed (Plan_Phases spec) s"
  unfolding lookupsSucceed_def
proof
  fix ph assume ph: "ph \<in> set (Plan_Phases spec)"
  with assms have one:
    "length (filter (\<lambda>p. PhaseStatus_Name p = Phase_Name ph) (PlanStatus_Phases s)) = 1"
    and sts: "\<forall>p\<in>set (PlanStatus_Phases s). PhaseStatus_Name p = Phase_Name ph \<longrightarrow>
           (\<forall>st\<in>set (Phase_Steps ph).
              length (filter (\<lambda>q. StepStatus_Name q = Step_Name st) (PhaseStatus_Steps p)) = 1)"
    by (auto simp: statusCoversPlan_def)
  from one have "filter (\<lambda>p. PhaseStatus_Name p = Phase_Name ph) (PlanStatus_Phases s) \<noteq> []"
    by auto
  from indexOfPhase_found[OF this] obtain i where
    i: "getPhaseFromStatus (Phase_Name ph) s = Some i" by (auto simp: getPhaseFromStatus_def)
  from getPhaseFromStatus_Some[OF i] have
    mem: "phaseAt s i \<in> set (PlanStatus_Phases s)" and nm: "PhaseStatus_Name (phaseAt s i) = Phase_Name ph"
    by (auto simp: phaseAt_def)
  have "\<forall>st\<in>set (Phase_Steps ph). \<exists>j. getStepFromStatus (Step_Name st) (phaseAt s i) = Some j"
  proof
    fix st assume "st \<in> set (Phase_Steps ph)"
    with sts mem nm have
      "length (filter (\<lambda>q. StepStatus_Name q = Step_Name st) (PhaseStatus_Steps (phaseAt s i))) = 1"
      by blast
    then have "filter (\<lambda>q. StepStatus_Name q = Step_Name st) (PhaseStatus_Steps (phaseAt s i)) \<noteq> []"
      by auto
    from indexOfStep_found[OF this]
    show "\<exists>j. getStepFromStatus (Step_Name st) (phaseAt s i) = Some j"
      by (simp add: getStepFromStatus_def)
  qed
  with i show "\<exists>i. getPhaseFromStatus (Phase_Name ph) s = Some i \<and>
        (\<forall>st\<in>set (Phase_Steps ph). \<exists>j. getStepFromStatus (Step_Name st) (phaseAt s i) = Some j)"
    by blast
qed

section \<open>The preparer: reaching a reference, marking a failure\<close>

lemma renderResources_append:
  "renderResources render plan meta cfg s i j (rs1 @ rs2) acc =
     andThen (renderResources render plan meta cfg s i j rs1 acc)
       (renderResources render plan meta cfg s i j rs2)"
proof (induction rs1 arbitrary: acc)
  case Nil then show ?case by simp
next
  case (Cons r rs1)
  show ?case
    by (cases "activePlan_Templates plan r")
       (auto simp: Cons.IH failStep_def split: sum.splits option.splits)
qed

lemma prepareTasks_append:
  "prepareTasks render renderer plan meta ph st cfg s i j (ts1 @ ts2) acc =
     andThen (prepareTasks render renderer plan meta ph st cfg s i j ts1 acc)
       (prepareTasks render renderer plan meta ph st cfg s i j ts2)"
proof (induction ts1 arbitrary: acc)
  case Nil then show ?case by simp
next
  case (Cons t ts1)
  show ?case
    by (cases "activePlan_Tasks plan t")
       (auto simp: Cons.IH failStep_def split: prepared.splits prod.splits option.splits)
qed

lemma prepareSteps_append:
  "prepareSteps render renderer plan meta ph s ps j (sts1 @ sts2) acc =
     andThen (prepareSteps render renderer plan meta ph s ps j sts1 acc)
       (prepareSteps render renderer plan meta ph s ps (j + length sts1) sts2)"
proof (induction sts1 arbitrary: acc j)
  case Nil then show ?case by simp
next
  case (Cons st sts1)
  show ?case
  proof (cases ps)
    case None then show ?thesis by simp
  next
    case (Some i)
    show ?thesis
    proof (cases "prepareTasks render renderer plan meta ph st (stepConfigs plan meta ph st j) s i
                    (getStepFromStatus (Step_Name st) (phaseAt s i)) (Step_Tasks st) []")
      case NilDereference with Some show ?thesis by (simp add: Let_def)
    next
      case (PrepareError s' e) with Some show ?thesis by (simp add: Let_def)
    next
      case (Prepared rs)
      have "prepareSteps render renderer plan meta ph s ps j ((st # sts1) @ sts2) acc =
              prepareSteps render renderer plan meta ph s ps (Suc j) (sts1 @ sts2)
                (acc(Step_Name st \<mapsto> rs))"
        using Some Prepared by (simp add: Let_def)
      also have "\<dots> = andThen
              (prepareSteps render renderer plan meta ph s ps (Suc j) sts1
                 (acc(Step_Name st \<mapsto> rs)))
              (prepareSteps render renderer plan meta ph s ps (Suc j + length sts1) sts2)"
        by (rule Cons.IH)
      also have "\<dots> = andThen
              (prepareSteps render renderer plan meta ph s ps j (st # sts1) acc)
              (prepareSteps render renderer plan meta ph s ps (j + length (st # sts1)) sts2)"
        using Some Prepared by (simp add: Let_def)
      finally show ?thesis .
    qed
  qed
qed

lemma preparePhases_append:
  "preparePhases render renderer plan meta s (phs1 @ phs2) acc =
     andThen (preparePhases render renderer plan meta s phs1 acc)
       (preparePhases render renderer plan meta s phs2)"
proof (induction phs1 arbitrary: acc)
  case Nil then show ?case by simp
next
  case (Cons ph phs1)
  show ?case
  proof (cases "prepareSteps render renderer plan meta ph s (getPhaseFromStatus (Phase_Name ph) s) 0
                  (Phase_Steps ph) Map.empty")
    case NilDereference then show ?thesis by (simp add: Let_def)
  next
    case (PrepareError s' e) then show ?thesis by (simp add: Let_def)
  next
    case (Prepared psr)
    have "preparePhases render renderer plan meta s ((ph # phs1) @ phs2) acc =
            preparePhases render renderer plan meta s (phs1 @ phs2) (acc(Phase_Name ph \<mapsto> psr))"
      using Prepared by (simp add: Let_def)
    also have "\<dots> = andThen
            (preparePhases render renderer plan meta s phs1 (acc(Phase_Name ph \<mapsto> psr)))
            (preparePhases render renderer plan meta s phs2)"
      by (rule Cons.IH)
    also have "\<dots> = andThen
            (preparePhases render renderer plan meta s (ph # phs1) acc)
            (preparePhases render renderer plan meta s phs2)"
      using Prepared by (simp add: Let_def)
    finally show ?thesis .
  qed
qed

lemma prepare_reaches:
  assumes "Plan_Phases (activePlan_Spec plan) = phs1 @ ph # phs2"
      and "preparePhases render renderer plan meta s phs1 Map.empty = Prepared r1"
      and "getPhaseFromStatus (Phase_Name ph) s = Some i"
      and "Phase_Steps ph = sts1 @ st # sts2"
      and "prepareSteps render renderer plan meta ph s (Some i) 0 sts1 Map.empty = Prepared r2"
      and "Step_Tasks st = ts1 @ t # ts2"
      and "prepareTasks render renderer plan meta ph st (stepConfigs plan meta ph st (length sts1))
             s i (getStepFromStatus (Step_Name st) (phaseAt s i)) ts1 [] = Prepared r3"
      and "prepareTasks render renderer plan meta ph st (stepConfigs plan meta ph st (length sts1))
             s i (getStepFromStatus (Step_Name st) (phaseAt s i)) (t # ts2) r3 = PrepareError s' e"
  shows "prepareKubeResources render renderer plan meta s = PrepareError s' e"
proof -
  have "prepareTasks render renderer plan meta ph st (stepConfigs plan meta ph st (length sts1))
             s i (getStepFromStatus (Step_Name st) (phaseAt s i)) (Step_Tasks st) [] = PrepareError s' e"
    using assms(6,7,8) by (simp only: prepareTasks_append andThen.simps)
  then have "prepareSteps render renderer plan meta ph s (Some i) (length sts1) (st # sts2) r2
               = PrepareError s' e"
    by (simp add: Let_def)
  then have "prepareSteps render renderer plan meta ph s (Some i) 0 (Phase_Steps ph) Map.empty
               = PrepareError s' e"
    using assms(4,5) by (simp only: prepareSteps_append andThen.simps add_0)
  then have "preparePhases render renderer plan meta s (ph # phs2) r1 = PrepareError s' e"
    using assms(3) by (simp add: Let_def)
  then show ?thesis
    unfolding prepareKubeResources_def using assms(1,2)
    by (simp only: preparePhases_append andThen.simps)
qed

lemma prepareTasks_missing_task:
  "activePlan_Tasks plan t = None \<Longrightarrow>
     prepareTasks render renderer plan meta ph st cfg s i (Some j) (t # ts) acc =
       PrepareError (markFailed s i j ErrorStatus)
         (ExecutionError (ErrTaskNotFound (operatorVersionName meta)) False)"
  by (simp add: failStep_def)

lemma prepareTasks_missing_template:
  assumes "activePlan_Tasks plan t = Some taskSpec"
      and "TaskSpec_Resources taskSpec = rs1 @ res # rs2"
      and "renderResources render plan meta cfg s i (Some j) rs1 [] = Prepared a"
      and "activePlan_Templates plan res = None"
  shows "prepareTasks render renderer plan meta ph st cfg s i (Some j) (t # ts) acc =
       PrepareError (markFailed s i j ExecutionFatalError)
         (ExecutionError (ErrResourceNotFound res (operatorVersionName meta)) True)"
proof -
  have "renderResources render plan meta cfg s i (Some j) (TaskSpec_Resources taskSpec) [] =
          PrepareError (markFailed s i j ExecutionFatalError)
            (ExecutionError (ErrResourceNotFound res (operatorVersionName meta)) True)"
    using assms(2,3,4) by (simp add: renderResources_append failStep_def)
  with assms(1) show ?thesis by simp
qed

lemma marked_statuses:
  assumes "getPhaseFromStatus n s = Some i" and "getStepFromStatus m (phaseAt s i) = Some j"
  shows "PhaseStatus_Status (phaseAt (markFailed s i j x) i) = x
       \<and> StepStatus_Status (stepAt (markFailed s i j x) i j) = x
       \<and> PlanStatus_Status (markFailed s i j x) = PlanStatus_Status s"
  using getPhaseFromStatus_Some[OF assms(1)] getStepFromStatus_Some[OF assms(2)]
  by (simp add: markFailed_def setStepStatus_def setStep_def setPhaseStatus_def phaseAt_def stepAt_def)

lemma executeSteps_error_marks:
  "executeSteps cl ph pr steps ah p c = (StepsError p' e, c', evs) \<Longrightarrow>
     PhaseStatus_Status p' = ErrorStatus \<and>
     (\<exists>st\<in>set steps. \<exists>j. getStepFromStatus (Step_Name st) p' = Some j \<and>
        StepStatus_Status (PhaseStatus_Steps p' ! j) = ErrorStatus)"
proof (induction steps arbitrary: ah p c evs)
  case Nil then show ?case by simp
next
  case (Cons st rest)
  from Cons.prems show ?case
  proof (cases rule: executeSteps_Cons_cases)
    case panic then show ?thesis by simp
  next
    case (error j err e' evs1)
    have j: "j < length (PhaseStatus_Steps p)" using getStepFromStatus_Some[OF error(1)] by simp
    have "phaseShape p' = phaseShape p"
      using executeStep_name[OF error(2)] error(3) by (simp add: phaseShape_def map_update_same)
    then have "getStepFromStatus (Step_Name st) p' = Some j"
      using getStepFromStatus_shape error(1) by metis
    with error(3) j show ?thesis by auto
  next
    case (stop j e' evs1) then show ?thesis by simp
  next
    case (continue j e' c1 evs1 evs2)
    from Cons.IH[OF continue(4)] show ?thesis by auto
  qed
qed

lemma executePhases_error_marks:
  "executePhases cl pr phs s c = (PhasesError s' e, c', evs) \<Longrightarrow>
     PlanStatus_Status s' = ExecutionInProgress \<and>
     (\<exists>ph\<in>set phs. \<exists>st\<in>set (Phase_Steps ph). \<exists>i j.
        getPhaseFromStatus (Phase_Name ph) s' = Some i \<and>
        getStepFromStatus (Step_Name st) (phaseAt s' i) = Some j \<and>
        PhaseStatus_Status (phaseAt s' i) = ErrorStatus \<and>
        StepStatus_Status (stepAt s' i j) = ErrorStatus)"
proof (induction phs arbitrary: s c evs)
  case Nil then show ?case by simp
next
  case (Cons ph rest)
  from Cons.prems show ?case
  proof (cases rule: executePhases_Cons_cases)
    case panic then show ?thesis by simp
  next
    case (skip i) from Cons.IH[OF skip(3)] show ?thesis by auto
  next
    case (blocked i) then show ?thesis by simp
  next
    case (stepsPanic i) then show ?thesis by simp
  next
    case (stepsError i p' err)
    have i: "i < length (PlanStatus_Phases s)" using getPhaseFromStatus_Some[OF stepsError(1)] by simp
    have sh: "shape s' = shape s"
      using executePhases_shape[OF Cons.prems] stepsError(5) by simp
    have look: "getPhaseFromStatus (Phase_Name ph) s' = Some i"
      using getPhaseFromStatus_shape[OF sh] stepsError(1) by simp
    have at: "phaseAt s' i = p'" using stepsError(5) i by (simp add: phaseAt_setPhase)
    have top: "PlanStatus_Status s' = ExecutionInProgress" using stepsError(5) by simp
    from executeSteps_error_marks[OF stepsError(4)] at look top show ?thesis
      by (auto simp: stepAt_def)
  next
    case (stay i a p') then show ?thesis by simp
  next
    case (advance i p' c1 evs1 evs2)
    from Cons.IH[OF advance(5)] show ?thesis by auto
  qed
qed

section \<open>The executor introduces no fatal status\<close>

lemma notNewlyFatal_refl [simp]: "notNewlyFatal x x"
  by (simp add: notNewlyFatal_def)

lemma notNewlyFatal_trans: "notNewlyFatal x y \<Longrightarrow> notNewlyFatal y z \<Longrightarrow> notNewlyFatal x z"
  by (simp add: notNewlyFatal_def)

lemma notNewlyFatal_other [simp]: "y \<noteq> ExecutionFatalError \<Longrightarrow> notNewlyFatal x y"
  by (simp add: notNewlyFatal_def)

lemma phaseNoNewFatal_refl [simp]: "phaseNoNewFatal p p"
  by (simp add: phaseNoNewFatal_def list_all2_refl)

lemma phaseNoNewFatal_trans:
  "phaseNoNewFatal p q \<Longrightarrow> phaseNoNewFatal q r \<Longrightarrow> phaseNoNewFatal p r"
  by (auto simp: phaseNoNewFatal_def notNewlyFatal_def list_all2_conv_all_nth)

lemma noNewFatal_refl [simp]: "noNewFatal s s"
  by (simp add: noNewFatal_def list_all2_refl)

lemma noNewFatal_trans:
  assumes "noNewFatal s t" and "noNewFatal t u"
  shows "noNewFatal s u"
proof -
  from assms have top: "notNewlyFatal (PlanStatus_Status s) (PlanStatus_Status u)"
    by (auto simp: noNewFatal_def intro: notNewlyFatal_trans)
  from assms have st: "list_all2 phaseNoNewFatal (PlanStatus_Phases s) (PlanStatus_Phases t)"
    and tu: "list_all2 phaseNoNewFatal (PlanStatus_Phases t) (PlanStatus_Phases u)"
    by (simp_all add: noNewFatal_def)
  have "list_all2 phaseNoNewFatal (PlanStatus_Phases s) (PlanStatus_Phases u)"
    by (rule list_all2_trans[OF phaseNoNewFatal_trans st tu])
  with top show ?thesis by (simp add: noNewFatal_def)
qed

lemma executeStep_notNewlyFatal:
  "executeStep cl step e rs c = (err, e', c', evs) \<Longrightarrow>
     notNewlyFatal (StepStatus_Status e) (StepStatus_Status e')"
  by (auto dest!: executeStep_cases split: sum.splits)

lemma phaseNoNewFatal_step:
  assumes "notNewlyFatal (StepStatus_Status (PhaseStatus_Steps p ! j)) (StepStatus_Status e')"
  shows "phaseNoNewFatal p (p\<lparr>PhaseStatus_Steps := (PhaseStatus_Steps p)[j := e']\<rparr>)"
proof -
  have "notNewlyFatal (StepStatus_Status (PhaseStatus_Steps p ! i))
          (StepStatus_Status ((PhaseStatus_Steps p)[j := e'] ! i))"
    if "i < length (PhaseStatus_Steps p)" for i
    using that assms by (cases "i = j") simp_all
  then show ?thesis
    by (simp add: phaseNoNewFatal_def list_all2_conv_all_nth)
qed

lemma phaseNoNewFatal_status:
  "x \<noteq> ExecutionFatalError \<Longrightarrow> phaseNoNewFatal p q \<Longrightarrow>
     phaseNoNewFatal p (q\<lparr>PhaseStatus_Status := x\<rparr>)"
  by (simp add: phaseNoNewFatal_def)

lemma executeSteps_noNewFatal:
  "executeSteps cl ph pr steps ah p c = (r, c', evs) \<Longrightarrow> phaseNoNewFatal p (phaseOf r p)"
proof (induction steps arbitrary: ah p c evs)
  case Nil then show ?case by auto
next
  case (Cons st rest)
  from Cons.prems show ?case
  proof (cases rule: executeSteps_Cons_cases)
    case panic then show ?thesis by simp
  next
    case (error j err e' evs1)
    have "phaseNoNewFatal p
            (p\<lparr>PhaseStatus_Steps := (PhaseStatus_Steps p)[j := e'\<lparr>StepStatus_Status := ErrorStatus\<rparr>]\<rparr>)"
      by (rule phaseNoNewFatal_step) simp
    then have "phaseNoNewFatal p
            ((p\<lparr>PhaseStatus_Steps := (PhaseStatus_Steps p)[j := e'\<lparr>StepStatus_Status := ErrorStatus\<rparr>]\<rparr>)
               \<lparr>PhaseStatus_Status := ErrorStatus\<rparr>)"
      by (intro phaseNoNewFatal_status) simp_all
    with error(3) show ?thesis by (simp add: phaseNoNewFatal_def)
  next
    case (stop j e' evs1)
    from phaseNoNewFatal_step[OF executeStep_notNewlyFatal[OF stop(2)]] stop(5)
    show ?thesis by simp
  next
    case (continue j e' c1 evs1 evs2)
    from phaseNoNewFatal_step[OF executeStep_notNewlyFatal[OF continue(2)]]
    have a: "phaseNoNewFatal p (p\<lparr>PhaseStatus_Steps := (PhaseStatus_Steps p)[j := e']\<rparr>)" .
    have b: "phaseNoNewFatal (p\<lparr>PhaseStatus_Steps := (PhaseStatus_Steps p)[j := e']\<rparr>)
               (phaseOf r (p\<lparr>PhaseStatus_Steps := (PhaseStatus_Steps p)[j := e']\<rparr>))"
      by (rule Cons.IH[OF continue(4)])
    have "phaseOf r (p\<lparr>PhaseStatus_Steps := (PhaseStatus_Steps p)[j := e']\<rparr>) = phaseOf r p
          \<or> r = StepsPanic" by (cases r) simp_all
    then show ?thesis
    proof
      assume "phaseOf r (p\<lparr>PhaseStatus_Steps := (PhaseStatus_Steps p)[j := e']\<rparr>) = phaseOf r p"
      with phaseNoNewFatal_trans[OF a b] show ?thesis by simp
    next
      assume "r = StepsPanic" then show ?thesis by simp
    qed
  qed
qed

lemma noNewFatal_top:
  "x \<noteq> ExecutionFatalError \<Longrightarrow> noNewFatal s t \<Longrightarrow> noNewFatal s (t\<lparr>PlanStatus_Status := x\<rparr>)"
  by (simp add: noNewFatal_def)

lemma noNewFatal_setPhase:
  assumes "phaseNoNewFatal (phaseAt s i) p"
  shows "noNewFatal s (setPhase s i p)"
proof -
  have "phaseNoNewFatal (PlanStatus_Phases s ! k) ((PlanStatus_Phases s)[i := p] ! k)"
    if "k < length (PlanStatus_Phases s)" for k
    using that assms by (cases "k = i") (simp_all add: phaseAt_def)
  then show ?thesis
    by (simp add: noNewFatal_def setPhase_def list_all2_conv_all_nth)
qed

lemma noNewFatal_setPhaseStatus:
  "x \<noteq> ExecutionFatalError \<Longrightarrow> noNewFatal s (setPhaseStatus s i x)"
  unfolding setPhaseStatus_setPhase
  by (rule noNewFatal_setPhase) (simp add: phaseNoNewFatal_status)

lemma executePhases_noNewFatal:
  "executePhases cl pr phs s c = (r, c', evs) \<Longrightarrow> noNewFatal s (stateOf r s)"
proof (induction phs arbitrary: s c evs)
  case Nil then show ?case by auto
next
  case (Cons ph rest)
  let ?s0 = "s\<lparr>PlanStatus_Status := ExecutionInProgress\<rparr>"
  let ?s1 = "setPhaseStatus ?s0 i ExecutionInProgress"
  have s1: "\<And>i. noNewFatal s (setPhaseStatus (s\<lparr>PlanStatus_Status := ExecutionInProgress\<rparr>) i ExecutionInProgress)"
  proof -
    fix i
    have "noNewFatal s (s\<lparr>PlanStatus_Status := ExecutionInProgress\<rparr>)"
      by (rule noNewFatal_top) simp_all
    moreover have "noNewFatal (s\<lparr>PlanStatus_Status := ExecutionInProgress\<rparr>)
                     (setPhaseStatus (s\<lparr>PlanStatus_Status := ExecutionInProgress\<rparr>) i ExecutionInProgress)"
      by (rule noNewFatal_setPhaseStatus) simp
    ultimately show "noNewFatal s (setPhaseStatus (s\<lparr>PlanStatus_Status := ExecutionInProgress\<rparr>) i ExecutionInProgress)"
      by (rule noNewFatal_trans)
  qed
  have s2: "\<And>i r1 c1 evs1 a.
      executeSteps cl ph pr (Phase_Steps ph) a
         (phaseAt (setPhaseStatus (s\<lparr>PlanStatus_Status := ExecutionInProgress\<rparr>) i
                     ExecutionInProgress) i) c = (r1, c1, evs1) \<Longrightarrow>
      noNewFatal s (setPhase (setPhaseStatus (s\<lparr>PlanStatus_Status := ExecutionInProgress\<rparr>) i
                     ExecutionInProgress) i
                     (phaseOf r1 (phaseAt (setPhaseStatus (s\<lparr>PlanStatus_Status := ExecutionInProgress\<rparr>) i
                     ExecutionInProgress) i)))"
    by (rule noNewFatal_trans[OF s1 noNewFatal_setPhase[OF executeSteps_noNewFatal]])
  from Cons.prems show ?case
  proof (cases rule: executePhases_Cons_cases)
    case panic then show ?thesis by simp
  next
    case (skip i) from Cons.IH[OF skip(3)] show ?thesis .
  next
    case (blocked i) then show ?thesis by simp
  next
    case (stepsPanic i) then show ?thesis by simp
  next
    case (stepsError i p' err)
    from s2[OF stepsError(4)] stepsError(5) show ?thesis by simp
  next
    case (stay i a p')
    from s2[OF stay(4)] stay(6) show ?thesis by simp
  next
    case (advance i p' c1 evs1 evs2)
    let ?t = "setPhase (setPhaseStatus (s\<lparr>PlanStatus_Status := ExecutionInProgress\<rparr>) i
                         ExecutionInProgress) i p'"
    from s2[OF advance(4)] have a: "noNewFatal s ?t" by simp
    have b: "noNewFatal ?t (setPhaseStatus ?t i ExecutionComplete)"
      by (rule noNewFatal_setPhaseStatus) simp
    have c: "noNewFatal (setPhaseStatus ?t i ExecutionComplete)
               (stateOf r (setPhaseStatus ?t i ExecutionComplete))"
      by (rule Cons.IH[OF advance(5)])
    have "stateOf r (setPhaseStatus ?t i ExecutionComplete) = stateOf r s \<or> r = PhasesPanic"
      by (cases r) simp_all
    then show ?thesis
    proof
      assume "stateOf r (setPhaseStatus ?t i ExecutionComplete) = stateOf r s"
      with noNewFatal_trans[OF noNewFatal_trans[OF a b] c] show ?thesis by simp
    next
      assume "r = PhasesPanic" then show ?thesis by simp
    qed
  qed
qed


section \<open>The step executor: completion and the patch fallback\<close>

lemma createOrUpdate_applyOne:
  "createOrUpdate cl r c = (x, c1, evs) \<Longrightarrow>
     applyOne cl r c = (case x of Inl e \<Rightarrow> Failed e | Inr h \<Rightarrow> Applied h, c1)"
  by (auto simp: createOrUpdate_def applyOne_def patchOne_def patchExistingObject_def Let_def
           split: sum.splits prod.splits if_splits)

lemma applyResources_outcomes:
  "applyResources cl step rs ah c = (res, c', evs) \<Longrightarrow>
     (case res of
        Inl e \<Rightarrow> Failed e \<in> set (outcomes cl step rs c) \<and>
                 (\<forall>e'. Failed e' \<in> set (outcomes cl step rs c) \<longrightarrow> e' = e)
      | Inr b \<Rightarrow> withoutError (outcomes cl step rs c) rs \<and>
                 b = (ah \<and> healthChecksPassed (outcomes cl step rs c)))"
proof (induction rs arbitrary: ah c evs res c')
  case Nil
  then show ?case by (auto simp: withoutError_def healthChecksPassed_def)
next
  case (Cons r rs)
  show ?case
  proof (cases "Step_Delete step")
    case True
    obtain err c1 where d: "Client_Delete cl r c = (err, c1)" by (cases "Client_Delete cl r c")
    show ?thesis
    proof (cases "\<not> IsNotFound err \<and> err \<noteq> None")
      case True
      with \<open>Step_Delete step\<close> d Cons.prems show ?thesis
        by (auto simp: deleteOne_def split: option.splits)
    next
      case False
      then have o: "deleteOne cl r c = (Deleted, c1)" using d
        by (auto simp: deleteOne_def split: option.splits)
      obtain res2 c2 evs2 where rec: "applyResources cl step rs ah c1 = (res2, c2, evs2)"
        by (metis prod_cases3)
      with False \<open>Step_Delete step\<close> d Cons.prems have "res = res2" by auto
      with Cons.IH[OF rec] o \<open>Step_Delete step\<close> show ?thesis
        by (auto simp: withoutError_def healthChecksPassed_def split: sum.splits)
    qed
  next
    case False
    obtain x c1 evs1 where cu: "createOrUpdate cl r c = (x, c1, evs1)" by (metis prod_cases3)
    note o = createOrUpdate_applyOne[OF cu]
    show ?thesis
    proof (cases x)
      case (Inl e)
      with False cu o Cons.prems show ?thesis by auto
    next
      case (Inr h)
      obtain res2 c2 evs2 where rec:
        "applyResources cl step rs (ah \<and> h) c1 = (res2, c2, evs2)"
        by (metis prod_cases3)
      with False cu Inr Cons.prems have "res = res2" by auto
      with Cons.IH[OF rec] o Inr False show ?thesis
        by (auto simp: withoutError_def healthChecksPassed_def split: sum.splits)
    qed
  qed
qed

text \<open>
  C5. For a step whose status is pending, in progress or in error, \<^verbatim>\<open>executeStep\<close> leaves
  the status \<^verbatim>\<open>Complete\<close> exactly when the cluster answered every resource without an
  error (each was applied or deleted) and every health check passed. When every resource
  was applied without an error and some health check failed, the status is left at
  \<^verbatim>\<open>InProgress\<close> and \<^verbatim>\<open>executeStep\<close> returns no error. The error \<^verbatim>\<open>executeStep\<close> returns
  is the failure the cluster answered.
\<close>

theorem executeStep_complete_iff:
  assumes "isInProgress (StepStatus_Status state)"
  shows "(StepStatus_Status (fst (snd (executeStep cl step state resources c)))
            = ExecutionComplete \<longleftrightarrow>
          withoutError (outcomes cl step resources c) resources \<and>
          healthChecksPassed (outcomes cl step resources c))
       \<and> (withoutError (outcomes cl step resources c) resources \<and>
          \<not> healthChecksPassed (outcomes cl step resources c) \<longrightarrow>
          StepStatus_Status (fst (snd (executeStep cl step state resources c)))
            = ExecutionInProgress \<and>
          fst (executeStep cl step state resources c) = None)
       \<and> (\<forall>e. fst (executeStep cl step state resources c) = Some e \<longleftrightarrow>
                Failed e \<in> set (outcomes cl step resources c))"
proof -
  obtain res c' evs where ar: "applyResources cl step resources True c = (res, c', evs)"
    by (metis prod_cases3)
  show ?thesis
  proof (cases res)
    case (Inl e)
    with applyResources_outcomes[OF ar] assms ar show ?thesis
      by (auto simp: executeStep_def Let_def withoutError_def)
  next
    case (Inr b)
    with applyResources_outcomes[OF ar] assms ar show ?thesis
      by (auto simp: executeStep_def Let_def withoutError_def)
  qed
qed

lemma executeStep_example_unhealthy:
  "executeStep (emptyCluster False) exampleStep exampleStepStatus [exampleObject] 0 =
     (None, exampleStepStatus\<lparr>StepStatus_Status := ExecutionInProgress\<rparr>, 1,
      [EvGet (ObjectKeyFromObject exampleObject), EvCreate exampleObject,
       EvIsHealthy exampleObject False])"
  by (simp add: executeStep_def createOrUpdate_def emptyCluster_def exampleStep_def
        exampleStepStatus_def isInProgress_def)

lemma outcomes_example_unhealthy:
  "outcomes (emptyCluster False) exampleStep [exampleObject] 0 = [Applied False]"
  by (simp add: applyOne_def emptyCluster_def exampleStep_def)

theorem executeStep_complete_iff_witness:
  "isInProgress (StepStatus_Status exampleStepStatus)
   \<and> outcomes (emptyCluster False) exampleStep [exampleObject] 0 = [Applied False]
   \<and> withoutError [Applied False] [exampleObject]
   \<and> \<not> healthChecksPassed [Applied False]
   \<and> StepStatus_Status
        (fst (snd (executeStep (emptyCluster False) exampleStep exampleStepStatus
                     [exampleObject] 0))) = ExecutionInProgress
   \<and> fst (executeStep (emptyCluster False) exampleStep exampleStepStatus [exampleObject] 0)
       = None"
proof -
  have p: "isInProgress (StepStatus_Status exampleStepStatus)"
    by (simp add: isInProgress_def exampleStepStatus_def)
  have w: "withoutError [Applied False] [exampleObject]"
    by (simp add: withoutError_def)
  have u: "\<not> healthChecksPassed [Applied False]"
    by (simp add: healthChecksPassed_def)
  from executeStep_complete_iff
         [OF p, of "emptyCluster False" exampleStep "[exampleObject]" 0,
          unfolded outcomes_example_unhealthy, THEN conjunct2, THEN conjunct1] w u
  have "StepStatus_Status
          (fst (snd (executeStep (emptyCluster False) exampleStep exampleStepStatus
                       [exampleObject] 0))) = ExecutionInProgress
        \<and> fst (executeStep (emptyCluster False) exampleStep exampleStepStatus
                 [exampleObject] 0) = None"
    by blast
  with p w u outcomes_example_unhealthy show ?thesis by blast
qed

text \<open>
  C6. \<^verbatim>\<open>patchExistingObject\<close> first issues a strategic merge patch of the existing object
  whose body is the JSON of the new object. A second request is issued exactly when that
  first patch fails with \<^verbatim>\<open>UnsupportedMediaType\<close>; it is a merge patch of the new object
  with the same body, and there is never a third. The error returned is the first error
  when it is not \<^verbatim>\<open>UnsupportedMediaType\<close>, and otherwise the error of the retry. An error
  returned aborts the step: \<^verbatim>\<open>executeStep\<close> returns it, and the patch requests are the
  last requests of the step.
\<close>

theorem patchExistingObject_policy:
  assumes "patchExistingObject cl newResource existingResource c = (err, existing', c', evs)"
      and "Client_Patch cl existingResource StrategicMergePatchType
             (Client_Marshal cl newResource) c = (r1, c1)"
      and "Client_Patch cl newResource MergePatchType (Client_Marshal cl newResource) c1
             = (r2, c2)"
  shows "take 1 evs =
           [EvPatch existingResource StrategicMergePatchType (Client_Marshal cl newResource)]
       \<and> drop 1 evs =
           (if \<exists>e. r1 = Inl e \<and> IsUnsupportedMediaType e
            then [EvPatch newResource MergePatchType (Client_Marshal cl newResource)]
            else [])
       \<and> err =
           (case r1 of
              Inr x \<Rightarrow> None
            | Inl e \<Rightarrow>
                if IsUnsupportedMediaType e
                then (case r2 of Inl e2 \<Rightarrow> Some e2 | Inr y \<Rightarrow> None)
                else Some e)
       \<and> (\<forall>e step state rs.
             err = Some e \<and> \<not> Step_Delete step \<and> isInProgress (StepStatus_Status state) \<and>
             Client_Get cl (ObjectKeyFromObject newResource) newResource c
               = Inr existingResource
             \<longrightarrow> executeStep cl step state (newResource # rs) c =
                   (Some e, state\<lparr>StepStatus_Status := ExecutionInProgress\<rparr>, c',
                    EvGet (ObjectKeyFromObject newResource) # evs))"
  using assms
  by (auto simp: patchExistingObject_def executeStep_def createOrUpdate_def Let_def
           split: prod.splits sum.splits if_splits)

lemma patchExistingObject_example:
  "patchExistingObject crdCluster exampleObject exampleObject 0 =
     (None, exampleObject, 1,
      [EvPatch exampleObject StrategicMergePatchType ''replicas: 1'',
       EvPatch exampleObject MergePatchType ''replicas: 1''])"
  by (simp add: patchExistingObject_def crdCluster_def exampleObject_def Let_def)

theorem patchExistingObject_policy_witness:
  "Client_Patch crdCluster exampleObject StrategicMergePatchType
     (Client_Marshal crdCluster exampleObject) 0
     = (Inl (StatusError StatusReasonUnsupportedMediaType), 0)
   \<and> Client_Patch crdCluster exampleObject MergePatchType
       (Client_Marshal crdCluster exampleObject) 0 = (Inr exampleObject, 1)
   \<and> drop 1 (snd (snd (snd (patchExistingObject crdCluster exampleObject exampleObject 0))))
       = [EvPatch exampleObject MergePatchType (Client_Marshal crdCluster exampleObject)]
   \<and> fst (patchExistingObject crdCluster exampleObject exampleObject 0) = None"
proof -
  have a: "Client_Patch crdCluster exampleObject StrategicMergePatchType
             (Client_Marshal crdCluster exampleObject) 0
           = (Inl (StatusError StatusReasonUnsupportedMediaType), 0)"
    by (simp add: crdCluster_def)
  have b: "Client_Patch crdCluster exampleObject MergePatchType
             (Client_Marshal crdCluster exampleObject) 0 = (Inr exampleObject, 1)"
    by (simp add: crdCluster_def)
  from patchExistingObject_policy [OF patchExistingObject_example a b] a b
  show ?thesis
    by (simp add: patchExistingObject_example)
qed

section \<open>The top-level status after a failed preparation\<close>

text \<open>
  C1. What the code does when \<^verbatim>\<open>prepareKubeResources\<close> fails: every error of the preparer
  is an \<^verbatim>\<open>*executionError\<close>, so \<^verbatim>\<open>errors.As\<close> succeeds whatever the \<^verbatim>\<open>fatal\<close> flag says,
  and the top-level status becomes \<^verbatim>\<open>ExecutionFatalError\<close> for fatal and non-fatal errors
  alike. The status and the error are returned together, and no request is issued.
\<close>

theorem executePlan_prepare_failure_top_level:
  assumes "h (activePlan_PlanStatus plan) = Some status"
      and "\<not> IsTerminal (PlanStatus_Status status)"
      and "prepareKubeResources render renderer plan meta status = PrepareError status' err"
  shows "executePlan render plan meta cl renderer h c =
           (PlanReturn
              (h(activePlan_PlanStatus plan \<mapsto>
                   status'\<lparr>PlanStatus_Status := ExecutionFatalError\<rparr>))
              (activePlan_PlanStatus plan) (Some err), c, [])"
  using assms prepareKubeResources_error [OF assms(3)]
  by (simp add: executePlan_def setTopStatus_def Let_def)

lemma prepare_example_missing_task:
  "prepareKubeResources exampleRender exampleEnhancer
     (examplePlan\<lparr>activePlan_Tasks := Map.empty\<rparr>) exampleMeta examplePlanStatus =
   PrepareError
     \<lparr>PlanStatus_Name = ''deploy'', PlanStatus_Status = ExecutionPending,
      PlanStatus_Phases =
        [\<lparr>PhaseStatus_Name = ''main'', PhaseStatus_Status = ErrorStatus,
          PhaseStatus_Steps =
            [\<lparr>StepStatus_Name = ''srv'', StepStatus_Status = ErrorStatus\<rparr>]\<rparr>]\<rparr>
     (ExecutionError (ErrTaskNotFound ''op-1.0'') False)"
  by (simp add: example_defs engine_defs)

theorem executePlan_prepare_failure_top_level_witness:
  "exampleStore (activePlan_PlanStatus (examplePlan\<lparr>activePlan_Tasks := Map.empty\<rparr>))
     = Some examplePlanStatus
   \<and> \<not> IsTerminal (PlanStatus_Status examplePlanStatus)
   \<and> (case executePlan exampleRender (examplePlan\<lparr>activePlan_Tasks := Map.empty\<rparr>)
              exampleMeta (emptyCluster True) exampleEnhancer exampleStore 0 of
         (PlanReturn h' p err, c, evs) \<Rightarrow>
           map_option PlanStatus_Status (h' p) = Some ExecutionFatalError
           \<and> err = Some (ExecutionError (ErrTaskNotFound ''op-1.0'') False)
       | (PlanPanic, c, evs) \<Rightarrow> False)"
proof -
  have a: "exampleStore (activePlan_PlanStatus (examplePlan\<lparr>activePlan_Tasks := Map.empty\<rparr>))
             = Some examplePlanStatus"
    by (simp add: exampleStore_def examplePlan_def)
  have b: "\<not> IsTerminal (PlanStatus_Status examplePlanStatus)"
    by (simp add: IsTerminal_def examplePlanStatus_def)
  have p: "activePlan_PlanStatus (examplePlan\<lparr>activePlan_Tasks := Map.empty\<rparr>) = 0"
    by (simp add: examplePlan_def)
  from executePlan_prepare_failure_top_level
         [where h = exampleStore and cl = "emptyCluster True" and c = 0,
          OF a b prepare_example_missing_task] a b p
  show ?thesis
    by simp
qed

section \<open>The working copy is the caller's object\<close>

text \<open>
  C9. The pointer \<^verbatim>\<open>executePlan\<close> returns is the pointer \<^verbatim>\<open>plan.PlanStatus\<close> it was
  given, and the tick writes to no other address: the status the caller passed in and the
  status returned are one object, with its phases, its steps and its top-level
  \<^verbatim>\<open>Status\<close> field.
\<close>

theorem executePlan_returns_callers_pointer:
  assumes "executePlan render plan meta cl renderer h c = (PlanReturn h' p err, c', evs)"
  shows "p = activePlan_PlanStatus plan \<and> (\<forall>a. a \<noteq> p \<longrightarrow> h' a = h a)"
  using assms
  by (auto simp: executePlan_def setTopStatus_def Let_def
           split: option.splits if_splits prepared.splits prod.splits phasesResult.splits)

lemma executePlan_example_unhealthy:
  "executePlan exampleRender examplePlan exampleMeta (emptyCluster False) exampleEnhancer
     exampleStore 0 =
   (PlanReturn
      (exampleStore(0 \<mapsto>
         \<lparr>PlanStatus_Name = ''deploy'', PlanStatus_Status = ExecutionInProgress,
          PlanStatus_Phases =
            [\<lparr>PhaseStatus_Name = ''main'', PhaseStatus_Status = ExecutionInProgress,
              PhaseStatus_Steps =
                [\<lparr>StepStatus_Name = ''srv'',
                  StepStatus_Status = ExecutionInProgress\<rparr>]\<rparr>]\<rparr>))
      0 None, 1,
    [EvExecuteStep ''srv'', EvGet (ObjectKeyFromObject exampleObject),
     EvCreate exampleObject, EvIsHealthy exampleObject False])"
  by (simp add: example_defs engine_defs)

theorem executePlan_returns_callers_pointer_witness:
  "map_option PlanStatus_Status (exampleStore (activePlan_PlanStatus examplePlan))
     = Some ExecutionPending
   \<and> (case executePlan exampleRender examplePlan exampleMeta (emptyCluster False)
              exampleEnhancer exampleStore 0 of
         (PlanReturn h' p err, c, evs) \<Rightarrow>
           p = activePlan_PlanStatus examplePlan
           \<and> map_option PlanStatus_Status (h' (activePlan_PlanStatus examplePlan))
               = Some ExecutionInProgress
       | (PlanPanic, c, evs) \<Rightarrow> False)"
proof -
  have a: "activePlan_PlanStatus examplePlan = 0"
    by (simp add: examplePlan_def)
  have b: "map_option PlanStatus_Status (exampleStore 0) = Some ExecutionPending"
    by (simp add: exampleStore_def examplePlanStatus_def)
  from executePlan_returns_callers_pointer [OF executePlan_example_unhealthy] a b
  show ?thesis
    by (simp add: executePlan_example_unhealthy)
qed

section \<open>Serial and parallel phases\<close>

lemma andFinished_andFinished [simp]:
  "andFinished a (andFinished b r) = andFinished (a \<and> b) r"
  by (cases r) auto

lemma andFinished_True [simp]: "andFinished True r = r"
  by (cases r) auto

lemma executeSteps_parallel_each:
  assumes "Phase_Strategy ph = Parallel"
  shows "executeSteps cl ph pr steps ah p c =
           (case executeEach cl (Phase_Name ph) pr steps p c of
              (r, c', evs) \<Rightarrow> (andFinished ah r, c', evs))"
proof (induction steps arbitrary: ah p c)
  case Nil
  show ?case by simp
next
  case (Cons st rest)
  show ?case
    using assms
    by (auto simp: Cons.IH Let_def split: option.splits prod.splits)
qed

lemma executeSteps_serial_each:
  assumes "Phase_Strategy ph = Serial"
  shows "\<exists>k\<le>length steps.
           executeSteps cl ph pr steps True p c
             = executeEach cl (Phase_Name ph) pr (take k steps) p c
           \<and> (\<forall>m<k. allComplete (executeEach cl (Phase_Name ph) pr (take m steps) p c))
           \<and> (k < length steps \<longrightarrow>
                \<not> allComplete (executeEach cl (Phase_Name ph) pr (take k steps) p c))"
proof (induction steps arbitrary: p c)
  case Nil
  show ?case by simp
next
  case (Cons st rest)
  let ?n = "Phase_Name ph"
  have zero: "allComplete (executeEach cl ?n pr (take 0 (st # rest)) p c)" by simp
  show ?case
  proof (cases "getStepFromStatus (Step_Name st) p")
    case None
    then have "executeSteps cl ph pr (st # rest) True p c
                 = executeEach cl ?n pr (take 1 (st # rest)) p c"
      and "\<not> allComplete (executeEach cl ?n pr (take 1 (st # rest)) p c)"
      by simp_all
    with zero show ?thesis
      by (intro exI[of _ 1]) (auto simp: less_Suc_eq)
  next
    case (Some j)
    obtain err e c1 evs where ex:
      "executeStep cl st (PhaseStatus_Steps p ! j) (resourcesOf pr ?n (Step_Name st)) c
         = (err, e, c1, evs)"
      by (metis prod_cases4)
    show ?thesis
    proof (cases "err = None \<and> isFinished (StepStatus_Status e)")
      case False
      with Some ex assms
      have "executeSteps cl ph pr (st # rest) True p c
                 = executeEach cl ?n pr (take 1 (st # rest)) p c"
        and "\<not> allComplete (executeEach cl ?n pr (take 1 (st # rest)) p c)"
        by (auto simp: Let_def split: option.splits)
      with zero show ?thesis
        by (intro exI[of _ 1]) (auto simp: less_Suc_eq)
    next
      case True
      let ?p1 = "p\<lparr>PhaseStatus_Steps := (PhaseStatus_Steps p)[j := e]\<rparr>"
      from Cons.IH[of ?p1 c1] obtain k where k: "k \<le> length rest"
        and eq: "executeSteps cl ph pr rest True ?p1 c1
                   = executeEach cl ?n pr (take k rest) ?p1 c1"
        and before: "\<forall>m<k. allComplete (executeEach cl ?n pr (take m rest) ?p1 c1)"
        and stop: "k < length rest \<longrightarrow>
                     \<not> allComplete (executeEach cl ?n pr (take k rest) ?p1 c1)"
        by blast
      have step: "\<And>xs. executeEach cl ?n pr (st # xs) p c =
                    (case executeEach cl ?n pr xs ?p1 c1 of
                       (r, c2, evs2) \<Rightarrow> (r, c2, EvExecuteStep (Step_Name st) # evs @ evs2))"
        using Some ex True by (simp split: prod.splits)
      have ac: "\<And>xs. allComplete (executeEach cl ?n pr (st # xs) p c)
                     = allComplete (executeEach cl ?n pr xs ?p1 c1)"
        unfolding step by (simp split: prod.splits) (metis allComplete.simps prod_cases3 stepsResult.exhaust)
      have "executeSteps cl ph pr (st # rest) True p c
              = executeEach cl ?n pr (take (Suc k) (st # rest)) p c"
      proof -
        have "executeSteps cl ph pr (st # rest) True p c =
                (case executeSteps cl ph pr rest True ?p1 c1 of
                   (r, c2, evs2) \<Rightarrow> (r, c2, EvExecuteStep (Step_Name st) # evs @ evs2))"
          using Some ex True by (simp add: Let_def)
        also have "\<dots> = executeEach cl ?n pr (st # take k rest) p c"
          by (simp only: eq step)
        finally show ?thesis by (simp del: executeEach.simps executeSteps.simps)
      qed
      moreover have "\<forall>m<Suc k. allComplete (executeEach cl ?n pr (take m (st # rest)) p c)"
      proof (intro allI impI)
        fix m assume "m < Suc k"
        then show "allComplete (executeEach cl ?n pr (take m (st # rest)) p c)"
        proof (cases m)
          case 0
          with zero show ?thesis by simp
        next
          case (Suc m')
          with \<open>m < Suc k\<close> before
          have "allComplete (executeEach cl ?n pr (take m' rest) ?p1 c1)" by simp
          then have "allComplete (executeEach cl ?n pr (st # take m' rest) p c)"
            by (simp add: ac del: executeEach.simps)
          with Suc show ?thesis by (simp del: executeEach.simps)
        qed
      qed
      moreover have "Suc k < length (st # rest) \<longrightarrow>
                       \<not> allComplete (executeEach cl ?n pr (take (Suc k) (st # rest)) p c)"
      proof
        assume "Suc k < length (st # rest)"
        with stop have "\<not> allComplete (executeEach cl ?n pr (take k rest) ?p1 c1)" by simp
        then have "\<not> allComplete (executeEach cl ?n pr (st # take k rest) p c)"
          by (simp add: ac del: executeEach.simps)
        then show "\<not> allComplete (executeEach cl ?n pr (take (Suc k) (st # rest)) p c)"
          by (simp del: executeEach.simps)
      qed
      ultimately show ?thesis using k
        by (intro exI[of _ "Suc k"]) simp
    qed
  qed
qed

lemma executeEach_executes_all:
  "executeEach cl n pr steps p c = (StepsDone a p', c', evs) \<Longrightarrow>
     executedSteps evs = map Step_Name steps"
proof (induction steps arbitrary: p c a p' c' evs)
  case Nil
  then show ?case by auto
next
  case (Cons st rest)
  from Cons.prems obtain j e c1 evs1 r evs2 where
    ex: "executeStep cl st (PhaseStatus_Steps p ! j) (resourcesOf pr n (Step_Name st)) c
           = (None, e, c1, evs1)"
    and rec: "executeEach cl n pr rest
                (p\<lparr>PhaseStatus_Steps := (PhaseStatus_Steps p)[j := e]\<rparr>) c1 = (r, c', evs2)"
    and r: "andFinished (isFinished (StepStatus_Status e)) r = StepsDone a p'"
    and evs: "evs = EvExecuteStep (Step_Name st) # evs1 @ evs2"
    by (auto split: option.splits prod.splits)
  from r obtain b where "r = StepsDone b p'" by (cases r) auto
  with Cons.IH rec have "executedSteps evs2 = map Step_Name rest" by blast
  with evs executeStep_no_step_event[OF ex] show ?case by simp
qed

text \<open>
  C4, as the code has it. The step loop of \<^verbatim>\<open>executePlan\<close> for one phase. In a
  \<^verbatim>\<open>Serial\<close> phase the loop does what executing the first \<open>k\<close> steps does, where the
  \<open>k\<close>-th step is the first that is not \<^verbatim>\<open>Complete\<close> after its execution (or \<open>k\<close> is the
  number of steps when there is none): every shorter prefix ends with all its steps
  \<^verbatim>\<open>Complete\<close>, and no step after the \<open>k\<close>-th is executed, so the loop issues no request
  for it. In a \<^verbatim>\<open>Parallel\<close> phase the loop does what executing every step does, whatever
  the completion of the earlier steps; the steps executed are all the steps of the phase
  unless the execution of one of them returns an error (or finds no status entry), which
  ends the tick.
\<close>

theorem executeSteps_strategy:
  "(Phase_Strategy ph = Serial \<longrightarrow>
      (\<exists>k\<le>length steps.
         executeSteps cl ph pr steps True p c
           = executeEach cl (Phase_Name ph) pr (take k steps) p c
         \<and> (\<forall>m<k. allComplete (executeEach cl (Phase_Name ph) pr (take m steps) p c))
         \<and> (k < length steps \<longrightarrow>
              \<not> allComplete (executeEach cl (Phase_Name ph) pr (take k steps) p c))))
   \<and> (Phase_Strategy ph = Parallel \<longrightarrow>
        executeSteps cl ph pr steps True p c = executeEach cl (Phase_Name ph) pr steps p c
        \<and> (\<forall>a p' c' evs.
              executeSteps cl ph pr steps True p c = (StepsDone a p', c', evs) \<longrightarrow>
              executedSteps evs = map Step_Name steps))"
proof (intro conjI impI allI)
  assume "Phase_Strategy ph = Serial"
  then show "\<exists>k\<le>length steps.
         executeSteps cl ph pr steps True p c
           = executeEach cl (Phase_Name ph) pr (take k steps) p c
         \<and> (\<forall>m<k. allComplete (executeEach cl (Phase_Name ph) pr (take m steps) p c))
         \<and> (k < length steps \<longrightarrow>
              \<not> allComplete (executeEach cl (Phase_Name ph) pr (take k steps) p c))"
    by (rule executeSteps_serial_each)
next
  assume par: "Phase_Strategy ph = Parallel"
  show eq: "executeSteps cl ph pr steps True p c = executeEach cl (Phase_Name ph) pr steps p c"
    by (simp add: executeSteps_parallel_each[OF par] split: prod.splits)
  fix a p' c' evs
  assume "executeSteps cl ph pr steps True p c = (StepsDone a p', c', evs)"
  with eq have "executeEach cl (Phase_Name ph) pr steps p c = (StepsDone a p', c', evs)"
    by simp
  then show "executedSteps evs = map Step_Name steps"
    by (rule executeEach_executes_all)
qed

lemma executeSteps_example_serial:
  "executeSteps (emptyCluster False) (twoStepPhase Serial) twoStepResources
     (Phase_Steps (twoStepPhase Serial)) True twoStepStatus 0 =
   (StepsDone False
      (twoStepStatus\<lparr>PhaseStatus_Steps :=
         [\<lparr>StepStatus_Name = ''first'', StepStatus_Status = ExecutionInProgress\<rparr>,
          \<lparr>StepStatus_Name = ''second'', StepStatus_Status = ExecutionPending\<rparr>]\<rparr>),
    1,
    [EvExecuteStep ''first'', EvGet (ObjectKeyFromObject exampleObject),
     EvCreate exampleObject, EvIsHealthy exampleObject False])"
  by (simp add: example_defs engine_defs)

lemma executeSteps_example_parallel:
  "executeSteps (emptyCluster False) (twoStepPhase Parallel) twoStepResources
     (Phase_Steps (twoStepPhase Parallel)) True twoStepStatus 0 =
   (StepsDone False
      (twoStepStatus\<lparr>PhaseStatus_Steps :=
         [\<lparr>StepStatus_Name = ''first'', StepStatus_Status = ExecutionInProgress\<rparr>,
          \<lparr>StepStatus_Name = ''second'', StepStatus_Status = ExecutionInProgress\<rparr>]\<rparr>),
    2,
    [EvExecuteStep ''first'', EvGet (ObjectKeyFromObject exampleObject),
     EvCreate exampleObject, EvIsHealthy exampleObject False,
     EvExecuteStep ''second'', EvGet (ObjectKeyFromObject exampleObject),
     EvCreate exampleObject, EvIsHealthy exampleObject False])"
  by (simp add: example_defs engine_defs)

lemma executeEach_example_first:
  "executeEach (emptyCluster False) ''main'' twoStepResources
     (take 1 (Phase_Steps (twoStepPhase Serial))) twoStepStatus 0 =
   (StepsDone False
      (twoStepStatus\<lparr>PhaseStatus_Steps :=
         [\<lparr>StepStatus_Name = ''first'', StepStatus_Status = ExecutionInProgress\<rparr>,
          \<lparr>StepStatus_Name = ''second'', StepStatus_Status = ExecutionPending\<rparr>]\<rparr>),
    1,
    [EvExecuteStep ''first'', EvGet (ObjectKeyFromObject exampleObject),
     EvCreate exampleObject, EvIsHealthy exampleObject False])"
  by (simp add: example_defs engine_defs)

theorem executeSteps_strategy_witness:
  "Phase_Strategy (twoStepPhase Serial) = Serial
   \<and> executeSteps (emptyCluster False) (twoStepPhase Serial) twoStepResources
       (Phase_Steps (twoStepPhase Serial)) True twoStepStatus 0
     = executeEach (emptyCluster False) ''main'' twoStepResources
         (take 1 (Phase_Steps (twoStepPhase Serial))) twoStepStatus 0
   \<and> executedSteps
       (snd (snd (executeSteps (emptyCluster False) (twoStepPhase Serial) twoStepResources
                    (Phase_Steps (twoStepPhase Serial)) True twoStepStatus 0))) = [''first'']
   \<and> Phase_Strategy (twoStepPhase Parallel) = Parallel
   \<and> executeSteps (emptyCluster False) (twoStepPhase Parallel) twoStepResources
       (Phase_Steps (twoStepPhase Parallel)) True twoStepStatus 0
     = executeEach (emptyCluster False) (Phase_Name (twoStepPhase Parallel)) twoStepResources
         (Phase_Steps (twoStepPhase Parallel)) twoStepStatus 0
   \<and> executedSteps
       (snd (snd (executeSteps (emptyCluster False) (twoStepPhase Parallel) twoStepResources
                    (Phase_Steps (twoStepPhase Parallel)) True twoStepStatus 0)))
     = [''first'', ''second'']"
proof -
  have s: "Phase_Strategy (twoStepPhase Serial) = Serial"
    and p: "Phase_Strategy (twoStepPhase Parallel) = Parallel"
    by (simp_all add: twoStepPhase_def)
  have names: "map Step_Name (Phase_Steps (twoStepPhase Parallel)) = [''first'', ''second'']"
    by (simp add: twoStepPhase_def)
  note par = executeSteps_strategy
    [of "twoStepPhase Parallel" "Phase_Steps (twoStepPhase Parallel)" "emptyCluster False"
        twoStepResources twoStepStatus 0, THEN conjunct2, rule_format, OF p]
  have a: "executeSteps (emptyCluster False) (twoStepPhase Parallel) twoStepResources
       (Phase_Steps (twoStepPhase Parallel)) True twoStepStatus 0
     = executeEach (emptyCluster False) (Phase_Name (twoStepPhase Parallel)) twoStepResources
         (Phase_Steps (twoStepPhase Parallel)) twoStepStatus 0"
    using par by blast
  have b: "executedSteps
       (snd (snd (executeSteps (emptyCluster False) (twoStepPhase Parallel) twoStepResources
                    (Phase_Steps (twoStepPhase Parallel)) True twoStepStatus 0)))
     = [''first'', ''second'']"
    using par[THEN conjunct2, rule_format, OF executeSteps_example_parallel] names
    by (simp add: executeSteps_example_parallel)
  have n: "Phase_Name (twoStepPhase Serial) = ''main''"
    and len: "length (Phase_Steps (twoStepPhase Serial)) = 2"
    by (simp_all add: twoStepPhase_def)
  have e0: "allComplete (executeEach (emptyCluster False) ''main'' twoStepResources
              (take 0 (Phase_Steps (twoStepPhase Serial))) twoStepStatus 0)"
    by simp
  have e1: "\<not> allComplete (executeEach (emptyCluster False) ''main'' twoStepResources
              (take 1 (Phase_Steps (twoStepPhase Serial))) twoStepStatus 0)"
    unfolding executeEach_example_first by simp
  from executeSteps_strategy
    [of "twoStepPhase Serial" "Phase_Steps (twoStepPhase Serial)" "emptyCluster False"
        twoStepResources twoStepStatus 0, THEN conjunct1, rule_format, OF s, unfolded n len]
  obtain k where
    eq: "executeSteps (emptyCluster False) (twoStepPhase Serial) twoStepResources
           (Phase_Steps (twoStepPhase Serial)) True twoStepStatus 0
         = executeEach (emptyCluster False) ''main'' twoStepResources
             (take k (Phase_Steps (twoStepPhase Serial))) twoStepStatus 0"
    and before: "\<forall>m<k. allComplete (executeEach (emptyCluster False) ''main''
             twoStepResources (take m (Phase_Steps (twoStepPhase Serial))) twoStepStatus 0)"
    and stop: "k < 2 \<longrightarrow> \<not> allComplete (executeEach (emptyCluster False) ''main''
             twoStepResources (take k (Phase_Steps (twoStepPhase Serial))) twoStepStatus 0)"
    by blast
  from before e1 have "\<not> 1 < k" by blast
  moreover from stop e0 have "k \<noteq> 0" by (cases "k = 0") simp_all
  ultimately have "k = 1" by simp
  with eq have c: "executeSteps (emptyCluster False) (twoStepPhase Serial) twoStepResources
       (Phase_Steps (twoStepPhase Serial)) True twoStepStatus 0
     = executeEach (emptyCluster False) ''main'' twoStepResources
         (take 1 (Phase_Steps (twoStepPhase Serial))) twoStepStatus 0"
    by simp
  have d: "executedSteps
       (snd (snd (executeSteps (emptyCluster False) (twoStepPhase Serial) twoStepResources
                    (Phase_Steps (twoStepPhase Serial)) True twoStepStatus 0))) = [''first'']"
    by (simp add: executeSteps_example_serial)
  from s c d p a b show ?thesis by blast
qed

text \<open>
  The claim as the spec states it fails in a parallel phase whose first step gets an error
  from the cluster: the loop returns the error and the second step is not executed. It
  fails too when the first step has no status entry: the loop panics before any step is
  executed.
\<close>

theorem executeSteps_parallel_counterexample:
  "Phase_Strategy (twoStepPhase Parallel) = Parallel
   \<and> map Step_Name (Phase_Steps (twoStepPhase Parallel)) = [''first'', ''second'']
   \<and> executeSteps failingCluster (twoStepPhase Parallel) twoStepResources
       (Phase_Steps (twoStepPhase Parallel)) True twoStepStatus 0 =
     (StepsError
        \<lparr>PhaseStatus_Name = ''main'', PhaseStatus_Status = ErrorStatus,
         PhaseStatus_Steps =
           [\<lparr>StepStatus_Name = ''first'', StepStatus_Status = ErrorStatus\<rparr>,
            \<lparr>StepStatus_Name = ''second'', StepStatus_Status = ExecutionPending\<rparr>]\<rparr>
        (StatusError (StatusReasonOther ''InternalError'')),
      0, [EvExecuteStep ''first'', EvGet (ObjectKeyFromObject exampleObject)])
   \<and> executedSteps [EvExecuteStep ''first'', EvGet (ObjectKeyFromObject exampleObject)]
       = [''first'']
   \<and> executeSteps (emptyCluster True) (twoStepPhase Parallel) twoStepResources
       (Phase_Steps (twoStepPhase Parallel)) True
       (twoStepStatus\<lparr>PhaseStatus_Steps :=
          [\<lparr>StepStatus_Name = ''second'', StepStatus_Status = ExecutionPending\<rparr>]\<rparr>) 0
     = (StepsPanic, 0, [])"
  by (simp add: example_defs engine_defs)

section \<open>Nil pointers\<close>

text \<open>
  C10. \<^verbatim>\<open>executePlan\<close> and \<^verbatim>\<open>prepareKubeResources\<close> drop the errors of
  \<^verbatim>\<open>getPhaseFromStatus\<close> and \<^verbatim>\<open>getStepFromStatus\<close> and dereference the pointers. When
  every phase named in the plan has exactly one entry of its name in the plan status, and
  every step of the phase exactly one entry of its name in that phase status, every lookup
  of a phase and of a step of the plan succeeds, the preparer does not dereference nil, and
  the tick does not panic.
\<close>

theorem executePlan_no_nil_dereference:
  assumes "h (activePlan_PlanStatus plan) = Some s"
      and "statusCoversPlan (activePlan_Spec plan) s"
  shows "lookupsSucceed (Plan_Phases (activePlan_Spec plan)) s
       \<and> prepareKubeResources render renderer plan meta s \<noteq> NilDereference
       \<and> fst (executePlan render plan meta cl renderer h c) \<noteq> PlanPanic"
proof -
  have ok: "lookupsSucceed (Plan_Phases (activePlan_Spec plan)) s"
    using statusCoversPlan_lookups[OF assms(2)] .
  have prep: "prepareKubeResources render renderer plan meta s \<noteq> NilDereference"
    unfolding prepareKubeResources_def by (rule preparePhases_no_panic[OF ok])
  have "fst (executePlan render plan meta cl renderer h c) \<noteq> PlanPanic"
  proof (cases "prepareKubeResources render renderer plan meta s")
    case NilDereference with prep show ?thesis by simp
  next
    case (PrepareError s' err)
    with assms(1) show ?thesis
      by (simp add: executePlan_def Let_def)
  next
    case (Prepared pr)
    obtain r c1 evs where ex:
      "executePhases cl pr (Plan_Phases (activePlan_Spec plan)) s c = (r, c1, evs)"
      by (metis prod_cases3)
    from executePhases_no_panic[OF ok ex] have "r \<noteq> PhasesPanic" .
    with assms(1) Prepared ex show ?thesis
      by (cases r) (simp_all add: executePlan_def Let_def)
  qed
  with ok prep show ?thesis by simp
qed

theorem executePlan_no_nil_dereference_witness:
  "exampleStore (activePlan_PlanStatus examplePlan) = Some examplePlanStatus
   \<and> statusCoversPlan (activePlan_Spec examplePlan) examplePlanStatus
   \<and> fst (executePlan exampleRender examplePlan exampleMeta (emptyCluster False)
             exampleEnhancer exampleStore 0) \<noteq> PlanPanic"
proof -
  have a: "exampleStore (activePlan_PlanStatus examplePlan) = Some examplePlanStatus"
    by (simp add: exampleStore_def examplePlan_def)
  have b: "statusCoversPlan (activePlan_Spec examplePlan) examplePlanStatus"
    by (simp add: statusCoversPlan_def example_defs)
  from executePlan_no_nil_dereference
         [where h = exampleStore and plan = examplePlan and render = exampleRender
            and renderer = exampleEnhancer and meta = exampleMeta
            and cl = "emptyCluster False" and c = 0, OF a b] a b
  show ?thesis by simp
qed

section \<open>Two ticks in a row\<close>

subsection \<open>On a cluster that the writes leave as it is\<close>


subsection \<open>On a cluster whose answers the writes do not change\<close>




lemma frozen_simps [simp]:
  "Client_Get (frozen cl) = Client_Get cl"
  "Client_IsHealthy (frozen cl) = Client_IsHealthy cl"
  "Client_Marshal (frozen cl) = Client_Marshal cl"
  by (simp_all add: frozen_def)
























section \<open>Missing tasks and missing templates\<close>

lemma prepare_missing_task:
  assumes "Plan_Phases (activePlan_Spec plan) = phs1 @ ph # phs2"
      and "preparePhases render renderer plan meta s phs1 Map.empty = Prepared r1"
      and "getPhaseFromStatus (Phase_Name ph) s = Some i"
      and "Phase_Steps ph = sts1 @ st # sts2"
      and "prepareSteps render renderer plan meta ph s (Some i) 0 sts1 Map.empty = Prepared r2"
      and "getStepFromStatus (Step_Name st) (phaseAt s i) = Some j"
      and "Step_Tasks st = ts1 @ t # ts2"
      and "prepareTasks render renderer plan meta ph st
             (stepConfigs plan meta ph st (length sts1)) s i (Some j) ts1 [] = Prepared r3"
      and "activePlan_Tasks plan t = None"
  shows "prepareKubeResources render renderer plan meta s =
           PrepareError (markFailed s i j ErrorStatus)
             (ExecutionError (ErrTaskNotFound (operatorVersionName meta)) False)"
proof (rule prepare_reaches [OF assms(1,2,3,4,5,7)])
  show "prepareTasks render renderer plan meta ph st
          (stepConfigs plan meta ph st (length sts1)) s i
          (getStepFromStatus (Step_Name st) (phaseAt s i)) ts1 [] = Prepared r3"
    using assms(6,8) by simp
  show "prepareTasks render renderer plan meta ph st
          (stepConfigs plan meta ph st (length sts1)) s i
          (getStepFromStatus (Step_Name st) (phaseAt s i)) (t # ts2) r3 =
        PrepareError (markFailed s i j ErrorStatus)
          (ExecutionError (ErrTaskNotFound (operatorVersionName meta)) False)"
    using assms(6) prepareTasks_missing_task [OF assms(9)] by simp
qed

lemma prepare_missing_template:
  assumes "Plan_Phases (activePlan_Spec plan) = phs1 @ ph # phs2"
      and "preparePhases render renderer plan meta s phs1 Map.empty = Prepared r1"
      and "getPhaseFromStatus (Phase_Name ph) s = Some i"
      and "Phase_Steps ph = sts1 @ st # sts2"
      and "prepareSteps render renderer plan meta ph s (Some i) 0 sts1 Map.empty = Prepared r2"
      and "getStepFromStatus (Step_Name st) (phaseAt s i) = Some j"
      and "Step_Tasks st = ts1 @ t # ts2"
      and "prepareTasks render renderer plan meta ph st
             (stepConfigs plan meta ph st (length sts1)) s i (Some j) ts1 [] = Prepared r3"
      and "activePlan_Tasks plan t = Some taskSpec"
      and "TaskSpec_Resources taskSpec = rs1 @ res # rs2"
      and "renderResources render plan meta (stepConfigs plan meta ph st (length sts1))
             s i (Some j) rs1 [] = Prepared a"
      and "activePlan_Templates plan res = None"
  shows "prepareKubeResources render renderer plan meta s =
           PrepareError (markFailed s i j ExecutionFatalError)
             (ExecutionError (ErrResourceNotFound res (operatorVersionName meta)) True)"
proof (rule prepare_reaches [OF assms(1,2,3,4,5,7)])
  show "prepareTasks render renderer plan meta ph st
          (stepConfigs plan meta ph st (length sts1)) s i
          (getStepFromStatus (Step_Name st) (phaseAt s i)) ts1 [] = Prepared r3"
    using assms(6,8) by simp
  show "prepareTasks render renderer plan meta ph st
          (stepConfigs plan meta ph st (length sts1)) s i
          (getStepFromStatus (Step_Name st) (phaseAt s i)) (t # ts2) r3 =
        PrepareError (markFailed s i j ExecutionFatalError)
          (ExecutionError (ErrResourceNotFound res (operatorVersionName meta)) True)"
    using assms(6) prepareTasks_missing_template [OF assms(9,10,11,12)] by simp
qed

text \<open>
  C2, as the code has it. The preparer walks phases, steps and tasks in order. When it
  reaches task \<open>t\<close> of step \<open>st\<close> of phase \<open>ph\<close> (everything before it was prepared) and
  \<open>t\<close> is absent from the task catalog, it marks the phase status and the step status
  \<^verbatim>\<open>ErrorStatus\<close> and returns a non-fatal execution error. When \<open>t\<close> is in the catalog and
  names a resource key absent from the template catalog (the keys before it were
  rendered), it marks both \<^verbatim>\<open>ExecutionFatalError\<close> and returns a fatal execution error.
\<close>

theorem prepareKubeResources_missing_reference:
  assumes "Plan_Phases (activePlan_Spec plan) = phs1 @ ph # phs2"
      and "preparePhases render renderer plan meta s phs1 Map.empty = Prepared r1"
      and "getPhaseFromStatus (Phase_Name ph) s = Some i"
      and "Phase_Steps ph = sts1 @ st # sts2"
      and "prepareSteps render renderer plan meta ph s (Some i) 0 sts1 Map.empty = Prepared r2"
      and "getStepFromStatus (Step_Name st) (phaseAt s i) = Some j"
      and "Step_Tasks st = ts1 @ t # ts2"
      and "prepareTasks render renderer plan meta ph st
             (stepConfigs plan meta ph st (length sts1)) s i (Some j) ts1 [] = Prepared r3"
  shows "(activePlan_Tasks plan t = None \<longrightarrow>
            prepareKubeResources render renderer plan meta s =
              PrepareError (markFailed s i j ErrorStatus)
                (ExecutionError (ErrTaskNotFound (operatorVersionName meta)) False)
            \<and> PhaseStatus_Status (phaseAt (markFailed s i j ErrorStatus) i) = ErrorStatus
            \<and> StepStatus_Status (stepAt (markFailed s i j ErrorStatus) i j) = ErrorStatus)
       \<and> (\<forall>taskSpec rs1 res rs2 a.
            activePlan_Tasks plan t = Some taskSpec \<and>
            TaskSpec_Resources taskSpec = rs1 @ res # rs2 \<and>
            renderResources render plan meta (stepConfigs plan meta ph st (length sts1))
              s i (Some j) rs1 [] = Prepared a \<and>
            activePlan_Templates plan res = None \<longrightarrow>
            prepareKubeResources render renderer plan meta s =
              PrepareError (markFailed s i j ExecutionFatalError)
                (ExecutionError (ErrResourceNotFound res (operatorVersionName meta)) True)
            \<and> PhaseStatus_Status (phaseAt (markFailed s i j ExecutionFatalError) i)
                = ExecutionFatalError
            \<and> StepStatus_Status (stepAt (markFailed s i j ExecutionFatalError) i j)
                = ExecutionFatalError)"
  using prepare_missing_task [OF assms] prepare_missing_template [OF assms]
        marked_statuses [OF assms(3,6)]
  by blast

lemma missing_task_reached:
  "Plan_Phases (activePlan_Spec missingTaskPlan) = [] @ examplePhase # []"
  "preparePhases exampleRender exampleEnhancer missingTaskPlan exampleMeta examplePlanStatus []
     Map.empty = Prepared Map.empty"
  "getPhaseFromStatus (Phase_Name examplePhase) examplePlanStatus = Some 0"
  "Phase_Steps examplePhase = [] @ exampleStep # []"
  "prepareSteps exampleRender exampleEnhancer missingTaskPlan exampleMeta examplePhase
     examplePlanStatus (Some 0) 0 [] Map.empty = Prepared Map.empty"
  "getStepFromStatus (Step_Name exampleStep) (phaseAt examplePlanStatus 0) = Some 0"
  "Step_Tasks exampleStep = [] @ ''deploy-task'' # []"
  "prepareTasks exampleRender exampleEnhancer missingTaskPlan exampleMeta examplePhase
     exampleStep (stepConfigs missingTaskPlan exampleMeta examplePhase exampleStep (length []))
     examplePlanStatus 0 (Some 0) [] [] = Prepared []"
  "activePlan_Tasks missingTaskPlan ''deploy-task'' = None"
  by (simp_all add: example_defs engine_defs)

theorem prepareKubeResources_missing_reference_witness:
  "activePlan_Tasks missingTaskPlan ''deploy-task'' = None
   \<and> prepareKubeResources exampleRender exampleEnhancer missingTaskPlan exampleMeta
       examplePlanStatus =
       PrepareError (markFailed examplePlanStatus 0 0 ErrorStatus)
         (ExecutionError (ErrTaskNotFound (operatorVersionName exampleMeta)) False)
   \<and> PhaseStatus_Status (phaseAt (markFailed examplePlanStatus 0 0 ErrorStatus) 0)
       = ErrorStatus
   \<and> StepStatus_Status (stepAt (markFailed examplePlanStatus 0 0 ErrorStatus) 0 0)
       = ErrorStatus"
  using prepareKubeResources_missing_reference [OF missing_task_reached(1-8)]
        missing_task_reached(9)
  by blast

text \<open>
  The claim as the spec states it fails for the missing template: on the plan whose
  template catalog is empty, phase and step are marked \<^verbatim>\<open>ExecutionFatalError\<close>, not
  \<^verbatim>\<open>ErrorStatus\<close>, and the error returned is fatal.
\<close>

theorem prepareKubeResources_missing_template_counterexample:
  "activePlan_Tasks missingTemplatePlan ''deploy-task''
     = Some \<lparr>TaskSpec_Resources = [''deployment.yaml'']\<rparr>
   \<and> activePlan_Templates missingTemplatePlan ''deployment.yaml'' = None
   \<and> prepareKubeResources exampleRender exampleEnhancer missingTemplatePlan exampleMeta
       examplePlanStatus =
       PrepareError
         \<lparr>PlanStatus_Name = ''deploy'', PlanStatus_Status = ExecutionPending,
          PlanStatus_Phases =
            [\<lparr>PhaseStatus_Name = ''main'', PhaseStatus_Status = ExecutionFatalError,
              PhaseStatus_Steps =
                [\<lparr>StepStatus_Name = ''srv'',
                  StepStatus_Status = ExecutionFatalError\<rparr>]\<rparr>]\<rparr>
         (ExecutionError (ErrResourceNotFound ''deployment.yaml'' ''op-1.0'') True)
   \<and> ExecutionFatalError \<noteq> ErrorStatus"
  by (simp add: example_defs engine_defs)

section \<open>Fatal and transient failures of a tick\<close>

lemma executePlan_missing_template:
  assumes "h (activePlan_PlanStatus plan) = Some s"
      and "\<not> IsTerminal (PlanStatus_Status s)"
      and "prepareKubeResources render renderer plan meta s =
             PrepareError (markFailed s i j ExecutionFatalError)
               (ExecutionError (ErrResourceNotFound res (operatorVersionName meta)) True)"
  shows "executePlan render plan meta cl renderer h c =
           (PlanReturn
              (h(activePlan_PlanStatus plan \<mapsto>
                   (markFailed s i j ExecutionFatalError)
                     \<lparr>PlanStatus_Status := ExecutionFatalError\<rparr>))
              (activePlan_PlanStatus plan)
              (Some (ExecutionError (ErrResourceNotFound res (operatorVersionName meta)) True)),
            c, [])"
  using assms by (simp add: executePlan_def setTopStatus_def Let_def)

lemma executePlan_api_error:
  assumes "h (activePlan_PlanStatus plan) = Some s"
      and "prepareKubeResources render renderer plan meta s = Prepared pr"
      and "executePlan render plan meta cl renderer h c = (PlanReturn h' p (Some err), c', evs)"
  shows "\<exists>s'. h' p = Some s' \<and> noNewFatal s s' \<and>
           PlanStatus_Status s' = ExecutionInProgress \<and>
           (\<exists>ph st i j.
              ph \<in> set (Plan_Phases (activePlan_Spec plan)) \<and>
              st \<in> set (Phase_Steps ph) \<and>
              getPhaseFromStatus (Phase_Name ph) s' = Some i \<and>
              getStepFromStatus (Step_Name st) (phaseAt s' i) = Some j \<and>
              PhaseStatus_Status (phaseAt s' i) = ErrorStatus \<and>
              StepStatus_Status (stepAt s' i j) = ErrorStatus)"
proof -
  from assms(3,1) have nt: "\<not> IsTerminal (PlanStatus_Status s)"
    by (auto simp: executePlan_def split: if_splits)
  obtain r c1 evs1 where ex:
    "executePhases cl pr (Plan_Phases (activePlan_Spec plan)) s c = (r, c1, evs1)"
    by (metis prod_cases3)
  from assms nt ex obtain s' where r: "r = PhasesError s' err" and h': "h' p = Some s'"
    by (cases r) (auto simp: executePlan_def Let_def split: if_splits)
  from executePhases_noNewFatal [OF ex] r have "noNewFatal s s'" by simp
  with executePhases_error_marks [OF ex [unfolded r]] h' show ?thesis by blast
qed

text \<open>
  C3, as the code has it. A tick on a non-terminal plan whose preparation reaches a task
  that names a resource key absent from the template catalog (the phase and the step have
  their entries in the plan status and everything before the key was prepared) returns a
  fatal
  execution error and leaves \<^verbatim>\<open>ExecutionFatalError\<close> on the status of the phase, on the
  status of the step and on the top-level status; the tick issues no request to the
  cluster. A tick whose preparation succeeds and which returns an error (the error of a
  cluster request of some step) leaves \<^verbatim>\<open>ErrorStatus\<close> on that step and on its phase, the
  top-level status in progress, and no status fatal that was not fatal before the tick.
\<close>

theorem executePlan_fatal_classification:
  "(h (activePlan_PlanStatus plan) = Some s \<and> \<not> IsTerminal (PlanStatus_Status s) \<and>
    Plan_Phases (activePlan_Spec plan) = phs1 @ ph # phs2 \<and>
    preparePhases render renderer plan meta s phs1 Map.empty = Prepared r1 \<and>
    getPhaseFromStatus (Phase_Name ph) s = Some i \<and>
    Phase_Steps ph = sts1 @ st # sts2 \<and>
    prepareSteps render renderer plan meta ph s (Some i) 0 sts1 Map.empty = Prepared r2 \<and>
    getStepFromStatus (Step_Name st) (phaseAt s i) = Some j \<and>
    Step_Tasks st = ts1 @ t # ts2 \<and>
    prepareTasks render renderer plan meta ph st
      (stepConfigs plan meta ph st (length sts1)) s i (Some j) ts1 [] = Prepared r3 \<and>
    activePlan_Tasks plan t = Some taskSpec \<and>
    TaskSpec_Resources taskSpec = rs1 @ res # rs2 \<and>
    renderResources render plan meta (stepConfigs plan meta ph st (length sts1))
      s i (Some j) rs1 [] = Prepared a \<and>
    activePlan_Templates plan res = None
    \<longrightarrow>
    (\<exists>s'. executePlan render plan meta cl renderer h c =
             (PlanReturn (h(activePlan_PlanStatus plan \<mapsto> s')) (activePlan_PlanStatus plan)
                (Some (ExecutionError (ErrResourceNotFound res (operatorVersionName meta))
                         True)),
              c, [])
         \<and> PlanStatus_Status s' = ExecutionFatalError
         \<and> PhaseStatus_Status (phaseAt s' i) = ExecutionFatalError
         \<and> StepStatus_Status (stepAt s' i j) = ExecutionFatalError))
   \<and>
   (h2 (activePlan_PlanStatus plan2) = Some s2 \<and>
    prepareKubeResources render2 renderer2 plan2 meta2 s2 = Prepared pr \<and>
    executePlan render2 plan2 meta2 cl2 renderer2 h2 c2 = (PlanReturn h' p (Some err), c', evs)
    \<longrightarrow>
    (\<exists>s'. h' p = Some s' \<and> noNewFatal s2 s' \<and>
       PlanStatus_Status s' = ExecutionInProgress \<and>
       (\<exists>ph' st' i' j'.
          ph' \<in> set (Plan_Phases (activePlan_Spec plan2)) \<and>
          st' \<in> set (Phase_Steps ph') \<and>
          getPhaseFromStatus (Phase_Name ph') s' = Some i' \<and>
          getStepFromStatus (Step_Name st') (phaseAt s' i') = Some j' \<and>
          PhaseStatus_Status (phaseAt s' i') = ErrorStatus \<and>
          StepStatus_Status (stepAt s' i' j') = ErrorStatus)))"
proof (intro conjI impI)
  assume A: "h (activePlan_PlanStatus plan) = Some s \<and> \<not> IsTerminal (PlanStatus_Status s) \<and>
    Plan_Phases (activePlan_Spec plan) = phs1 @ ph # phs2 \<and>
    preparePhases render renderer plan meta s phs1 Map.empty = Prepared r1 \<and>
    getPhaseFromStatus (Phase_Name ph) s = Some i \<and>
    Phase_Steps ph = sts1 @ st # sts2 \<and>
    prepareSteps render renderer plan meta ph s (Some i) 0 sts1 Map.empty = Prepared r2 \<and>
    getStepFromStatus (Step_Name st) (phaseAt s i) = Some j \<and>
    Step_Tasks st = ts1 @ t # ts2 \<and>
    prepareTasks render renderer plan meta ph st
      (stepConfigs plan meta ph st (length sts1)) s i (Some j) ts1 [] = Prepared r3 \<and>
    activePlan_Tasks plan t = Some taskSpec \<and>
    TaskSpec_Resources taskSpec = rs1 @ res # rs2 \<and>
    renderResources render plan meta (stepConfigs plan meta ph st (length sts1))
      s i (Some j) rs1 [] = Prepared a \<and>
    activePlan_Templates plan res = None"
  have prep: "prepareKubeResources render renderer plan meta s =
           PrepareError (markFailed s i j ExecutionFatalError)
             (ExecutionError (ErrResourceNotFound res (operatorVersionName meta)) True)"
    by (insert A, rule prepare_missing_template
          [where ?phs1.0 = phs1 and ph = ph and ?phs2.0 = phs2 and ?r1.0 = r1 and
                 ?sts1.0 = sts1 and st = st and ?sts2.0 = sts2 and ?r2.0 = r2 and
                 ?ts1.0 = ts1 and t = t and ?ts2.0 = ts2 and ?r3.0 = r3 and
                 taskSpec = taskSpec and ?rs1.0 = rs1 and ?rs2.0 = rs2 and a = a])
       simp_all
  from A have look: "getPhaseFromStatus (Phase_Name ph) s = Some i"
    "getStepFromStatus (Step_Name st) (phaseAt s i) = Some j" by simp_all
  let ?s' = "(markFailed s i j ExecutionFatalError)\<lparr>PlanStatus_Status := ExecutionFatalError\<rparr>"
  from A have hs: "h (activePlan_PlanStatus plan) = Some s"
    and nt: "\<not> IsTerminal (PlanStatus_Status s)" by simp_all
  have "executePlan render plan meta cl renderer h c =
             (PlanReturn (h(activePlan_PlanStatus plan \<mapsto> ?s')) (activePlan_PlanStatus plan)
                (Some (ExecutionError (ErrResourceNotFound res (operatorVersionName meta))
                         True)),
              c, [])"
    by (rule executePlan_missing_template [where h = h and plan = plan and s = s, OF hs nt prep])
  moreover have "PlanStatus_Status ?s' = ExecutionFatalError" by simp
  moreover have "PhaseStatus_Status (phaseAt ?s' i) = ExecutionFatalError"
    "StepStatus_Status (stepAt ?s' i j) = ExecutionFatalError"
    using marked_statuses [OF look, of ExecutionFatalError] by (simp_all add: stepAt_def)
  ultimately show "\<exists>s'. executePlan render plan meta cl renderer h c =
             (PlanReturn (h(activePlan_PlanStatus plan \<mapsto> s')) (activePlan_PlanStatus plan)
                (Some (ExecutionError (ErrResourceNotFound res (operatorVersionName meta))
                         True)),
              c, [])
         \<and> PlanStatus_Status s' = ExecutionFatalError
         \<and> PhaseStatus_Status (phaseAt s' i) = ExecutionFatalError
         \<and> StepStatus_Status (stepAt s' i j) = ExecutionFatalError"
    by blast
next
  assume B: "h2 (activePlan_PlanStatus plan2) = Some s2 \<and>
    prepareKubeResources render2 renderer2 plan2 meta2 s2 = Prepared pr \<and>
    executePlan render2 plan2 meta2 cl2 renderer2 h2 c2 = (PlanReturn h' p (Some err), c', evs)"
  show "\<exists>s'. h' p = Some s' \<and> noNewFatal s2 s' \<and>
       PlanStatus_Status s' = ExecutionInProgress \<and>
       (\<exists>ph' st' i' j'.
          ph' \<in> set (Plan_Phases (activePlan_Spec plan2)) \<and>
          st' \<in> set (Phase_Steps ph') \<and>
          getPhaseFromStatus (Phase_Name ph') s' = Some i' \<and>
          getStepFromStatus (Step_Name st') (phaseAt s' i') = Some j' \<and>
          PhaseStatus_Status (phaseAt s' i') = ErrorStatus \<and>
          StepStatus_Status (stepAt s' i' j') = ErrorStatus)"
    by (insert B, rule executePlan_api_error [where h = h2 and s = s2 and pr = pr and c' = c'
                                      and evs = evs and render = render2 and cl = cl2
                                      and renderer = renderer2 and meta = meta2 and c = c2])
       simp_all
qed

lemma missing_template_reached:
  "exampleStore (activePlan_PlanStatus missingTemplatePlan) = Some examplePlanStatus"
  "\<not> IsTerminal (PlanStatus_Status examplePlanStatus)"
  "Plan_Phases (activePlan_Spec missingTemplatePlan) = [] @ examplePhase # []"
  "preparePhases exampleRender exampleEnhancer missingTemplatePlan exampleMeta
     examplePlanStatus [] Map.empty = Prepared Map.empty"
  "getPhaseFromStatus (Phase_Name examplePhase) examplePlanStatus = Some 0"
  "Phase_Steps examplePhase = [] @ exampleStep # []"
  "prepareSteps exampleRender exampleEnhancer missingTemplatePlan exampleMeta examplePhase
     examplePlanStatus (Some 0) 0 [] Map.empty = Prepared Map.empty"
  "getStepFromStatus (Step_Name exampleStep) (phaseAt examplePlanStatus 0) = Some 0"
  "Step_Tasks exampleStep = [] @ ''deploy-task'' # []"
  "prepareTasks exampleRender exampleEnhancer missingTemplatePlan exampleMeta examplePhase
     exampleStep
     (stepConfigs missingTemplatePlan exampleMeta examplePhase exampleStep (length []))
     examplePlanStatus 0 (Some 0) [] [] = Prepared []"
  "activePlan_Tasks missingTemplatePlan ''deploy-task''
     = Some \<lparr>TaskSpec_Resources = [''deployment.yaml'']\<rparr>"
  "TaskSpec_Resources \<lparr>TaskSpec_Resources = [''deployment.yaml'']\<rparr>
     = [] @ ''deployment.yaml'' # []"
  "renderResources exampleRender missingTemplatePlan exampleMeta
     (stepConfigs missingTemplatePlan exampleMeta examplePhase exampleStep (length []))
     examplePlanStatus 0 (Some 0) [] [] = Prepared []"
  "activePlan_Templates missingTemplatePlan ''deployment.yaml'' = None"
  by (simp_all add: example_defs engine_defs)

lemma prepare_example:
  "prepareKubeResources exampleRender exampleEnhancer examplePlan exampleMeta
     examplePlanStatus = Prepared [''main'' \<mapsto> [''srv'' \<mapsto> [exampleObject]]]"
  by (simp add: example_defs engine_defs)

lemma executePlan_example_failing:
  "executePlan exampleRender examplePlan exampleMeta failingCluster exampleEnhancer
     exampleStore 0 =
   (PlanReturn (exampleStore(0 \<mapsto> failedStatus)) 0
      (Some (StatusError (StatusReasonOther ''InternalError''))), 0,
    [EvExecuteStep ''srv'', EvGet (ObjectKeyFromObject exampleObject)])"
  by (simp add: example_defs engine_defs failedStatus_def)

lemma ex_store: "exampleStore (activePlan_PlanStatus examplePlan) = Some examplePlanStatus"
  by (simp add: example_defs)

theorem executePlan_fatal_classification_witness:
  "activePlan_Templates missingTemplatePlan ''deployment.yaml'' = None
   \<and> (\<exists>s'. executePlan exampleRender missingTemplatePlan exampleMeta (emptyCluster True)
               exampleEnhancer exampleStore 0 =
             (PlanReturn (exampleStore(activePlan_PlanStatus missingTemplatePlan \<mapsto> s'))
                (activePlan_PlanStatus missingTemplatePlan)
                (Some (ExecutionError
                   (ErrResourceNotFound ''deployment.yaml'' (operatorVersionName exampleMeta))
                   True)), 0, [])
           \<and> PlanStatus_Status s' = ExecutionFatalError
           \<and> PhaseStatus_Status (phaseAt s' 0) = ExecutionFatalError
           \<and> StepStatus_Status (stepAt s' 0 0) = ExecutionFatalError)
   \<and> executePlan exampleRender examplePlan exampleMeta failingCluster exampleEnhancer
        exampleStore 0 =
      (PlanReturn (exampleStore(0 \<mapsto> failedStatus)) 0
         (Some (StatusError (StatusReasonOther ''InternalError''))), 0,
       [EvExecuteStep ''srv'', EvGet (ObjectKeyFromObject exampleObject)])
   \<and> (\<exists>s'. (exampleStore(0 \<mapsto> failedStatus)) 0 = Some s' \<and>
         noNewFatal examplePlanStatus s' \<and>
         PlanStatus_Status s' = ExecutionInProgress \<and>
         (\<exists>ph' st' i' j'.
            ph' \<in> set (Plan_Phases (activePlan_Spec examplePlan)) \<and>
            st' \<in> set (Phase_Steps ph') \<and>
            getPhaseFromStatus (Phase_Name ph') s' = Some i' \<and>
            getStepFromStatus (Step_Name st') (phaseAt s' i') = Some j' \<and>
            PhaseStatus_Status (phaseAt s' i') = ErrorStatus \<and>
            StepStatus_Status (stepAt s' i' j') = ErrorStatus))"
  using executePlan_fatal_classification
          [where h = exampleStore and plan = missingTemplatePlan and s = examplePlanStatus
             and ?phs1.0 = "[]" and ph = examplePhase and ?phs2.0 = "[]"
             and render = exampleRender and renderer = exampleEnhancer and meta = exampleMeta
             and ?r1.0 = Map.empty and i = 0 and ?sts1.0 = "[]" and st = exampleStep
             and ?sts2.0 = "[]" and ?r2.0 = Map.empty and j = 0 and ?ts1.0 = "[]"
             and t = "''deploy-task''" and ?ts2.0 = "[]" and ?r3.0 = "[]"
             and taskSpec = "\<lparr>TaskSpec_Resources = [''deployment.yaml'']\<rparr>"
             and ?rs1.0 = "[]" and res = "''deployment.yaml''" and ?rs2.0 = "[]" and a = "[]"
             and cl = "emptyCluster True" and c = 0
             and ?h2.0 = exampleStore and ?plan2.0 = examplePlan and ?s2.0 = examplePlanStatus
             and ?render2.0 = exampleRender and ?renderer2.0 = exampleEnhancer
             and ?meta2.0 = exampleMeta
             and pr = "[''main'' \<mapsto> [''srv'' \<mapsto> [exampleObject]]]"
             and ?cl2.0 = failingCluster and ?c2.0 = 0
             and h' = "exampleStore(0 \<mapsto> failedStatus)" and p = 0
             and err = "StatusError (StatusReasonOther ''InternalError'')" and c' = 0
             and evs = "[EvExecuteStep ''srv'', EvGet (ObjectKeyFromObject exampleObject)]"]
        missing_template_reached prepare_example executePlan_example_failing ex_store
  by blast

text \<open>
  The claim as the spec states it, for every plan with a reference to a missing template,
  fails on three plans whose template catalog is empty. When the step lists a task that
  is not in the task catalog first, the preparer stops there and marks phase and step
  \<^verbatim>\<open>ErrorStatus\<close>. When the plan is \<^verbatim>\<open>Complete\<close>, the tick returns at once and the phase
  stays pending. When the plan status has no entry for the phase, the tick panics.
\<close>

theorem executePlan_fatal_classification_counterexample:
  "activePlan_Tasks mixedPlan ''deploy-task''
     = Some \<lparr>TaskSpec_Resources = [''deployment.yaml'']\<rparr>
   \<and> activePlan_Templates mixedPlan ''deployment.yaml'' = None
   \<and> executePlan exampleRender mixedPlan exampleMeta (emptyCluster True) exampleEnhancer
       exampleStore 0 =
     (PlanReturn
        (exampleStore(0 \<mapsto>
           \<lparr>PlanStatus_Name = ''deploy'', PlanStatus_Status = ExecutionFatalError,
            PlanStatus_Phases =
              [\<lparr>PhaseStatus_Name = ''main'', PhaseStatus_Status = ErrorStatus,
                PhaseStatus_Steps =
                  [\<lparr>StepStatus_Name = ''srv'', StepStatus_Status = ErrorStatus\<rparr>]\<rparr>]\<rparr>))
        0 (Some (ExecutionError (ErrTaskNotFound ''op-1.0'') False)),
      0, [])
   \<and> ErrorStatus \<noteq> ExecutionFatalError
   \<and> activePlan_Templates missingTemplatePlan ''deployment.yaml'' = None
   \<and> executePlan exampleRender missingTemplatePlan exampleMeta (emptyCluster True)
       exampleEnhancer
       (exampleStore(0 \<mapsto> examplePlanStatus\<lparr>PlanStatus_Status := ExecutionComplete\<rparr>)) 0 =
     (PlanReturn
        (exampleStore(0 \<mapsto> examplePlanStatus\<lparr>PlanStatus_Status := ExecutionComplete\<rparr>))
        0 None, 0, [])
   \<and> PhaseStatus_Status (phaseAt (examplePlanStatus\<lparr>PlanStatus_Status := ExecutionComplete\<rparr>) 0)
       = ExecutionPending
   \<and> fst (executePlan exampleRender missingTemplatePlan exampleMeta (emptyCluster True)
            exampleEnhancer
            (exampleStore(0 \<mapsto> examplePlanStatus\<lparr>PlanStatus_Phases := []\<rparr>)) 0)
     = PlanPanic"
  by (simp add: example_defs engine_defs)

section \<open>Conventions on the emitted objects\<close>

lemmas key_defs = HeritageLabel_def OperatorLabel_def InstanceLabel_def PlanAnnotation_def
  PhaseAnnotation_def StepAnnotation_def OperatorVersionAnnotation_def

lemma customize_conventions:
  "carriesConventions md owner
     ((customize (conventions md names) obj)
        \<lparr>Object_OwnerReferences := refs @ [owner\<lparr>OwnerReference_Controller := True\<rparr>]\<rparr>)"
  by (simp add: carriesConventions_def customize_def conventions_def setAll_def key_defs
        update_conv')

lemma setControllerReferences_Inr:
  "setControllerReferences k owner objs = Inr objs' \<Longrightarrow>
   objs' = map (\<lambda>obj. obj\<lparr>Object_OwnerReferences :=
                          Object_OwnerReferences obj
                            @ [owner\<lparr>OwnerReference_Controller := True\<rparr>]\<rparr>) objs"
  by (induction objs arbitrary: objs')
     (auto simp: setControllerReference_def SetControllerReference_def
           split: sum.splits option.splits)

lemma customizeAndParse_conventions:
  assumes "ldr (basePath @ ''/kustomization.yaml'') = Some (YamlKustomization (conventions md names))"
      and "obj \<in> set (fst (customizeAndParse k ldr owner))"
  shows "carriesConventions md owner obj"
proof -
  from assms(2) obtain objs objs' where
    objs': "setControllerReferences k owner (map (customize (conventions md names)) objs) = Inr objs'"
    and mem: "obj \<in> set objs'"
    using assms(1)
    by (auto simp: customizeAndParse_def NewKustTarget_def MakeCustomizedResMap_def
          EncodeAsYaml_def ParseKubernetesObjects_def
          split: sum.splits option.splits yaml.splits)
  from setControllerReferences_Inr [OF objs'] mem show ?thesis
    by (auto simp: customize_conventions)
qed

lemmas enhancer_defs = applyConventionsToTemplates_def deferredCleanup_def
  customizeAndParse_def NewKustTarget_def MakeCustomizedResMap_def EncodeAsYaml_def
  ParseKubernetesObjects_def setControllerReference_def SetControllerReference_def
  NewLoader_def Cleanup_def yamlMarshal_def WriteFile_def customize_def setAll_def
  basePath_def Let_def

text \<open>
  C7. Every object that \<^verbatim>\<open>applyConventionsToTemplates\<close> returns carries the labels
  \<open>heritage\<close> = \<open>kudo\<close>, \<open>operator\<close> = the operator name and \<open>instance\<close> = the instance name,
  the annotations \<open>plan\<close>, \<open>phase\<close>, \<open>step\<close> and \<open>operatorVersion\<close> with the values of the
  metadata, a name that begins with the instance name and a dash, the namespace of the
  metadata, and the supplied owner as controller among its owner references. The
  customization engine, the YAML parser and the owner-reference setter are the ones
  modelled from the spec.
\<close>

theorem applyConventionsToTemplates_conventions:
  "\<forall>obj \<in> set (fst (applyConventionsToTemplates k templates md owner)).
     carriesConventions md owner obj"
proof
  fix obj
  assume mem: "obj \<in> set (fst (applyConventionsToTemplates k templates md owner))"
  then obtain names fs fs' where
    fs': "WriteFile k (basePath @ ''/kustomization.yaml'')
            (YamlKustomization (conventions md names)) fs = Inr fs'"
    and obj: "obj \<in> set (fst (deferredCleanup k fs' (customizeAndParse k fs' owner)))"
    by (auto simp: applyConventionsToTemplates_def yamlMarshal_def NewLoader_def Let_def
          conventions_def split: sum.splits option.splits prod.splits)
  from fs' have "fs' (basePath @ ''/kustomization.yaml'')
                   = Some (YamlKustomization (conventions md names))"
    by (auto simp: WriteFile_def split: option.splits)
  moreover from obj have "obj \<in> set (fst (customizeAndParse k fs' owner))"
    by (simp add: deferredCleanup_def split: option.splits)
  ultimately show "carriesConventions md owner obj"
    by (rule customizeAndParse_conventions)
qed

lemma applyConventionsToTemplates_example:
  "applyConventionsToTemplates plainEnhancer [(''deployment.yaml'', ''kind: Deployment'')]
     exampleMetadata exampleOwner = ([conventionalObject], None)"
  by (simp add: enhancer_defs key_defs plainEnhancer_def exampleMetadata_def exampleOwner_def
        authoredObject_def conventionalObject_def)

theorem applyConventionsToTemplates_conventions_witness:
  "applyConventionsToTemplates plainEnhancer [(''deployment.yaml'', ''kind: Deployment'')]
     exampleMetadata exampleOwner = ([conventionalObject], None)
   \<and> carriesConventions exampleMetadata exampleOwner conventionalObject"
proof
  show a: "applyConventionsToTemplates plainEnhancer
             [(''deployment.yaml'', ''kind: Deployment'')] exampleMetadata exampleOwner
           = ([conventionalObject], None)"
    by (rule applyConventionsToTemplates_example)
  from applyConventionsToTemplates_conventions
         [of plainEnhancer "[(''deployment.yaml'', ''kind: Deployment'')]" exampleMetadata
            exampleOwner, unfolded a]
  show "carriesConventions exampleMetadata exampleOwner conventionalObject"
    by simp
qed


end
